(* ===== verification/Prelude.thy ===== *)
theory Prelude
  imports "HOL-Library.Word" "HOL-Library.Finite_Map" "HOL-Library.Monad_Syntax" "HOL-Library.Multiset"
begin

text \<open>
  Shared vocabulary of the development.

  \<^item> The machine types: fixed-width integers are words, \<open>U256\<close>, \<open>H256\<close> and \<open>Address\<close> are words of
    256, 256 and 160 bits, byte strings are lists of bytes.
  \<^item> Outcomes: a Rust function that can panic returns an \<open>option\<close> whose \<open>None\<close> is the panic; a
    function that returns \<open>Result\<close> returns a value of the datatype \<open>result\<close>.  Arithmetic on the
    primitive integers is modelled as the development profile compiles it: an overflowing \<open>+\<close>,
    \<open>-\<close> or \<open>*\<close> panics.
  \<^item> Containers: \<open>HashMap\<close> is a finite map; a \<open>HashSet\<close> is a set whose iteration order is a
    parameter (\<open>hasher\<close>); \<open>BTreeSet\<close> is a list strictly sorted by the key its \<open>Ord\<close>
    instance compares; \<open>Vec::swap_remove\<close> is \<open>swap_remove\<close>.
\<close>

section \<open>Machine types\<close>

type_synonym u8 = "8 word"
type_synonym u64 = "64 word"
type_synonym u128 = "128 word"
type_synonym U256 = "256 word"
type_synonym H256 = "256 word"
type_synonym Address = "160 word"
type_synonym bytes = "u8 list"

section \<open>Results\<close>

datatype ('a, 'e) result = Ok 'a | Err 'e

fun is_ok :: "('a, 'e) result \<Rightarrow> bool" where
  "is_ok (Ok _) = True"
| "is_ok (Err _) = False"

text \<open>The operator \<open>?\<close> and \<open>Result::map\<close>.\<close>

fun and_then :: "('a, 'e) result \<Rightarrow> ('a \<Rightarrow> ('b, 'e) result) \<Rightarrow> ('b, 'e) result" where
  "and_then (Ok x) f = f x"
| "and_then (Err e) f = Err e"

fun map_ok :: "('a \<Rightarrow> 'b) \<Rightarrow> ('a, 'e) result \<Rightarrow> ('b, 'e) result" where
  "map_ok f (Ok x) = Ok (f x)"
| "map_ok f (Err e) = Err e"

fun ok_opt :: "('a, 'e) result \<Rightarrow> 'a option" where
  "ok_opt (Ok x) = Some x"
| "ok_opt (Err e) = None"

section \<open>Checked and saturating word arithmetic\<close>

text \<open>The operators \<open>+\<close>, \<open>-\<close>, \<open>*\<close> and \<open>/\<close>: \<open>None\<close> is the overflow or division panic.\<close>

definition add_chk :: "'a::len word \<Rightarrow> 'a word \<Rightarrow> 'a word option" where
  "add_chk a b = (if unat a + unat b < 2 ^ LENGTH('a) then Some (a + b) else None)"

definition sub_chk :: "'a::len word \<Rightarrow> 'a word \<Rightarrow> 'a word option" where
  "sub_chk a b = (if b \<le> a then Some (a - b) else None)"

definition mul_chk :: "'a::len word \<Rightarrow> 'a word \<Rightarrow> 'a word option" where
  "mul_chk a b = (if unat a * unat b < 2 ^ LENGTH('a) then Some (a * b) else None)"

definition div_chk :: "'a::len word \<Rightarrow> 'a word \<Rightarrow> 'a word option" where
  "div_chk a b = (if b = 0 then None else Some (a div b))"

text \<open>The saturating methods.\<close>

definition saturating_add :: "'a::len word \<Rightarrow> 'a word \<Rightarrow> 'a word" where
  "saturating_add a b = (if unat a + unat b < 2 ^ LENGTH('a) then a + b else - 1)"

definition saturating_sub :: "'a::len word \<Rightarrow> 'a word \<Rightarrow> 'a word" where
  "saturating_sub a b = (if b \<le> a then a - b else 0)"

definition saturating_mul :: "'a::len word \<Rightarrow> 'a word \<Rightarrow> 'a word" where
  "saturating_mul a b = (if unat a * unat b < 2 ^ LENGTH('a) then a * b else - 1)"

text \<open>\<open>U256::as_u64\<close>: panics when the value does not fit.\<close>

definition as_u64 :: "U256 \<Rightarrow> u64 option" where
  "as_u64 x = (if unat x < 2 ^ 64 then Some (ucast x) else None)"

lemma unat_add_chk: "add_chk a b = Some c \<Longrightarrow> unat c = unat a + unat b"
  by (auto simp: add_chk_def unat_word_ariths split: if_splits)

lemma unat_sub_chk: "sub_chk a b = Some c \<Longrightarrow> unat c = unat a - unat b \<and> unat b \<le> unat a"
  by (auto simp: sub_chk_def unat_sub word_le_nat_alt split: if_splits)

lemma unat_mul_chk: "mul_chk a b = Some c \<Longrightarrow> unat c = unat a * unat b"
  by (auto simp: mul_chk_def unat_word_ariths split: if_splits)

lemma unat_div_chk: "div_chk a b = Some c \<Longrightarrow> unat c = unat a div unat b \<and> b \<noteq> 0"
  by (auto simp: div_chk_def unat_div split: if_splits)

lemma unat_max_word: "unat (- 1 :: 'a::len word) = 2 ^ LENGTH('a) - 1"
  by (simp add: unsigned_minus_1_eq_mask mask_eq_exp_minus_1)

lemma unat_saturating_add:
  "unat (saturating_add a b) = min (unat a + unat b) (2 ^ LENGTH('a) - 1)"
  for a b :: "'a::len word"
  by (auto simp: saturating_add_def unat_word_ariths unat_max_word)

lemma unat_saturating_sub: "unat (saturating_sub a b) = unat a - unat b"
  by (auto simp: saturating_sub_def unat_sub word_le_nat_alt)

lemma unat_saturating_mul:
  "unat (saturating_mul a b) = min (unat a * unat b) (2 ^ LENGTH('a) - 1)"
  for a b :: "'a::len word"
  by (auto simp: saturating_mul_def unat_word_ariths unat_max_word)

lemma saturating_sub_le: "saturating_sub a b \<le> a"
  by (simp add: word_le_nat_alt unat_saturating_sub)

lemma as_u64_Some: "as_u64 x = Some y \<longleftrightarrow> unat x < 2 ^ 64 \<and> unat y = unat x"
proof -
  have "unat (ucast x :: u64) = unat x" if "unat x < 2 ^ 64"
    using that by (simp add: unsigned_ucast_eq take_bit_nat_eq_self)
  then show ?thesis
    by (auto simp: as_u64_def word_unat_eq_iff)
qed

lemma unat_u64: "unat (x :: u64) < 2 ^ 64"
  by (rule order_less_le_trans [OF unsigned_less]) simp

lemma unat_of_nat_u64: "n < 2 ^ 64 \<Longrightarrow> unat (of_nat n :: u64) = n"
  by (simp add: unsigned_of_nat take_bit_nat_eq_self)

lemma unat_word_less: "unat (x :: 'a::len word) < 2 ^ LENGTH('a)"
  by (rule unsigned_less)

lemma unat_plus_one: "a < b \<Longrightarrow> unat (a + 1) = Suc (unat a)"
  for a b :: "'a::len word"
proof -
  assume "a < b"
  then have "Suc (unat a) < 2 ^ LENGTH('a)"
    using unat_word_less [of b] unfolding word_less_nat_alt by linarith
  then show ?thesis by (simp add: unat_word_ariths)
qed

section \<open>Vectors\<close>

text \<open>\<open>Vec::swap_remove\<close>: the last element takes the place of the removed one.\<close>

definition swap_remove :: "nat \<Rightarrow> 'a list \<Rightarrow> 'a list" where
  "swap_remove i xs = butlast (xs[i := last xs])"

text \<open>\<open>if let Some(idx) = xs.iter().position(|i| i == x) { xs.swap_remove(idx) }\<close>\<close>

fun position :: "('a \<Rightarrow> bool) \<Rightarrow> 'a list \<Rightarrow> nat option" where
  "position P [] = None"
| "position P (x # xs) = (if P x then Some 0 else map_option Suc (position P xs))"

definition swap_remove_first :: "'a \<Rightarrow> 'a list \<Rightarrow> 'a list" where
  "swap_remove_first x xs =
     (case position (\<lambda>y. y = x) xs of Some i \<Rightarrow> swap_remove i xs | None \<Rightarrow> xs)"


lemma position_None [simp]: "position P xs = None \<longleftrightarrow> (\<forall>x \<in> set xs. \<not> P x)"
  by (induction xs) auto

lemma position_Some: "position P xs = Some i \<Longrightarrow> i < length xs \<and> P (xs ! i)"
  by (induction xs arbitrary: i) (auto split: if_splits simp: less_Suc_eq_0_disj)

lemma mset_swap_remove: "i < length xs \<Longrightarrow> mset (swap_remove i xs) = mset xs - {# xs ! i #}"
proof (cases xs rule: rev_cases)
  case (snoc ys y)
  assume i: "i < length xs"
  show ?thesis
  proof (cases "i < length ys")
    case True
    then show ?thesis
      using snoc by (simp add: swap_remove_def list_update_append butlast_append mset_update nth_append)
  next
    case False
    with i snoc have "i = length ys" by simp
    then show ?thesis using snoc by (simp add: swap_remove_def list_update_append)
  qed
qed simp

text \<open>The idiom removes one occurrence of the element, or nothing.\<close>

lemma mset_swap_remove_first: "mset (swap_remove_first x xs) = mset xs - {# x #}"
  by (auto simp: swap_remove_first_def mset_swap_remove diff_single_trivial
      split: option.splits dest!: position_Some)

lemma set_swap_remove_first: "set (swap_remove_first x xs) \<subseteq> set xs"
  by (metis mset_swap_remove_first diff_subset_eq_self set_mset_mono set_mset_mset)

section \<open>Hash containers\<close>

text \<open>
  The order in which a \<open>HashSet\<close> is iterated depends on the hasher's random state.  It is a
  parameter of every definition whose result depends on it; \<open>iter_order\<close> is all that is known of it.
\<close>

definition iter_order :: "('a set \<Rightarrow> 'a list) \<Rightarrow> bool" where
  "iter_order it \<longleftrightarrow> (\<forall>S. finite S \<longrightarrow> set (it S) = S \<and> distinct (it S))"

lemma iter_orderD [simp]:
  assumes "iter_order it" "finite S"
  shows "set (it S) = S" "distinct (it S)"
  using assms by (auto simp: iter_order_def)

lemma iter_order_sorted: "iter_order sorted_list_of_set"
  by (simp add: iter_order_def)

section \<open>Ordered sets\<close>

text \<open>
  \<open>BTreeSet\<close> keeps one element per key, in the order of the keys; inserting an element whose key
  is present leaves the set as it is.
\<close>

definition bset_insert :: "('a \<Rightarrow> 'k::linorder) \<Rightarrow> 'a \<Rightarrow> 'a list \<Rightarrow> 'a list" where
  "bset_insert key x xs = (if key x \<in> key ` set xs then xs else insort_key key x xs)"

definition bset_remove :: "('a \<Rightarrow> 'k::linorder) \<Rightarrow> 'a \<Rightarrow> 'a list \<Rightarrow> 'a list" where
  "bset_remove key x xs = filter (\<lambda>y. key y \<noteq> key x) xs"

definition bset_ok :: "('a \<Rightarrow> 'k::linorder) \<Rightarrow> 'a list \<Rightarrow> bool" where
  "bset_ok key xs \<longleftrightarrow> sorted (map key xs) \<and> distinct (map key xs)"

text \<open>The contract of an ordered set, over the operations its clients call.\<close>

locale ordered_set =
  fixes insert_el :: "'a \<Rightarrow> 's \<Rightarrow> 's"
    and remove_el :: "'a \<Rightarrow> 's \<Rightarrow> 's"
    and elements :: "'s \<Rightarrow> 'a list"
    and key :: "'a \<Rightarrow> 'k::linorder"
    and invar :: "'s \<Rightarrow> bool"
  assumes invar_insert: "invar s \<Longrightarrow> invar (insert_el x s)"
    and invar_remove: "invar s \<Longrightarrow> invar (remove_el x s)"
    and sorted_elements: "invar s \<Longrightarrow> sorted (map key (elements s)) \<and> distinct (map key (elements s))"
    and set_insert: "invar s \<Longrightarrow> set (elements (insert_el x s)) =
          (if key x \<in> key ` set (elements s) then set (elements s) else insert x (set (elements s)))"
    and set_remove: "invar s \<Longrightarrow> set (elements (remove_el x s)) =
          {y \<in> set (elements s). key y \<noteq> key x}"
begin

lemma set_insert_subset: "invar s \<Longrightarrow> set (elements (insert_el x s)) \<subseteq> insert x (set (elements s))"
  by (auto simp: set_insert)

lemma not_in_remove: "invar s \<Longrightarrow> x \<notin> set (elements (remove_el x s))"
  by (simp add: set_remove)

lemma last_is_max:
  assumes "invar s" "x \<in> set (elements s)"
  shows "key x \<le> key (last (elements s))"
proof -
  from assms obtain ys y where ys: "elements s = ys @ [y]"
    by (metis append_butlast_last_id empty_iff empty_set)
  with sorted_elements [OF assms(1)] assms(2) show ?thesis
    by (auto simp: sorted_append)
qed

lemma key_inj:
  assumes "invar s" "x \<in> set (elements s)" "y \<in> set (elements s)" "key x = key y"
  shows "x = y"
  using sorted_elements [OF assms(1)] assms(2-4) by (auto simp: distinct_map inj_on_def)

end

lemma bset_ok_insert: "bset_ok key xs \<Longrightarrow> bset_ok key (bset_insert key x xs)"
  by (auto simp: bset_ok_def bset_insert_def sorted_insort_key distinct_map inj_on_def
      set_insort_key distinct_insort image_iff)

lemma bset_ok_remove: "bset_ok key xs \<Longrightarrow> bset_ok key (bset_remove key x xs)"
  by (auto simp: bset_ok_def bset_remove_def sorted_filter distinct_map_filter)

lemma bset_ok_Nil [simp]: "bset_ok key []"
  by (simp add: bset_ok_def)

interpretation bset: ordered_set "bset_insert key" "bset_remove key" "\<lambda>xs. xs" key "bset_ok key"
  for key :: "'a \<Rightarrow> 'k::linorder"
proof (unfold_locales, goal_cases)
  case 1 then show ?case by (rule bset_ok_insert)
next
  case 2 then show ?case by (rule bset_ok_remove)
next
  case 3 then show ?case by (simp add: bset_ok_def)
next
  case 4 then show ?case by (simp add: bset_insert_def set_insort_key)
next
  case 5 then show ?case by (auto simp: bset_remove_def)
qed

section \<open>State machines\<close>

text \<open>The states a machine can reach, and invariants of them.\<close>

inductive reach :: "('s \<Rightarrow> bool) \<Rightarrow> ('s \<Rightarrow> 'l \<Rightarrow> 's \<Rightarrow> bool) \<Rightarrow> 's \<Rightarrow> bool"
  for init :: "'s \<Rightarrow> bool" and step :: "'s \<Rightarrow> 'l \<Rightarrow> 's \<Rightarrow> bool" where
  reach_init: "init s \<Longrightarrow> reach init step s"
| reach_step: "reach init step s \<Longrightarrow> step s l s' \<Longrightarrow> reach init step s'"

locale machine_inv =
  fixes init :: "'s \<Rightarrow> bool"
    and step :: "'s \<Rightarrow> 'l \<Rightarrow> 's \<Rightarrow> bool"
    and inv :: "'s \<Rightarrow> bool"
  assumes inv_init: "init s \<Longrightarrow> inv s"
    and inv_step: "inv s \<Longrightarrow> step s l s' \<Longrightarrow> inv s'"
begin

lemma reach_inv: "reach init step s \<Longrightarrow> inv s"
  by (induction rule: reach.induct) (auto intro: inv_init inv_step)

end

section \<open>Bytes of words\<close>

text \<open>Little-endian and big-endian bytes of a word, as \<open>to_le_bytes\<close> and \<open>Address::0\<close> give them.\<close>

fun le_bytes :: "nat \<Rightarrow> 'a::len word \<Rightarrow> bytes" where
  "le_bytes 0 w = []"
| "le_bytes (Suc n) w = ucast w # le_bytes n (drop_bit 8 w)"

fun le_nat :: "bytes \<Rightarrow> nat" where
  "le_nat [] = 0"
| "le_nat (b # bs) = unat b + 256 * le_nat bs"

lemma length_le_bytes [simp]: "length (le_bytes n w) = n"
  by (induction n arbitrary: w) auto

lemma le_nat_le_bytes: "le_nat (le_bytes n w) = unat w mod 256 ^ n"
proof (induction n arbitrary: w)
  case (Suc n)
  have a: "unat (ucast w :: u8) = unat w mod 256"
    by (simp add: unsigned_ucast_eq take_bit_eq_mod)
  have b: "unat (drop_bit 8 w) = unat w div 256"
    by (simp only: unat_drop_bit_eq) (simp add: drop_bit_eq_div)
  show ?case
    using mod_mult2_eq [of "unat w" 256 "256 ^ n"] by (simp add: Suc.IH a b)
qed simp

section \<open>Encodings\<close>

text \<open>A decoder that undoes an encoder on the values \<open>valid\<close> describes.\<close>

locale codec =
  fixes enc :: "'a \<Rightarrow> 'b"
    and dec :: "'b \<Rightarrow> 'a option"
    and valid :: "'a \<Rightarrow> bool"
  assumes dec_enc: "valid x \<Longrightarrow> dec (enc x) = Some x"
begin

lemma enc_inj: "valid x \<Longrightarrow> valid y \<Longrightarrow> enc x = enc y \<Longrightarrow> x = y"
  by (metis dec_enc option.inject)

end

end
