(* ===== verification/Transaction.thy ===== *)
theory Transaction
  imports Prelude
begin

text \<open>
  The transaction types of \<open>anvil/core/src/eth/transaction/mod.rs\<close>: requests as they come from
  RPC, the three signed transaction kinds, the conversions between them, and the queued
  \<open>PendingTransaction\<close>.  The signature primitives (\<open>Signature::recover\<close>,
  \<open>Signature::recovery_id\<close>) and Keccak come from other crates and are parameters.
\<close>

section \<open>Data\<close>

record Signature =
  sig_r :: U256
  sig_s :: U256
  sig_v :: u64

definition IMPERSONATED_SIGNATURE :: Signature where
  "IMPERSONATED_SIGNATURE = \<lparr>sig_r = 0, sig_s = 0, sig_v = 0\<rparr>"

datatype TransactionKind = Call Address | Create

fun as_call :: "TransactionKind \<Rightarrow> Address option" where
  "as_call (Call to) = Some to"
| "as_call Create = None"

text \<open>An access list item is an address and its storage keys.\<close>

type_synonym AccessListItem = "Address \<times> H256 list"
type_synonym AccessList = "AccessListItem list"

record LegacyTransactionRequest =
  lr_nonce :: U256
  lr_gas_price :: U256
  lr_gas_limit :: U256
  lr_kind :: TransactionKind
  lr_value :: U256
  lr_input :: bytes
  lr_chain_id :: "u64 option"

record EIP2930TransactionRequest =
  ar_chain_id :: u64
  ar_nonce :: U256
  ar_gas_price :: U256
  ar_gas_limit :: U256
  ar_kind :: TransactionKind
  ar_value :: U256
  ar_input :: bytes
  ar_access_list :: AccessList

record EIP1559TransactionRequest =
  dr_chain_id :: u64
  dr_nonce :: U256
  dr_max_priority_fee_per_gas :: U256
  dr_max_fee_per_gas :: U256
  dr_gas_limit :: U256
  dr_kind :: TransactionKind
  dr_value :: U256
  dr_input :: bytes
  dr_access_list :: AccessList

datatype TypedTransactionRequest =
    ReqLegacy LegacyTransactionRequest
  | ReqEIP2930 EIP2930TransactionRequest
  | ReqEIP1559 EIP1559TransactionRequest

record EthTransactionRequest =
  er_from :: "Address option"
  er_to :: "Address option"
  er_gas_price :: "U256 option"
  er_max_fee_per_gas :: "U256 option"
  er_max_priority_fee_per_gas :: "U256 option"
  er_gas :: "U256 option"
  er_value :: "U256 option"
  er_data :: "bytes option"
  er_nonce :: "U256 option"
  er_chain_id :: "u64 option"
  er_access_list :: "AccessList option"
  er_transaction_type :: "U256 option"

record LegacyTransaction =
  lt_nonce :: U256
  lt_gas_price :: U256
  lt_gas_limit :: U256
  lt_kind :: TransactionKind
  lt_value :: U256
  lt_input :: bytes
  lt_signature :: Signature

record EIP2930Transaction =
  at_chain_id :: u64
  at_nonce :: U256
  at_gas_price :: U256
  at_gas_limit :: U256
  at_kind :: TransactionKind
  at_value :: U256
  at_input :: bytes
  at_access_list :: AccessList
  at_odd_y_parity :: bool
  at_r :: H256
  at_s :: H256

record EIP1559Transaction =
  dt_chain_id :: u64
  dt_nonce :: U256
  dt_max_priority_fee_per_gas :: U256
  dt_max_fee_per_gas :: U256
  dt_gas_limit :: U256
  dt_kind :: TransactionKind
  dt_value :: U256
  dt_input :: bytes
  dt_access_list :: AccessList
  dt_odd_y_parity :: bool
  dt_r :: H256
  dt_s :: H256

datatype TypedTransaction =
    Legacy LegacyTransaction
  | EIP2930 EIP2930Transaction
  | EIP1559 EIP1559Transaction

section \<open>Requests\<close>

definition unwrap_or :: "'a option \<Rightarrow> 'a \<Rightarrow> 'a" where
  "unwrap_or x d = (case x of Some v \<Rightarrow> v | None \<Rightarrow> d)"

lemma unwrap_or_simps [simp]:
  "unwrap_or (Some v) d = v" "unwrap_or None d = d"
  by (simp_all add: unwrap_or_def)

fun kind_of_to :: "Address option \<Rightarrow> TransactionKind" where
  "kind_of_to (Some to) = Call to"
| "kind_of_to None = Create"

text \<open>
  \<open>EthTransactionRequest::into_typed_request\<close>.  The outer option is the panic of
  \<open>transaction_type.as_u64()\<close>, the inner one the function's own result.  The scrutinee takes the
  access list out of the local variable (\<open>access_list.take()\<close>), so that the arms, which read that
  variable again, see \<open>None\<close>: \<open>rest\<close> is that variable after the take.
\<close>

definition into_typed_request :: "EthTransactionRequest \<Rightarrow> TypedTransactionRequest option option" where
  "into_typed_request req =
     (case (case er_transaction_type req of None \<Rightarrow> Some None
            | Some t \<Rightarrow> map_option Some (as_u64 t)) of
        None \<Rightarrow> None
      | Some ty \<Rightarrow>
         (let gp = er_gas_price req; mf = er_max_fee_per_gas req;
              mp = er_max_priority_fee_per_gas req; taken = er_access_list req;
              rest = None :: AccessList option;
              nonce = unwrap_or (er_nonce req) 0; gas = unwrap_or (er_gas req) 0;
              val = unwrap_or (er_value req) 0; input = unwrap_or (er_data req) [];
              kind = kind_of_to (er_to req)
          in Some (
            if (ty = Some 0 \<and> mf = None \<and> mp = None \<and> taken = None) \<or>
               (ty = None \<and> gp \<noteq> None \<and> mf = None \<and> mp = None \<and> taken = None) then
              Some (ReqLegacy \<lparr>lr_nonce = nonce, lr_gas_price = unwrap_or gp 0, lr_gas_limit = gas,
                lr_kind = kind, lr_value = val, lr_input = input, lr_chain_id = er_chain_id req\<rparr>)
            else if (ty = Some 1 \<and> mf = None \<and> mp = None) \<or>
               (ty = None \<and> mf = None \<and> mp = None \<and> taken \<noteq> None) then
              Some (ReqEIP2930 \<lparr>ar_chain_id = unwrap_or (er_chain_id req) 0, ar_nonce = nonce,
                ar_gas_price = unwrap_or gp 0, ar_gas_limit = gas, ar_kind = kind, ar_value = val,
                ar_input = input, ar_access_list = unwrap_or rest []\<rparr>)
            else if (ty = Some 2 \<and> gp = None) \<or>
               (ty = None \<and> gp = None \<and> mf \<noteq> None) \<or>
               (ty = None \<and> gp = None \<and> mp \<noteq> None) \<or>
               (ty = None \<and> gp = None \<and> mf = None \<and> mp = None \<and> taken = None) then
              Some (ReqEIP1559 \<lparr>dr_chain_id = unwrap_or (er_chain_id req) 0, dr_nonce = nonce,
                dr_max_priority_fee_per_gas = unwrap_or mp 0, dr_max_fee_per_gas = unwrap_or mf 0,
                dr_gas_limit = gas, dr_kind = kind, dr_value = val, dr_input = input,
                dr_access_list = unwrap_or rest []\<rparr>)
            else None)))"

section \<open>Signed transactions\<close>

text \<open>\<open>LegacyTransaction::chain_id\<close> and \<open>meets_eip155\<close>; the latter's additions can overflow.\<close>

definition legacy_chain_id :: "LegacyTransaction \<Rightarrow> u64 option" where
  "legacy_chain_id tx =
     (let v = sig_v (lt_signature tx) in if v > 36 then Some ((v - 35) div 2) else None)"

definition meets_eip155 :: "LegacyTransaction \<Rightarrow> u64 \<Rightarrow> bool option" where
  "meets_eip155 tx chain_id =
     (let double_chain_id = saturating_mul chain_id 2; v = sig_v (lt_signature tx) in do {
        a \<leftarrow> add_chk double_chain_id 35;
        if v = a then Some True
        else do {
          b \<leftarrow> add_chk double_chain_id 36;
          Some (v = b)
        }
      })"

text \<open>The request a signed transaction was made from (the \<open>From\<close> impls).\<close>

definition legacy_request :: "LegacyTransaction \<Rightarrow> LegacyTransactionRequest" where
  "legacy_request tx = \<lparr>lr_nonce = lt_nonce tx, lr_gas_price = lt_gas_price tx,
     lr_gas_limit = lt_gas_limit tx, lr_kind = lt_kind tx, lr_value = lt_value tx,
     lr_input = lt_input tx, lr_chain_id = legacy_chain_id tx\<rparr>"

definition eip2930_request :: "EIP2930Transaction \<Rightarrow> EIP2930TransactionRequest" where
  "eip2930_request tx = \<lparr>ar_chain_id = at_chain_id tx, ar_nonce = at_nonce tx,
     ar_gas_price = at_gas_price tx, ar_gas_limit = at_gas_limit tx, ar_kind = at_kind tx,
     ar_value = at_value tx, ar_input = at_input tx, ar_access_list = at_access_list tx\<rparr>"

definition eip1559_request :: "EIP1559Transaction \<Rightarrow> EIP1559TransactionRequest" where
  "eip1559_request t = \<lparr>dr_chain_id = dt_chain_id t, dr_nonce = dt_nonce t,
     dr_max_priority_fee_per_gas = dt_max_priority_fee_per_gas t,
     dr_max_fee_per_gas = dt_max_fee_per_gas t, dr_gas_limit = dt_gas_limit t,
     dr_kind = dt_kind t, dr_value = dt_value t, dr_input = dt_input t,
     dr_access_list = dt_access_list t\<rparr>"

fun tx_gas_price :: "TypedTransaction \<Rightarrow> U256" where
  "tx_gas_price (Legacy tx) = lt_gas_price tx"
| "tx_gas_price (EIP2930 tx) = at_gas_price tx"
| "tx_gas_price (EIP1559 tx) = dt_max_fee_per_gas tx"

fun tx_gas_limit :: "TypedTransaction \<Rightarrow> U256" where
  "tx_gas_limit (Legacy tx) = lt_gas_limit tx"
| "tx_gas_limit (EIP2930 tx) = at_gas_limit tx"
| "tx_gas_limit (EIP1559 tx) = dt_gas_limit tx"

fun tx_value :: "TypedTransaction \<Rightarrow> U256" where
  "tx_value (Legacy tx) = lt_value tx"
| "tx_value (EIP2930 tx) = at_value tx"
| "tx_value (EIP1559 tx) = dt_value tx"

fun tx_data :: "TypedTransaction \<Rightarrow> bytes" where
  "tx_data (Legacy tx) = lt_input tx"
| "tx_data (EIP2930 tx) = at_input tx"
| "tx_data (EIP1559 tx) = dt_input tx"

fun tx_type :: "TypedTransaction \<Rightarrow> u8 option" where
  "tx_type (Legacy _) = None"
| "tx_type (EIP2930 _) = Some 1"
| "tx_type (EIP1559 _) = Some 2"

definition tx_max_cost :: "TypedTransaction \<Rightarrow> U256" where
  "tx_max_cost tx = saturating_mul (tx_gas_limit tx) (tx_gas_price tx)"

fun tx_nonce :: "TypedTransaction \<Rightarrow> U256" where
  "tx_nonce (Legacy t) = lt_nonce t"
| "tx_nonce (EIP2930 t) = at_nonce t"
| "tx_nonce (EIP1559 t) = dt_nonce t"

fun tx_chain_id :: "TypedTransaction \<Rightarrow> u64 option" where
  "tx_chain_id (Legacy t) = legacy_chain_id t"
| "tx_chain_id (EIP2930 t) = Some (at_chain_id t)"
| "tx_chain_id (EIP1559 t) = Some (dt_chain_id t)"

fun tx_kind :: "TypedTransaction \<Rightarrow> TransactionKind" where
  "tx_kind (Legacy tx) = lt_kind tx"
| "tx_kind (EIP2930 tx) = at_kind tx"
| "tx_kind (EIP1559 tx) = dt_kind tx"

definition tx_to :: "TypedTransaction \<Rightarrow> Address option" where
  "tx_to tx = as_call (tx_kind tx)"

fun tx_signature :: "TypedTransaction \<Rightarrow> Signature" where
  "tx_signature (Legacy tx) = lt_signature tx"
| "tx_signature (EIP2930 tx) =
     \<lparr>sig_r = at_r tx, sig_s = at_s tx, sig_v = (if at_odd_y_parity tx then 1 else 0)\<rparr>"
| "tx_signature (EIP1559 tx) =
     \<lparr>sig_r = dt_r tx, sig_s = dt_s tx, sig_v = (if dt_odd_y_parity tx then 1 else 0)\<rparr>"

definition is_impersonated_tx :: "TypedTransaction \<Rightarrow> bool" where
  "is_impersonated_tx tx \<longleftrightarrow> tx_signature tx = IMPERSONATED_SIGNATURE"

record TransactionEssentials =
  es_kind :: TransactionKind
  es_input :: bytes
  es_nonce :: U256
  es_gas_limit :: U256
  es_gas_price :: "U256 option"
  es_max_fee_per_gas :: "U256 option"
  es_max_priority_fee_per_gas :: "U256 option"
  es_value :: U256
  es_chain_id :: "u64 option"
  es_access_list :: AccessList

fun essentials :: "TypedTransaction \<Rightarrow> TransactionEssentials" where
  "essentials (Legacy t) = \<lparr>es_kind = lt_kind t, es_input = lt_input t, es_nonce = lt_nonce t,
     es_gas_limit = lt_gas_limit t, es_gas_price = Some (lt_gas_price t),
     es_max_fee_per_gas = None, es_max_priority_fee_per_gas = None, es_value = lt_value t,
     es_chain_id = legacy_chain_id t, es_access_list = []\<rparr>"
| "essentials (EIP2930 t) = \<lparr>es_kind = at_kind t, es_input = at_input t, es_nonce = at_nonce t,
     es_gas_limit = at_gas_limit t, es_gas_price = Some (at_gas_price t),
     es_max_fee_per_gas = None, es_max_priority_fee_per_gas = None, es_value = at_value t,
     es_chain_id = Some (at_chain_id t), es_access_list = at_access_list t\<rparr>"
| "essentials (EIP1559 t) = \<lparr>es_kind = dt_kind t, es_input = dt_input t, es_nonce = dt_nonce t,
     es_gas_limit = dt_gas_limit t, es_gas_price = None,
     es_max_fee_per_gas = Some (dt_max_fee_per_gas t),
     es_max_priority_fee_per_gas = Some (dt_max_priority_fee_per_gas t), es_value = dt_value t,
     es_chain_id = Some (dt_chain_id t), es_access_list = dt_access_list t\<rparr>"

text \<open>
  \<open>sign::build_typed_transaction\<close>; \<open>recovery_id\<close> is the signature library's.  The 32 bytes of
  \<open>r\<close> and \<open>s\<close> are kept as the words they encode.
\<close>

fun build_typed_transaction ::
  "(Signature \<Rightarrow> (u8, 'e) result) \<Rightarrow> TypedTransactionRequest \<Rightarrow> Signature \<Rightarrow> (TypedTransaction, 'e) result"
where
  "build_typed_transaction recovery_id (ReqLegacy tx) signature =
     Ok (Legacy \<lparr>lt_nonce = lr_nonce tx, lt_gas_price = lr_gas_price tx,
       lt_gas_limit = lr_gas_limit tx, lt_kind = lr_kind tx, lt_value = lr_value tx,
       lt_input = lr_input tx, lt_signature = signature\<rparr>)"
| "build_typed_transaction recovery_id (ReqEIP2930 tx) signature =
     (case recovery_id signature of Err e \<Rightarrow> Err e
      | Ok recid \<Rightarrow> Ok (EIP2930 \<lparr>at_chain_id = ar_chain_id tx, at_nonce = ar_nonce tx,
          at_gas_price = ar_gas_price tx, at_gas_limit = ar_gas_limit tx, at_kind = ar_kind tx,
          at_value = ar_value tx, at_input = ar_input tx, at_access_list = ar_access_list tx,
          at_odd_y_parity = (recid \<noteq> 0), at_r = sig_r signature, at_s = sig_s signature\<rparr>))"
| "build_typed_transaction recovery_id (ReqEIP1559 tx) signature =
     (case recovery_id signature of Err e \<Rightarrow> Err e
      | Ok recid \<Rightarrow> Ok (EIP1559 \<lparr>dt_chain_id = dr_chain_id tx, dt_nonce = dr_nonce tx,
          dt_max_priority_fee_per_gas = dr_max_priority_fee_per_gas tx,
          dt_max_fee_per_gas = dr_max_fee_per_gas tx, dt_gas_limit = dr_gas_limit tx,
          dt_kind = dr_kind tx, dt_value = dr_value tx, dt_input = dr_input tx,
          dt_access_list = dr_access_list tx,
          dt_odd_y_parity = (recid \<noteq> 0), dt_r = sig_r signature, dt_s = sig_s signature\<rparr>))"

section \<open>Queued transactions\<close>

record MaybeImpersonatedTransaction =
  mi_transaction :: TypedTransaction
  mi_impersonated_sender :: "Address option"

record PendingTransaction =
  pd_transaction :: MaybeImpersonatedTransaction
  pd_sender :: Address
  pd_hash :: H256

datatype TransactTo = TransactCall Address | TransactCreate

record TxEnv =
  te_caller :: Address
  te_gas_limit :: u64
  te_gas_price :: U256
  te_gas_priority_fee :: "U256 option"
  te_transact_to :: TransactTo
  te_value :: U256
  te_data :: bytes
  te_chain_id :: "u64 option"
  te_nonce :: "u64 option"
  te_access_list :: AccessList

fun transact_to :: "TransactionKind \<Rightarrow> TransactTo" where
  "transact_to (Call c) = TransactCall c"
| "transact_to Create = TransactCreate"

text \<open>\<open>PendingTransaction::to_revm_tx_env\<close>: \<open>None\<close> is the panic of \<open>as_u64\<close>.\<close>

definition to_revm_tx_env :: "PendingTransaction \<Rightarrow> TxEnv option" where
  "to_revm_tx_env p =
     (case mi_transaction (pd_transaction p) of
        Legacy tx \<Rightarrow> do {
          n \<leftarrow> as_u64 (lt_nonce tx);
          g \<leftarrow> as_u64 (lt_gas_limit tx);
          Some \<lparr>te_caller = pd_sender p, te_gas_limit = g, te_gas_price = lt_gas_price tx,
            te_gas_priority_fee = None, te_transact_to = transact_to (lt_kind tx),
            te_value = lt_value tx, te_data = lt_input tx, te_chain_id = legacy_chain_id tx,
            te_nonce = Some n, te_access_list = []\<rparr>
        }
      | EIP2930 tx \<Rightarrow> do {
          n \<leftarrow> as_u64 (at_nonce tx);
          g \<leftarrow> as_u64 (at_gas_limit tx);
          Some \<lparr>te_caller = pd_sender p, te_gas_limit = g, te_gas_price = at_gas_price tx,
            te_gas_priority_fee = None, te_transact_to = transact_to (at_kind tx),
            te_value = at_value tx, te_data = at_input tx, te_chain_id = Some (at_chain_id tx),
            te_nonce = Some n, te_access_list = at_access_list tx\<rparr>
        }
      | EIP1559 tx \<Rightarrow> do {
          n \<leftarrow> as_u64 (dt_nonce tx);
          g \<leftarrow> as_u64 (dt_gas_limit tx);
          Some \<lparr>te_caller = pd_sender p, te_gas_limit = g, te_gas_price = dt_max_fee_per_gas tx,
            te_gas_priority_fee = Some (dt_max_priority_fee_per_gas tx),
            te_transact_to = transact_to (dt_kind tx), te_value = dt_value tx,
            te_data = dt_input tx, te_chain_id = Some (dt_chain_id tx), te_nonce = Some n,
            te_access_list = dt_access_list tx\<rparr>
        })"

section \<open>Properties\<close>

text \<open>
  Signing keeps the request.  The request that a signed transaction stands for is the one that was
  signed; for a legacy request the chain id is the one encoded in the signature.
\<close>

theorem signed_request:
  assumes "build_typed_transaction recovery_id req signature = Ok tx"
  shows "case req of
      ReqLegacy r \<Rightarrow> \<exists>t. tx = Legacy t \<and>
        legacy_request t = r\<lparr>lr_chain_id := legacy_chain_id t\<rparr> \<and> lt_signature t = signature
    | ReqEIP2930 r \<Rightarrow> \<exists>t. tx = EIP2930 t \<and> eip2930_request t = r \<and>
        sig_r (tx_signature tx) = sig_r signature \<and> sig_s (tx_signature tx) = sig_s signature
    | ReqEIP1559 r \<Rightarrow> \<exists>t. tx = EIP1559 t \<and> eip1559_request t = r \<and>
        sig_r (tx_signature tx) = sig_r signature \<and> sig_s (tx_signature tx) = sig_s signature"
  using assms
  by (cases req)
    (auto simp: legacy_request_def eip2930_request_def eip1559_request_def split: result.splits)

theorem signed_request_witness:
  "\<exists>t. build_typed_transaction (\<lambda>_. Ok 1 :: (u8, nat) result)
       (ReqEIP2930 \<lparr>ar_chain_id = 1, ar_nonce = 2, ar_gas_price = 3, ar_gas_limit = 4, ar_kind = Create,
          ar_value = 5, ar_input = [6], ar_access_list = [(7, [8])]\<rparr>)
       \<lparr>sig_r = 1, sig_s = 2, sig_v = 27\<rparr> = Ok (EIP2930 t) \<and> ar_access_list (eip2930_request t) = [(7, [8])]"
  using signed_request [of "\<lambda>_. Ok 1 :: (u8, nat) result"
       "ReqEIP2930 \<lparr>ar_chain_id = 1, ar_nonce = 2, ar_gas_price = 3, ar_gas_limit = 4, ar_kind = Create,
          ar_value = 5, ar_input = [6], ar_access_list = [(7, [8])]\<rparr>" "\<lparr>sig_r = 1, sig_s = 2, sig_v = 27\<rparr>"]
  by simp

text \<open>
  EIP-155.  For a chain id from 1 up to the largest for which the arithmetic does not overflow, a
  legacy signature whose \<open>v\<close> is \<open>2 * chain_id + 35\<close> or \<open>+ 36\<close> meets EIP-155 for that chain
  and the transaction reports that chain id.
\<close>

theorem eip155_chain_id:
  assumes "0 < unat c" "2 * unat c + 36 < 2 ^ 64" "parity \<le> 1"
    "unat (sig_v (lt_signature t)) = 2 * unat c + 35 + parity"
  shows "meets_eip155 t c = Some True \<and> legacy_chain_id t = Some c"
proof -
  let ?v = "sig_v (lt_signature t)"
  have two: "unat (2 :: u64) = 2" "unat (35 :: u64) = 35" "unat (36 :: u64) = 36" by simp_all
  have d: "unat (saturating_mul c 2) = 2 * unat c"
    using assms(2) by (simp add: unat_saturating_mul)
  obtain a b where a: "add_chk (saturating_mul c 2) 35 = Some a" and b: "add_chk (saturating_mul c 2) 36 = Some b"
    using assms(2) d by (simp add: add_chk_def)
  have ab: "unat a = 2 * unat c + 35" "unat b = 2 * unat c + 36"
    using unat_add_chk [OF a] unat_add_chk [OF b] d by simp_all
  have meets: "?v = a \<or> ?v = b"
    using ab assms(3,4) by (auto simp: word_unat_eq_iff)
  have gt: "36 < ?v" using assms(1,4) by (simp add: word_less_nat_alt)
  then have "35 \<le> ?v" by (simp add: word_less_nat_alt word_le_nat_alt)
  then have "unat ((?v - 35) div 2) = (2 * unat c + parity) div 2"
    using assms(4) by (simp add: unat_div unat_sub)
  also have "\<dots> = unat c" using assms(3) by presburger
  finally have "(?v - 35) div 2 = c" by (simp add: word_unat_eq_iff)
  with gt meets a b show ?thesis by (auto simp: legacy_chain_id_def meets_eip155_def Let_def)
qed

theorem eip155_chain_id_witness:
  "meets_eip155 \<lparr>lt_nonce = 0, lt_gas_price = 0, lt_gas_limit = 0, lt_kind = Create, lt_value = 0,
      lt_input = [], lt_signature = \<lparr>sig_r = 0, sig_s = 0, sig_v = 38\<rparr>\<rparr> 1 = Some True"
  using eip155_chain_id [of 1 1 "\<lparr>lt_nonce = 0, lt_gas_price = 0, lt_gas_limit = 0, lt_kind = Create,
      lt_value = 0, lt_input = [], lt_signature = \<lparr>sig_r = 0, sig_s = 0, sig_v = 38\<rparr>\<rparr>"]
  by simp

fun request_kind :: "TypedTransactionRequest \<Rightarrow> nat" where
  "request_kind (ReqLegacy _) = 0"
| "request_kind (ReqEIP2930 _) = 1"
| "request_kind (ReqEIP1559 _) = 2"

fun request_access_list :: "TypedTransactionRequest \<Rightarrow> AccessList" where
  "request_access_list (ReqLegacy _) = []"
| "request_access_list (ReqEIP2930 r) = ar_access_list r"
| "request_access_list (ReqEIP1559 r) = dr_access_list r"

text \<open>
  The kind of a typed request.  Without an explicit type a request is an error exactly when it has
  a gas price together with a fee-market field; otherwise fee-market fields give EIP-1559, an access
  list EIP-2930, a gas price a legacy request, and none of them EIP-1559.  With an explicit type that
  fits 64 bits the result, if any, has that type.
\<close>

theorem typed_request_kind:
  "(er_transaction_type req = None \<longrightarrow>
     (let gp = er_gas_price req; fees = er_max_fee_per_gas req \<noteq> None \<or> er_max_priority_fee_per_gas req \<noteq> None
      in map_option (map_option request_kind) (into_typed_request req) =
           Some (if fees then if gp = None then Some 2 else None
                 else if er_access_list req \<noteq> None then Some 1
                 else if gp \<noteq> None then Some 0 else Some 2))) \<and>
   (\<forall>t r. er_transaction_type req = Some t \<longrightarrow> into_typed_request req = Some (Some r) \<longrightarrow>
      request_kind r = unat t)"
proof -
  have "request_kind r = unat t"
    if t: "er_transaction_type req = Some t" and r: "into_typed_request req = Some (Some r)" for t r
  proof (cases "as_u64 t")
    case None
    with t r show ?thesis by (simp add: into_typed_request_def)
  next
    case (Some n)
    from r [unfolded into_typed_request_def] t Some have "request_kind r = unat n"
      by (simp only: Let_def option.case option.map option.inject option.distinct simp_thms split: if_split_asm) auto
    with Some show ?thesis by (simp add: as_u64_Some)
  qed
  moreover have "er_transaction_type req = None \<longrightarrow>
     (let gp = er_gas_price req; fees = er_max_fee_per_gas req \<noteq> None \<or> er_max_priority_fee_per_gas req \<noteq> None
      in map_option (map_option request_kind) (into_typed_request req) =
           Some (if fees then if gp = None then Some 2 else None
                 else if er_access_list req \<noteq> None then Some 1
                 else if gp \<noteq> None then Some 0 else Some 2))"
    by (cases "er_gas_price req"; cases "er_max_fee_per_gas req"; cases "er_max_priority_fee_per_gas req";
        cases "er_access_list req") (simp_all add: into_typed_request_def Let_def)
  ultimately show ?thesis by blast
qed

definition ex_request :: EthTransactionRequest where
  "ex_request = \<lparr>er_from = None, er_to = None, er_gas_price = Some 1, er_max_fee_per_gas = None,
     er_max_priority_fee_per_gas = None, er_gas = None, er_value = None, er_data = None, er_nonce = None,
     er_chain_id = None, er_access_list = Some [(1, [2])], er_transaction_type = None\<rparr>"

theorem typed_request_kind_witness:
  "map_option (map_option request_kind) (into_typed_request ex_request) = Some (Some 1)"
  using typed_request_kind [of ex_request] by (simp add: ex_request_def)

text \<open>
  C32: the access list of a request is lost.  Whatever access list a request carries, the typed request
  made from it has an empty one, because the match takes the list out of the variable that the arms
  read.
\<close>

theorem access_list_is_lost:
  assumes "into_typed_request req = Some (Some r)"
  shows "request_access_list r = []"
  using assms unfolding into_typed_request_def
  by (cases "er_transaction_type req"; cases "as_u64 (the (er_transaction_type req))")
    (simp_all add: Let_def split: if_split_asm, auto)

theorem access_list_is_lost_witness:
  "er_access_list ex_request = Some [(1, [2])] \<and>
   (\<exists>r. into_typed_request ex_request = Some (Some r) \<and> request_access_list r = [])"
  using access_list_is_lost [of ex_request] by (simp add: ex_request_def into_typed_request_def Let_def)

end
