(* ===== verification/PoolPending.thy ===== *)
theory PoolPending
  imports Transaction
begin

text \<open>
  The first half of \<open>anvil/src/eth/pool/transactions.rs\<close>: pool transactions and their markers,
  and \<open>PendingTransactions\<close>, the queue of transactions that wait for markers which no ready
  transaction provides yet.  \<open>wf_pending\<close> is the queue's invariant; every operation keeps it, and
  under it no \<open>expect\<close> or \<open>assert\<close> of the operations fires.
\<close>

section \<open>Markers and pool transactions\<close>

type_synonym TxMarker = bytes
type_synonym TxHash = H256

definition to_marker :: "u64 \<Rightarrow> Address \<Rightarrow> TxMarker" where
  "to_marker nonce from = le_bytes 8 nonce @ rev (le_bytes 20 from)"

definition of_marker :: "TxMarker \<Rightarrow> (u64 \<times> Address) option" where
  "of_marker m = (if length m = 28
     then Some (of_nat (le_nat (take 8 m)), of_nat (le_nat (rev (drop 8 m)))) else None)"

text \<open>\<open>api::required_marker\<close>: \<open>None\<close> is the panic of \<open>as_u64\<close>.\<close>

definition required_marker :: "U256 \<Rightarrow> U256 \<Rightarrow> Address \<Rightarrow> TxMarker list option" where
  "required_marker provided_nonce on_chain_nonce from =
     (if provided_nonce = on_chain_nonce then Some []
      else let prev_nonce = saturating_sub provided_nonce 1 in
        if on_chain_nonce \<le> prev_nonce
        then map_option (\<lambda>n. [to_marker n from]) (as_u64 prev_nonce)
        else Some [])"

datatype TransactionOrder = Fifo | Fees

fun tx_priority :: "TransactionOrder \<Rightarrow> TypedTransaction \<Rightarrow> U256" where
  "tx_priority Fifo tx = 0"
| "tx_priority Fees tx = tx_gas_price tx"

record PoolTransaction =
  pt_pending_transaction :: PendingTransaction
  pt_requires :: "TxMarker list"
  pt_provides :: "TxMarker list"
  pt_priority :: U256

definition pt_hash :: "PoolTransaction \<Rightarrow> TxHash" where
  "pt_hash tx = pd_hash (pt_pending_transaction tx)"

definition pt_gas_price :: "PoolTransaction \<Rightarrow> U256" where
  "pt_gas_price tx = tx_gas_price (mi_transaction (pd_transaction (pt_pending_transaction tx)))"

datatype PoolError =
    CyclicTransaction
  | ReplacementUnderpriced PoolTransaction
  | AlreadyImported PoolTransaction

record PendingPoolTransaction =
  pp_transaction :: PoolTransaction
  pp_missing_markers :: "TxMarker set"
  pp_added_at :: nat

abbreviation pp_hash :: "PendingPoolTransaction \<Rightarrow> TxHash" where
  "pp_hash tx \<equiv> pt_hash (pp_transaction tx)"

definition pp_new :: "PoolTransaction \<Rightarrow> (TxMarker, TxHash) fmap \<Rightarrow> nat \<Rightarrow> PendingPoolTransaction" where
  "pp_new tx provided now =
     \<lparr>pp_transaction = tx,
      pp_missing_markers = set (filter (\<lambda>m. m |\<notin>| fmdom provided) (pt_requires tx)),
      pp_added_at = now\<rparr>"

definition pp_mark :: "TxMarker \<Rightarrow> PendingPoolTransaction \<Rightarrow> PendingPoolTransaction" where
  "pp_mark m tx = tx\<lparr>pp_missing_markers := pp_missing_markers tx - {m}\<rparr>"

definition pp_is_ready :: "PendingPoolTransaction \<Rightarrow> bool" where
  "pp_is_ready tx \<longleftrightarrow> pp_missing_markers tx = {}"

section \<open>The waiting queue\<close>

record PendingTransactions =
  required_markers :: "(TxMarker, TxHash set) fmap"
  waiting_markers :: "(TxMarker list, TxHash) fmap"
  waiting_queue :: "(TxHash, PendingPoolTransaction) fmap"

text \<open>The iteration orders of the two kinds of hash sets the pool iterates over.\<close>

record hasher =
  marker_iter :: "TxMarker set \<Rightarrow> TxMarker list"
  hash_iter :: "TxHash set \<Rightarrow> TxHash list"

definition hasher_ok :: "hasher \<Rightarrow> bool" where
  "hasher_ok hs \<longleftrightarrow> iter_order (marker_iter hs) \<and> iter_order (hash_iter hs)"

definition pend_empty :: PendingTransactions where
  "pend_empty = \<lparr>required_markers = fmempty, waiting_markers = fmempty, waiting_queue = fmempty\<rparr>"

definition pend_len :: "PendingTransactions \<Rightarrow> nat" where
  "pend_len p = card (fmdom' (waiting_queue p))"

definition pend_contains :: "TxHash \<Rightarrow> PendingTransactions \<Rightarrow> bool" where
  "pend_contains h p \<longleftrightarrow> h |\<in>| fmdom (waiting_queue p)"

definition pend_get :: "TxHash \<Rightarrow> PendingTransactions \<Rightarrow> PendingPoolTransaction option" where
  "pend_get h p = fmlookup (waiting_queue p) h"

text \<open>\<open>required_markers.entry(marker).or_default().insert(hash)\<close>\<close>

definition add_required :: "TxHash \<Rightarrow> TxMarker \<Rightarrow> (TxMarker, TxHash set) fmap \<Rightarrow> (TxMarker, TxHash set) fmap" where
  "add_required h m req =
     fmupd m (insert h (case fmlookup req m of Some S \<Rightarrow> S | None \<Rightarrow> {})) req"

text \<open>
  \<open>PendingTransactions::add_transaction\<close>; the outer \<open>None\<close> is the panic of the two asserts.
\<close>

definition pend_add :: "hasher \<Rightarrow> PendingPoolTransaction \<Rightarrow> PendingTransactions \<Rightarrow>
    ((unit, PoolError) result \<times> PendingTransactions) option" where
  "pend_add hs tx p =
     (if pp_is_ready tx then None
      else if pp_hash tx |\<in>| fmdom (waiting_queue p) then None
      else
        (let underpriced =
           (case Option.bind (fmlookup (waiting_markers p) (pt_provides (pp_transaction tx)))
                (fmlookup (waiting_queue p)) of
              Some replace \<Rightarrow>
                pt_gas_price (pp_transaction tx) < pt_gas_price (pp_transaction replace)
            | None \<Rightarrow> False)
         in if underpriced then Some (Err (ReplacementUnderpriced (pp_transaction tx)), p)
            else Some (Ok (),
              \<lparr>required_markers =
                 fold (add_required (pp_hash tx)) (marker_iter hs (pp_missing_markers tx))
                   (required_markers p),
               waiting_markers =
                 fmupd (pt_provides (pp_transaction tx)) (pp_hash tx) (waiting_markers p),
               waiting_queue = fmupd (pp_hash tx) tx (waiting_queue p)\<rparr>)))"

text \<open>
  \<open>PendingTransactions::mark_and_unlock\<close>: the inner loop over the hashes that wait for one marker
  (\<open>None\<close> is the panic of the \<open>expect\<close>), then the outer one over the markers.
\<close>

fun unlock_hashes :: "TxMarker \<Rightarrow> TxHash list \<Rightarrow> PendingPoolTransaction list \<Rightarrow> PendingTransactions \<Rightarrow>
    (PendingPoolTransaction list \<times> PendingTransactions) option" where
  "unlock_hashes mark [] unlocked p = Some (unlocked, p)"
| "unlock_hashes mark (h # hs) unlocked p =
     (case fmlookup (waiting_queue p) h of
        None \<Rightarrow> None
      | Some tx \<Rightarrow>
          (let tx' = pp_mark mark tx in
           if pp_is_ready tx' then
             unlock_hashes mark hs (unlocked @ [tx'])
               (p\<lparr>waiting_queue := fmdrop h (waiting_queue p),
                  waiting_markers :=
                    fmdrop (pt_provides (pp_transaction tx')) (waiting_markers p)\<rparr>)
           else
             unlock_hashes mark hs unlocked
               (p\<lparr>waiting_queue := fmupd h tx' (waiting_queue p)\<rparr>)))"

fun mark_and_unlock_from :: "hasher \<Rightarrow> TxMarker list \<Rightarrow> PendingPoolTransaction list \<Rightarrow>
    PendingTransactions \<Rightarrow> (PendingPoolTransaction list \<times> PendingTransactions) option" where
  "mark_and_unlock_from hs [] unlocked p = Some (unlocked, p)"
| "mark_and_unlock_from hs (m # ms) unlocked p =
     (case fmlookup (required_markers p) m of
        None \<Rightarrow> mark_and_unlock_from hs ms unlocked p
      | Some tx_hashes \<Rightarrow>
          (case unlock_hashes m (hash_iter hs tx_hashes) unlocked
                 (p\<lparr>required_markers := fmdrop m (required_markers p)\<rparr>) of
             None \<Rightarrow> None
           | Some (unlocked', p') \<Rightarrow> mark_and_unlock_from hs ms unlocked' p'))"

definition mark_and_unlock :: "hasher \<Rightarrow> TxMarker list \<Rightarrow> PendingTransactions \<Rightarrow>
    (PendingPoolTransaction list \<times> PendingTransactions) option" where
  "mark_and_unlock hs markers p = mark_and_unlock_from hs markers [] p"

text \<open>\<open>PendingTransactions::remove\<close>\<close>

definition drop_required :: "TxHash \<Rightarrow> TxMarker \<Rightarrow> (TxMarker, TxHash set) fmap \<Rightarrow> (TxMarker, TxHash set) fmap" where
  "drop_required h m req =
     (case fmlookup req m of
        None \<Rightarrow> req
      | Some S \<Rightarrow> (let S' = S - {h} in if S' = {} then fmdrop m req else fmupd m S' req))"

fun pend_remove :: "hasher \<Rightarrow> TxHash list \<Rightarrow> PendingTransactions \<Rightarrow> PoolTransaction list \<times> PendingTransactions" where
  "pend_remove hs [] p = ([], p)"
| "pend_remove hs (h # hashes) p =
     (case fmlookup (waiting_queue p) h of
        None \<Rightarrow> pend_remove hs hashes p
      | Some w \<Rightarrow>
          (let (removed, p') = pend_remove hs hashes
             \<lparr>required_markers =
                fold (drop_required h) (marker_iter hs (pp_missing_markers w)) (required_markers p),
              waiting_markers = fmdrop (pt_provides (pp_transaction w)) (waiting_markers p),
              waiting_queue = fmdrop h (waiting_queue p)\<rparr>
           in (pp_transaction w # removed, p')))"

section \<open>The invariant\<close>

definition waits_for :: "PendingTransactions \<Rightarrow> TxMarker \<Rightarrow> TxHash set" where
  "waits_for p m = (case fmlookup (required_markers p) m of Some S \<Rightarrow> S | None \<Rightarrow> {})"

text \<open>
  \<open>wf_pending\<close>: a queued transaction is stored under its own hash and misses at least one marker;
  the index \<open>required_markers\<close> lists exactly the queued transactions that miss a marker and holds no
  empty set; an entry of \<open>waiting_markers\<close> points to a queued transaction that provides it.
\<close>

definition wf_entry :: "TxHash \<Rightarrow> PendingPoolTransaction \<Rightarrow> bool" where
  "wf_entry h tx \<longleftrightarrow> pp_hash tx = h \<and> pp_missing_markers tx \<noteq> {} \<and> finite (pp_missing_markers tx)"

definition wf_pending :: "PendingTransactions \<Rightarrow> bool" where
  "wf_pending p \<longleftrightarrow>
     (\<forall>h tx. fmlookup (waiting_queue p) h = Some tx \<longrightarrow> wf_entry h tx) \<and>
     (\<forall>m h. h \<in> waits_for p m \<longleftrightarrow>
        (\<exists>tx. fmlookup (waiting_queue p) h = Some tx \<and> m \<in> pp_missing_markers tx)) \<and>
     (\<forall>m. fmlookup (required_markers p) m \<noteq> Some {}) \<and>
     (\<forall>ps h. fmlookup (waiting_markers p) ps = Some h \<longrightarrow>
        (\<exists>tx. fmlookup (waiting_queue p) h = Some tx \<and> pt_provides (pp_transaction tx) = ps))"

lemma wf_pend_empty: "wf_pending pend_empty"
  by (simp add: wf_pending_def pend_empty_def waits_for_def)

lemma wf_pendingD:
  assumes "wf_pending p"
  shows "fmlookup (waiting_queue p) h = Some tx \<Longrightarrow> wf_entry h tx"
    and "h \<in> waits_for p m \<longleftrightarrow>
        (\<exists>tx. fmlookup (waiting_queue p) h = Some tx \<and> m \<in> pp_missing_markers tx)"
    and "fmlookup (required_markers p) m \<noteq> Some {}"
    and "fmlookup (waiting_markers p) ps = Some h \<Longrightarrow>
        \<exists>tx. fmlookup (waiting_queue p) h = Some tx \<and> pt_provides (pp_transaction tx) = ps"
  using assms by (auto simp: wf_pending_def)

subsection \<open>Adding\<close>

lemma lookup_add_required:
  "fmlookup (fold (add_required h) ms req) m =
     (if m \<in> set ms then Some (insert h (case fmlookup req m of Some S \<Rightarrow> S | None \<Rightarrow> {}))
      else fmlookup req m)"
  by (induction ms arbitrary: req) (auto simp: add_required_def)

lemma pend_add_wf:
  assumes hs: "hasher_ok hs" and wf: "wf_pending p" and fin: "finite (pp_missing_markers tx)"
    and add: "pend_add hs tx p = Some (r, p')"
  shows "wf_pending p'"
proof (cases r)
  case (Err e)
  with add wf show ?thesis by (auto simp: pend_add_def Let_def split: if_splits)
next
  case (Ok u)
  let ?h = "pp_hash tx"
  from add Ok have nr: "pp_missing_markers tx \<noteq> {}" and fresh: "fmlookup (waiting_queue p) ?h = None"
    and p': "p' = \<lparr>required_markers =
                 fold (add_required ?h) (marker_iter hs (pp_missing_markers tx)) (required_markers p),
               waiting_markers = fmupd (pt_provides (pp_transaction tx)) ?h (waiting_markers p),
               waiting_queue = fmupd ?h tx (waiting_queue p)\<rparr>"
    by (auto simp: pend_add_def Let_def pp_is_ready_def fmlookup_dom_iff split: if_splits)
  have ms: "set (marker_iter hs (pp_missing_markers tx)) = pp_missing_markers tx"
    using hs fin by (simp add: hasher_ok_def)
  have wait: "waits_for p' m = (if m \<in> pp_missing_markers tx then insert ?h (waits_for p m)
                                else waits_for p m)" for m
    by (simp add: p' waits_for_def lookup_add_required ms)
  have wq: "fmlookup (waiting_queue p') h = (if h = ?h then Some tx else fmlookup (waiting_queue p) h)"
    for h
    by (simp add: p')
  have "?h \<notin> waits_for p m" for m
    using fresh by (simp add: wf_pendingD(2) [OF wf])
  then have idx: "h \<in> waits_for p' m \<longleftrightarrow>
      (\<exists>t. fmlookup (waiting_queue p') h = Some t \<and> m \<in> pp_missing_markers t)" for h m
    using fresh by (auto simp: wait wf_pendingD(2) [OF wf] wq)
  show ?thesis
    unfolding wf_pending_def
    using idx nr fin fresh wf_pendingD(1,3,4) [OF wf]
    by (fastforce simp: p' wf_entry_def lookup_add_required split: if_splits)
qed

text \<open>Within its precondition (not ready, not queued yet) \<open>add_transaction\<close> does not panic.\<close>

lemma pend_add_no_panic:
  "\<not> pp_is_ready tx \<Longrightarrow> \<not> pend_contains (pp_hash tx) p \<Longrightarrow> pend_add hs tx p \<noteq> None"
  by (simp add: pend_add_def pend_contains_def Let_def)

subsection \<open>Marking and unlocking\<close>

text \<open>A queued transaction with the given markers checked off.\<close>

definition marked :: "TxMarker set \<Rightarrow> PendingPoolTransaction \<Rightarrow> PendingPoolTransaction" where
  "marked M tx = tx\<lparr>pp_missing_markers := pp_missing_markers tx - M\<rparr>"

lemma marked_simps [simp]:
  "pp_transaction (marked M tx) = pp_transaction tx"
  "pp_missing_markers (marked M tx) = pp_missing_markers tx - M"
  "pp_added_at (marked M tx) = pp_added_at tx"
  "pp_is_ready (marked M tx) \<longleftrightarrow> pp_missing_markers tx \<subseteq> M"
  "marked {} tx = tx"
  by (auto simp: marked_def pp_is_ready_def)

lemma marked_marked [simp]: "marked M (marked N tx) = marked (M \<union> N) tx"
  by (cases tx) (auto simp: marked_def)

lemma marked_disjoint: "pp_missing_markers tx \<inter> M = {} \<Longrightarrow> marked M tx = tx"
  by (simp add: marked_def Diff_triv)

lemma pp_mark_marked: "pp_mark m tx = marked {m} tx"
  by (simp add: pp_mark_def marked_def)

text \<open>The queue after the markers \<open>M\<close> were checked off.\<close>

definition marked_entry :: "TxMarker set \<Rightarrow> PendingPoolTransaction option \<Rightarrow> PendingPoolTransaction option" where
  "marked_entry M e = (case e of None \<Rightarrow> None
     | Some tx \<Rightarrow> if pp_missing_markers tx \<subseteq> M then None else Some (marked M tx))"

lemma marked_entry_union: "marked_entry M (marked_entry N e) = marked_entry (M \<union> N) e"
  by (auto simp: marked_entry_def split: option.splits)

text \<open>The transactions that become ready when the markers \<open>M\<close> are checked off.\<close>

definition unlocked_by :: "TxMarker set \<Rightarrow> PendingTransactions \<Rightarrow> PendingPoolTransaction set" where
  "unlocked_by M p =
     {marked M tx |h tx. fmlookup (waiting_queue p) h = Some tx \<and> pp_missing_markers tx \<subseteq> M}"

text \<open>What the inner loop does: its result list and its final state, marker by marker.\<close>

abbreviation marked_at :: "TxMarker \<Rightarrow> PendingTransactions \<Rightarrow> TxHash \<Rightarrow> PendingPoolTransaction" where
  "marked_at m p h \<equiv> marked {m} (the (fmlookup (waiting_queue p) h))"

definition unlocked_state :: "TxMarker \<Rightarrow> TxHash list \<Rightarrow> PendingTransactions \<Rightarrow> PendingTransactions \<Rightarrow> bool" where
  "unlocked_state m hs p p' \<longleftrightarrow>
    required_markers p' = required_markers p \<and>
    (\<forall>h. fmlookup (waiting_queue p') h =
       (if h \<in> set hs then if pp_is_ready (marked_at m p h) then None else Some (marked_at m p h)
        else fmlookup (waiting_queue p) h)) \<and>
    (\<forall>ps. fmlookup (waiting_markers p') ps =
       (if \<exists>h \<in> set hs. pp_is_ready (marked_at m p h) \<and>
            pt_provides (pp_transaction (marked_at m p h)) = ps
        then None else fmlookup (waiting_markers p) ps))"

definition unlock_one :: "TxMarker \<Rightarrow> TxHash \<Rightarrow> PendingTransactions \<Rightarrow> PendingTransactions" where
  "unlock_one m h p = (if pp_is_ready (marked_at m p h)
    then p\<lparr>waiting_queue := fmdrop h (waiting_queue p),
           waiting_markers := fmdrop (pt_provides (pp_transaction (marked_at m p h))) (waiting_markers p)\<rparr>
    else p\<lparr>waiting_queue := fmupd h (marked_at m p h) (waiting_queue p)\<rparr>)"

lemma unlock_one_simps [simp]:
  "required_markers (unlock_one m h p) = required_markers p"
  "fmlookup (waiting_queue (unlock_one m h p)) k =
     (if k = h then if pp_is_ready (marked_at m p h) then None else Some (marked_at m p h)
      else fmlookup (waiting_queue p) k)"
  "fmlookup (waiting_markers (unlock_one m h p)) ps =
     (if pp_is_ready (marked_at m p h) \<and> pt_provides (pp_transaction (marked_at m p h)) = ps
      then None else fmlookup (waiting_markers p) ps)"
  by (simp_all add: unlock_one_def)

lemma unlocked_state_Cons:
  assumes "h \<notin> set hs" "unlocked_state m hs (unlock_one m h p) p'"
  shows "unlocked_state m (h # hs) p p'"
proof -
  note st = assms(2) [unfolded unlocked_state_def]
  have at: "marked_at m (unlock_one m h p) k = marked_at m p k" if "k \<in> set hs" for k
    using assms(1) that by auto
  then have ex: "(\<exists>k \<in> set hs. P (marked_at m (unlock_one m h p) k)) = (\<exists>k \<in> set hs. P (marked_at m p k))"
    for P :: "PendingPoolTransaction \<Rightarrow> bool"
    by (metis (no_types, lifting))
  have "fmlookup (waiting_queue p') k =
       (if k \<in> set (h # hs) then if pp_is_ready (marked_at m p k) then None else Some (marked_at m p k)
        else fmlookup (waiting_queue p) k)" for k
    using assms(1) by (cases "k = h"; cases "k \<in> set hs") (simp_all only: st at, simp_all)
  moreover have "fmlookup (waiting_markers p') ps =
       (if \<exists>k \<in> set (h # hs). pp_is_ready (marked_at m p k) \<and>
            pt_provides (pp_transaction (marked_at m p k)) = ps
        then None else fmlookup (waiting_markers p) ps)" for ps
    by (simp only: st ex [of "\<lambda>t. pp_is_ready t \<and> pt_provides (pp_transaction t) = ps"])
      (auto simp del: marked_simps)
  ultimately show ?thesis using st by (simp add: unlocked_state_def)
qed

lemma unlock_hashes_Cons:
  assumes "fmlookup (waiting_queue p) h = Some tx"
  shows "unlock_hashes m (h # hs) acc p =
    unlock_hashes m hs (acc @ (if pp_is_ready (marked_at m p h) then [marked_at m p h] else []))
      (unlock_one m h p)"
  by (simp add: assms unlock_one_def Let_def pp_mark_marked)

lemma unlock_hashes_spec:
  assumes "distinct hs" "\<forall>h \<in> set hs. h |\<in>| fmdom (waiting_queue p)"
  shows "\<exists>p'. unlock_hashes m hs acc p =
      Some (acc @ map (marked_at m p) (filter (\<lambda>h. pp_is_ready (marked_at m p h)) hs), p') \<and>
    unlocked_state m hs p p'"
  using assms
proof (induction hs arbitrary: acc p)
  case Nil
  then show ?case by (simp add: unlocked_state_def)
next
  case (Cons h hs)
  let ?q = "unlock_one m h p"
  from Cons.prems obtain tx where tx: "fmlookup (waiting_queue p) h = Some tx"
    by (auto simp: fmlookup_dom_iff)
  from Cons.prems have hh: "h \<notin> set hs" "distinct hs" by auto
  then have eq: "fmlookup (waiting_queue ?q) k = fmlookup (waiting_queue p) k" if "k \<in> set hs" for k
    using that by auto
  with Cons.prems have dom: "\<forall>k \<in> set hs. k |\<in>| fmdom (waiting_queue ?q)"
    by (simp add: fmlookup_dom_iff)
  have map: "map (marked_at m ?q) (filter (\<lambda>h. pp_is_ready (marked_at m ?q h)) hs) =
      map (marked_at m p) (filter (\<lambda>h. pp_is_ready (marked_at m p h)) hs)"
    using eq by (simp cong: filter_cong map_cong)
  obtain p' where p': "unlock_hashes m hs
        (acc @ (if pp_is_ready (marked_at m p h) then [marked_at m p h] else [])) ?q =
      Some ((acc @ (if pp_is_ready (marked_at m p h) then [marked_at m p h] else [])) @
        map (marked_at m p) (filter (\<lambda>h. pp_is_ready (marked_at m p h)) hs), p')"
    "unlocked_state m hs ?q p'"
    using Cons.IH [OF hh(2) dom] unfolding map by blast
  then have "unlocked_state m (h # hs) p p'"
    by (intro unlocked_state_Cons [OF hh(1)])
  with p'(1) show ?case
    unfolding unlock_hashes_Cons [OF tx] by (auto simp del: marked_simps)
qed

text \<open>One marker, from a well-formed queue: the loop returns, and its effect is \<open>marked_entry\<close>.\<close>

definition mark_one :: "hasher \<Rightarrow> TxMarker \<Rightarrow> PendingPoolTransaction list \<Rightarrow> PendingTransactions \<Rightarrow>
    (PendingPoolTransaction list \<times> PendingTransactions) option" where
  "mark_one hs m acc p = (case fmlookup (required_markers p) m of
        None \<Rightarrow> Some (acc, p)
      | Some S \<Rightarrow> unlock_hashes m (hash_iter hs S) acc
                 (p\<lparr>required_markers := fmdrop m (required_markers p)\<rparr>))"

lemma mark_and_unlock_from_Cons:
  "mark_and_unlock_from hs (m # ms) acc p =
     Option.bind (mark_one hs m acc p) (\<lambda>(acc', p'). mark_and_unlock_from hs ms acc' p')"
  by (auto simp: mark_one_def split: option.splits)

definition mark_effect :: "TxMarker set \<Rightarrow> PendingTransactions \<Rightarrow> PendingPoolTransaction list \<Rightarrow>
    PendingTransactions \<Rightarrow> bool" where
  "mark_effect M p out p' \<longleftrightarrow> wf_pending p' \<and>
     (\<forall>h. fmlookup (waiting_queue p') h = marked_entry M (fmlookup (waiting_queue p) h)) \<and>
     set out = unlocked_by M p \<and> distinct (map pp_hash out)"

lemma mark_one_wf:
  assumes wf: "wf_pending p" and S: "fmlookup (required_markers p) m = Some S"
    and hs: "set hs = S"
    and st: "unlocked_state m hs (p\<lparr>required_markers := fmdrop m (required_markers p)\<rparr>) p'"
  shows "wf_pending p' \<and>
     (\<forall>h. fmlookup (waiting_queue p') h = marked_entry {m} (fmlookup (waiting_queue p) h))"
proof -
  have S_iff: "h \<in> S \<longleftrightarrow> (\<exists>tx. fmlookup (waiting_queue p) h = Some tx \<and> m \<in> pp_missing_markers tx)" for h
    using wf_pendingD(2) [OF wf, of h m] S by (simp add: waits_for_def)
  note st = st [unfolded unlocked_state_def, simplified]
  have wq: "fmlookup (waiting_queue p') h = marked_entry {m} (fmlookup (waiting_queue p) h)" for h
  proof (cases "h \<in> S")
    case True
    then obtain tx where "fmlookup (waiting_queue p) h = Some tx" by (auto simp: S_iff)
    with True show ?thesis using st hs by (simp add: marked_entry_def)
  next
    case False
    then have "fmlookup (waiting_queue p') h = fmlookup (waiting_queue p) h" using st hs by simp
    also have "\<dots> = marked_entry {m} (fmlookup (waiting_queue p) h)"
    proof (cases "fmlookup (waiting_queue p) h")
      case (Some tx)
      with False wf_pendingD(1) [OF wf Some] have "m \<notin> pp_missing_markers tx" "\<not> pp_missing_markers tx \<subseteq> {m}"
        by (auto simp: S_iff wf_entry_def)
      with Some show ?thesis by (simp add: marked_entry_def marked_disjoint)
    qed (simp add: marked_entry_def)
    finally show ?thesis .
  qed
  have req: "waits_for p' n = (if n = m then {} else waits_for p n)" for n
    using st by (simp add: waits_for_def)
  have "fmlookup (required_markers p') n \<noteq> Some {}" for n
    using st wf_pendingD(3) [OF wf] by simp
  moreover have "\<exists>tx. fmlookup (waiting_queue p') h = Some tx \<and> pt_provides (pp_transaction tx) = ps"
    if wm: "fmlookup (waiting_markers p') ps = Some h" for ps h
  proof -
    from wm st have "fmlookup (waiting_markers p) ps = Some h" by (auto split: if_splits)
    with wf_pendingD(4) [OF wf] obtain tx where
      tx: "fmlookup (waiting_queue p) h = Some tx" "pt_provides (pp_transaction tx) = ps" by blast
    have "\<not> pp_missing_markers tx \<subseteq> {m}"
    proof
      assume sub: "pp_missing_markers tx \<subseteq> {m}"
      with wf_pendingD(1) [OF wf tx(1)] have "m \<in> pp_missing_markers tx" by (auto simp: wf_entry_def)
      with tx S_iff hs have "h \<in> set hs" by blast
      with st wm tx sub show False by (fastforce split: if_splits)
    qed
    with tx show ?thesis by (simp add: wq marked_entry_def)
  qed
  ultimately show ?thesis
    using wf_pendingD(1,2) [OF wf]
    by (fastforce simp: wf_pending_def wq req marked_entry_def wf_entry_def
        split: option.splits if_splits)
qed

lemma mark_one_effect:
  assumes hs: "hasher_ok hs" and wf: "wf_pending p"
  shows "\<exists>out p'. mark_one hs m acc p = Some (acc @ out, p') \<and> mark_effect {m} p out p'"
proof (cases "fmlookup (required_markers p) m")
  case None
  then have "\<not> (\<exists>h tx. fmlookup (waiting_queue p) h = Some tx \<and> m \<in> pp_missing_markers tx)"
    using wf_pendingD(2) [OF wf, of _ m] by (simp add: waits_for_def)
  then have *: "m \<notin> pp_missing_markers tx \<and> \<not> pp_missing_markers tx \<subseteq> {m}"
    if "fmlookup (waiting_queue p) h = Some tx" for h tx
    using that wf_pendingD(1) [OF wf that] by (auto simp: wf_entry_def)
  then have "mark_effect {m} p [] p"
    using wf by (auto simp: mark_effect_def marked_entry_def unlocked_by_def marked_disjoint
        split: option.splits)
  with None show ?thesis by (auto simp: mark_one_def)
next
  case (Some S)
  let ?q = "p\<lparr>required_markers := fmdrop m (required_markers p)\<rparr>"
  let ?hs = "hash_iter hs S"
  have S_iff: "h \<in> S \<longleftrightarrow> (\<exists>tx. fmlookup (waiting_queue p) h = Some tx \<and> m \<in> pp_missing_markers tx)" for h
    using wf_pendingD(2) [OF wf, of h m] Some by (simp add: waits_for_def)
  have set: "set ?hs = S" "distinct ?hs" using hs by (simp_all add: hasher_ok_def)
  moreover have "\<forall>h \<in> set ?hs. h |\<in>| fmdom (waiting_queue ?q)"
    by (auto simp: set S_iff fmlookup_dom_iff)
  ultimately obtain p' where run: "mark_one hs m acc p =
      Some (acc @ map (marked_at m p) (filter (\<lambda>h. pp_is_ready (marked_at m p h)) ?hs), p')"
    and st: "unlocked_state m ?hs ?q p'"
    using unlock_hashes_spec [of ?hs ?q m acc] Some by (auto simp: mark_one_def)
  have inj: "pp_hash (marked_at m p h) = h" if "h \<in> S" for h
    using that wf_pendingD(1) [OF wf] by (auto simp: S_iff wf_entry_def)
  have "marked_at m p ` {h \<in> S. pp_is_ready (marked_at m p h)} = unlocked_by {m} p"
    using wf_pendingD(1) [OF wf] by (fastforce simp: unlocked_by_def S_iff wf_entry_def image_iff)
  moreover have "distinct (map pp_hash (map (marked_at m p) (filter (\<lambda>h. pp_is_ready (marked_at m p h)) ?hs)))"
    using set inj by (auto simp: distinct_map inj_on_def)
  ultimately have "mark_effect {m} p
      (map (marked_at m p) (filter (\<lambda>h. pp_is_ready (marked_at m p h)) ?hs)) p'"
    using mark_one_wf [OF wf Some set(1) st] set(1) by (simp add: mark_effect_def del: marked_simps)
  with run show ?thesis by blast
qed

lemma unlocked_by_hash:
  "wf_pending p \<Longrightarrow> tx \<in> unlocked_by M p \<Longrightarrow>
     \<exists>t. fmlookup (waiting_queue p) (pp_hash tx) = Some t \<and> tx = marked M t \<and> pp_missing_markers t \<subseteq> M"
  by (fastforce simp: unlocked_by_def wf_entry_def dest: wf_pendingD(1))

lemma marked_all: "pp_missing_markers tx \<subseteq> M \<Longrightarrow> marked M tx = marked (M \<union> N) tx"
  by (auto simp: marked_def intro!: arg_cong [where f = "\<lambda>S. tx\<lparr>pp_missing_markers := S\<rparr>"])

lemma mark_effect_trans:
  assumes wf: "wf_pending p" and e1: "mark_effect M p out p'" and e2: "mark_effect N p' out' p''"
  shows "mark_effect (M \<union> N) p (out @ out') p''"
proof -
  have wq: "fmlookup (waiting_queue p') h = marked_entry M (fmlookup (waiting_queue p) h)" for h
    using e1 by (simp add: mark_effect_def)
  have o1: "unlocked_by M p = {marked (M \<union> N) tx |h tx. fmlookup (waiting_queue p) h = Some tx \<and> pp_missing_markers tx \<subseteq> M}"
    unfolding unlocked_by_def by (intro Collect_cong iff_exI) (auto simp: marked_all [of _ M N])
  have o2: "unlocked_by N p' = {marked (M \<union> N) tx |h tx. fmlookup (waiting_queue p) h = Some tx \<and>
      \<not> pp_missing_markers tx \<subseteq> M \<and> pp_missing_markers tx \<subseteq> M \<union> N}"
    unfolding unlocked_by_def wq marked_entry_def
    by (fastforce split: option.splits if_splits simp: Un_commute)
  have "unlocked_by M p \<union> unlocked_by N p' = unlocked_by (M \<union> N) p"
    unfolding o1 o2 unfolding unlocked_by_def by blast
  moreover have "pp_hash t \<noteq> pp_hash t'" if "t \<in> unlocked_by M p" "t' \<in> unlocked_by N p'" for t t'
    using unlocked_by_hash [OF wf that(1)] unlocked_by_hash [OF _ that(2)] e1
    by (auto simp: mark_effect_def marked_entry_def)
  ultimately show ?thesis
    using e1 e2 by (auto simp: mark_effect_def marked_entry_union Un_commute image_iff)
qed

lemma mark_and_unlock_from_effect:
  assumes "hasher_ok hs" "wf_pending p"
  shows "\<exists>out p'. mark_and_unlock_from hs ms acc p = Some (acc @ out, p') \<and> mark_effect (set ms) p out p'"
  using assms(2)
proof (induction ms arbitrary: acc p)
  case Nil
  then have "mark_effect {} p [] p"
    by (auto simp: mark_effect_def unlocked_by_def marked_entry_def wf_entry_def
        split: option.splits dest: wf_pendingD(1))
  then show ?case by simp
next
  case (Cons m ms)
  obtain out p' where one: "mark_one hs m acc p = Some (acc @ out, p')" "mark_effect {m} p out p'"
    using mark_one_effect [OF assms(1) Cons.prems] by blast
  then have "wf_pending p'" by (simp add: mark_effect_def)
  then obtain out' p'' where
    rest: "mark_and_unlock_from hs ms (acc @ out) p' = Some ((acc @ out) @ out', p'')"
      "mark_effect (set ms) p' out' p''"
    using Cons.IH by blast
  from mark_effect_trans [OF Cons.prems one(2) rest(2)] one(1) rest(1) show ?case
    unfolding mark_and_unlock_from_Cons by auto
qed

text \<open>
  The specification of \<open>mark_and_unlock\<close>: it returns (no \<open>expect\<close> fires), the transactions it
  hands out are exactly those that waited for nothing but the given markers, each once, and the
  others stay queued with the markers checked off.
\<close>

lemma mark_and_unlock_effect:
  assumes "hasher_ok hs" "wf_pending p"
  obtains out p' where "mark_and_unlock hs ms p = Some (out, p')" "mark_effect (set ms) p out p'"
  using mark_and_unlock_from_effect [OF assms, of ms "[]"] by (auto simp: mark_and_unlock_def)

lemma mark_effectD:
  assumes "mark_effect M p out p'"
  shows "wf_pending p'"
    and "fmlookup (waiting_queue p') h = marked_entry M (fmlookup (waiting_queue p) h)"
    and "set out = unlocked_by M p" and "distinct (map pp_hash out)"
  using assms by (auto simp: mark_effect_def)

text \<open>Every unlocked transaction leaves the queue, whatever the state of the index.\<close>

lemma unlock_hashes_len:
  "unlock_hashes m hs acc p = Some (out, p') \<Longrightarrow> length out + pend_len p' = length acc + pend_len p"
proof (induction hs arbitrary: acc p)
  case Nil
  then show ?case by simp
next
  case (Cons h hs)
  then obtain tx where tx: "fmlookup (waiting_queue p) h = Some tx" by (auto split: option.splits)
  then have h: "h \<in> fmdom' (waiting_queue p)" by (simp add: fmlookup_dom'_iff)
  have len: "pend_len (unlock_one m h p) = pend_len p - (if pp_is_ready (marked_at m p h) then 1 else 0)"
    using h by (simp add: pend_len_def unlock_one_def insert_absorb)
  have "0 < pend_len p" using h by (auto simp: pend_len_def card_gt_0_iff)
  with Cons.IH Cons.prems len show ?case
    unfolding unlock_hashes_Cons [OF tx] by (fastforce split: if_splits)
qed

lemma mark_and_unlock_from_len:
  "mark_and_unlock_from hs ms acc p = Some (out, p') \<Longrightarrow>
     length out + pend_len p' = length acc + pend_len p"
  by (induction ms arbitrary: acc p)
    (fastforce simp: pend_len_def split: option.splits dest: unlock_hashes_len)+

lemma mark_and_unlock_len:
  "mark_and_unlock hs ms p = Some (out, p') \<Longrightarrow> length out + pend_len p' = pend_len p"
  by (drule mark_and_unlock_from_len [of _ _ "[]", folded mark_and_unlock_def]) simp

subsection \<open>Removing\<close>

lemma lookup_drop_one:
  "fmlookup (drop_required h n req) m =
     (if m = n then
        (case fmlookup req m of None \<Rightarrow> None | Some S \<Rightarrow> if S - {h} = {} then None else Some (S - {h}))
      else fmlookup req m)"
  by (auto simp: drop_required_def Let_def split: option.splits)

lemma lookup_drop_required:
  "fmlookup (fold (drop_required h) ms req) m =
     (if m \<in> set ms then
        (case fmlookup req m of None \<Rightarrow> None | Some S \<Rightarrow> if S - {h} = {} then None else Some (S - {h}))
      else fmlookup req m)"
  by (induction ms arbitrary: req) (auto simp: lookup_drop_one split: option.splits)

lemma pend_remove_one_wf:
  assumes hs: "hasher_ok hs" and wf: "wf_pending p" and w: "fmlookup (waiting_queue p) h = Some w"
  shows "wf_pending \<lparr>required_markers =
                fold (drop_required h) (marker_iter hs (pp_missing_markers w)) (required_markers p),
              waiting_markers = fmdrop (pt_provides (pp_transaction w)) (waiting_markers p),
              waiting_queue = fmdrop h (waiting_queue p)\<rparr>" (is "wf_pending ?p'")
proof -
  have fin: "finite (pp_missing_markers w)" using wf_pendingD(1) [OF wf w] by (simp add: wf_entry_def)
  then have ms: "set (marker_iter hs (pp_missing_markers w)) = pp_missing_markers w"
    using hs by (simp add: hasher_ok_def)
  have h: "h \<in> waits_for p m \<longleftrightarrow> m \<in> pp_missing_markers w" for m
    using wf_pendingD(2) [OF wf, of h m] w by simp
  have wait: "waits_for ?p' m = waits_for p m - {h}" for m
    using h [of m] by (auto simp: waits_for_def lookup_drop_required ms split: option.splits)
  have "fmlookup (required_markers ?p') m \<noteq> Some {}" for m
    using wf_pendingD(3) [OF wf, of m] by (auto simp: lookup_drop_required ms split: option.splits if_splits)
  then show ?thesis
    using wf_pendingD(1,2,4) [OF wf] w by (fastforce simp: wf_pending_def wait split: if_splits)
qed

lemma pend_remove_wf: "hasher_ok hs \<Longrightarrow> wf_pending p \<Longrightarrow> wf_pending (snd (pend_remove hs hashes p))"
  by (induction hashes arbitrary: p) (auto simp: split_def Let_def split: option.splits dest: pend_remove_one_wf)

lemma pend_remove_queue:
  "fmlookup (waiting_queue (snd (pend_remove hs hashes p))) h =
     (if h \<in> set hashes then None else fmlookup (waiting_queue p) h)"
  by (induction hashes arbitrary: p) (auto simp: split_def Let_def split: option.splits)

lemma pend_remove_removed:
  "set (fst (pend_remove hs hashes p)) =
     {pp_transaction w |h w. h \<in> set hashes \<and> fmlookup (waiting_queue p) h = Some w}"
proof (induction hashes arbitrary: p)
  case (Cons k hashes)
  show ?case
  proof (cases "fmlookup (waiting_queue p) k")
    case None
    with Cons.IH [of p] show ?thesis by fastforce
  next
    case (Some w)
    then have "set (fst (pend_remove hs (k # hashes) p)) = insert (pp_transaction w)
        {pp_transaction u |h u. h \<in> set hashes \<and> h \<noteq> k \<and> fmlookup (waiting_queue p) h = Some u}"
      by (auto simp: split_def Let_def Cons.IH split: if_splits)
    with Some show ?thesis by force
  qed
qed simp

section \<open>Markers\<close>

interpretation marker: codec "\<lambda>(n, a). to_marker n a" of_marker "\<lambda>_. True"
proof
  fix x :: "u64 \<times> Address"
  obtain n a where x: "x = (n, a)" by force
  have "(256::nat) ^ 8 = 2 ^ LENGTH(64)" "(256::nat) ^ 20 = 2 ^ LENGTH(160)" by simp_all
  then have "unat n mod 256 ^ 8 = unat n" "unat a mod 256 ^ 20 = unat a"
    by (simp_all only: mod_less unsigned_less)
  then show "of_marker (case x of (n, a) \<Rightarrow> to_marker n a) = Some x"
    by (simp add: x to_marker_def of_marker_def le_nat_le_bytes)
qed

end
