(* ===== verification/PoolReady.thy ===== *)
theory PoolReady
  imports PoolPending
begin

text \<open>
  The second half of \<open>anvil/src/eth/pool/transactions.rs\<close>: \<open>ReadyTransactions\<close>, the transactions
  that can be included in a block, linked by the transactions they unlock, and the iterator that
  yields them in the order the miner takes them.  \<open>wf_ready\<close> relates the index of provided markers,
  the stored transactions and the independent set; every operation keeps it, and under it no
  \<open>expect\<close> or \<open>assert\<close> fires.
\<close>

section \<open>References and their order\<close>

record PoolTransactionRef =
  rf_transaction :: PoolTransaction
  rf_id :: u64

abbreviation rf_hash :: "PoolTransactionRef \<Rightarrow> TxHash" where
  "rf_hash x \<equiv> pt_hash (rf_transaction x)"

text \<open>The key that \<open>PoolTransactionRef::cmp\<close> compares: the priority, then the reversed id.\<close>

datatype ref_key = RefKey (rk_priority: U256) (rk_id: u64)

instantiation ref_key :: linorder
begin

definition less_eq_ref_key :: "ref_key \<Rightarrow> ref_key \<Rightarrow> bool" where
  "less_eq_ref_key a b \<longleftrightarrow>
     rk_priority a < rk_priority b \<or> rk_priority a = rk_priority b \<and> rk_id b \<le> rk_id a"

definition less_ref_key :: "ref_key \<Rightarrow> ref_key \<Rightarrow> bool" where
  "less_ref_key a b \<longleftrightarrow>
     rk_priority a < rk_priority b \<or> rk_priority a = rk_priority b \<and> rk_id b < rk_id a"

instance
proof
  fix x y z :: ref_key
  show "(x < y) = (x \<le> y \<and> \<not> y \<le> x)"
    by (auto simp: less_eq_ref_key_def less_ref_key_def)
  show "x \<le> x" by (simp add: less_eq_ref_key_def)
  show "x \<le> y \<Longrightarrow> y \<le> z \<Longrightarrow> x \<le> z" by (auto simp: less_eq_ref_key_def)
  show "x \<le> y \<Longrightarrow> y \<le> x \<Longrightarrow> x = y" by (auto simp: less_eq_ref_key_def ref_key.expand)
  show "x \<le> y \<or> y \<le> x" by (auto simp: less_eq_ref_key_def)
qed

end

definition ref_cmp_key :: "PoolTransactionRef \<Rightarrow> ref_key" where
  "ref_cmp_key x = RefKey (pt_priority (rf_transaction x)) (rf_id x)"

section \<open>The ready queue\<close>

record ReadyTransaction =
  rt_transaction :: PoolTransactionRef
  rt_unlocks :: "TxHash list"
  rt_requires_offset :: nat

abbreviation rt_provides :: "ReadyTransaction \<Rightarrow> TxMarker list" where
  "rt_provides t \<equiv> pt_provides (rf_transaction (rt_transaction t))"

abbreviation rt_gas_price :: "ReadyTransaction \<Rightarrow> U256" where
  "rt_gas_price t \<equiv> pt_gas_price (rf_transaction (rt_transaction t))"

type_synonym ready_map = "(TxHash, ReadyTransaction) fmap"

record ReadyTransactions =
  rd_id :: u64
  provided_markers :: "(TxMarker, TxHash) fmap"
  ready_tx :: ready_map
  independent_transactions :: "PoolTransactionRef list"

definition ready_empty :: ReadyTransactions where
  "ready_empty = \<lparr>rd_id = 0, provided_markers = fmempty, ready_tx = fmempty,
     independent_transactions = []\<rparr>"

definition ready_contains :: "TxHash \<Rightarrow> ReadyTransactions \<Rightarrow> bool" where
  "ready_contains h r \<longleftrightarrow> h |\<in>| fmdom (ready_tx r)"

definition ready_get :: "TxHash \<Rightarrow> ReadyTransactions \<Rightarrow> ReadyTransaction option" where
  "ready_get h r = fmlookup (ready_tx r) h"

definition next_id :: "ReadyTransactions \<Rightarrow> u64 \<times> ReadyTransactions" where
  "next_id r = (rd_id r, r\<lparr>rd_id := rd_id r + 1\<rparr>)"

definition ind_insert :: "PoolTransactionRef \<Rightarrow> PoolTransactionRef list \<Rightarrow> PoolTransactionRef list" where
  "ind_insert = bset_insert ref_cmp_key"

definition ind_remove :: "PoolTransactionRef \<Rightarrow> PoolTransactionRef list \<Rightarrow> PoolTransactionRef list" where
  "ind_remove = bset_remove ref_cmp_key"

text \<open>
  \<open>remove_with_markers\<close>.  The loop that should unlink the removed transaction from the ones that
  unlock it binds the provider's hash to the name \<open>hash\<close> and then looks for that hash among the
  provider's own unlocks; \<open>unlink_requires\<close> keeps this.
\<close>

definition unlink_require :: "(TxMarker, TxHash) fmap \<Rightarrow> TxMarker \<Rightarrow> ready_map \<Rightarrow> ready_map" where
  "unlink_require prov mark ready =
     (case fmlookup prov mark of
        None \<Rightarrow> ready
      | Some h \<Rightarrow>
          (case fmlookup ready h of
             None \<Rightarrow> ready
           | Some t \<Rightarrow> fmupd h (t\<lparr>rt_unlocks := swap_remove_first h (rt_unlocks t)\<rparr>) ready))"

definition invalidated :: "TxMarker set option \<Rightarrow> ReadyTransaction \<Rightarrow> TxMarker list" where
  "invalidated marker_filter t =
     filter (\<lambda>m. case marker_filter of None \<Rightarrow> True | Some F \<Rightarrow> m \<notin> F) (rt_provides t)"

text \<open>The loop body for a hash that is stored: the state without the transaction.\<close>

definition detach :: "TxMarker set option \<Rightarrow> TxHash \<Rightarrow> ReadyTransaction \<Rightarrow> ReadyTransactions \<Rightarrow> ReadyTransactions" where
  "detach marker_filter h t r =
     (let prov = fold fmdrop (invalidated marker_filter t) (provided_markers r)
      in r\<lparr>provided_markers := prov,
           ready_tx := fold (unlink_require prov) (pt_requires (rf_transaction (rt_transaction t)))
                         (fmdrop h (ready_tx r)),
           independent_transactions :=
             ind_remove (rt_transaction t) (independent_transactions r)\<rparr>)"

lemma fmdom'_unlink_require [simp]: "fmdom' (unlink_require prov m ready) = fmdom' ready"
  by (auto simp: unlink_require_def fmlookup_dom'_iff split: option.splits)

lemma fmdom'_unlink [simp]: "fmdom' (fold (unlink_require prov) ms ready) = fmdom' ready"
  by (induction ms arbitrary: ready) auto

function remove_loop :: "TxMarker set option \<Rightarrow> TxHash list \<Rightarrow> PoolTransaction list \<Rightarrow> ReadyTransactions \<Rightarrow>
    PoolTransaction list \<times> ReadyTransactions" where
  "remove_loop marker_filter tx_hashes removed r =
     (if tx_hashes = [] then (removed, r)
      else let h = last tx_hashes; rest = butlast tx_hashes in
        case fmlookup (ready_tx r) h of
          None \<Rightarrow> remove_loop marker_filter rest removed r
        | Some t \<Rightarrow>
            remove_loop marker_filter
              (if invalidated marker_filter t \<noteq> [] then rest @ rt_unlocks t else rest)
              (removed @ [rf_transaction (rt_transaction t)])
              (detach marker_filter h t r))"
  by pat_completeness auto
termination
proof (relation "measures [\<lambda>(f, hs, rm, r). card (fmdom' (ready_tx r)), \<lambda>(f, hs, rm, r). length hs]",
    goal_cases)
  case 1
  then show ?case by simp
next
  case (2 f hs rm r h rest)
  then show ?case by auto
next
  case (3 f hs rm r h rest t)
  then have "h \<in> fmdom' (ready_tx r)" by (simp add: fmlookup_dom'_iff)
  then have "card (fmdom' (ready_tx (detach f h t r))) < card (fmdom' (ready_tx r))"
    by (simp add: detach_def Let_def) (metis card_Diff1_less card_Diff_singleton fmdom'_alt_def finite_fset One_nat_def)
  then show ?case by simp
qed

declare remove_loop.simps [simp del]

definition remove_with_markers :: "TxHash list \<Rightarrow> TxMarker set option \<Rightarrow> ReadyTransactions \<Rightarrow>
    PoolTransaction list \<times> ReadyTransactions" where
  "remove_with_markers tx_hashes marker_filter r = remove_loop marker_filter tx_hashes [] r"

definition clear_transactions :: "TxHash list \<Rightarrow> ReadyTransactions \<Rightarrow> PoolTransaction list \<times> ReadyTransactions" where
  "clear_transactions tx_hashes r = remove_with_markers tx_hashes None r"

text \<open>
  \<open>prune_tags\<close>.  \<open>prune_previous\<close> is the closure \<open>previous_markers\<close> with the loop around it,
  \<open>prune_unlock\<close> the loop that promotes the unlocked transactions, \<open>prune_provides\<close> the loop with
  the \<open>assert_eq!\<close>, whose failure is \<open>None\<close>.
\<close>

fun prune_previous :: "(TxMarker, TxHash) fmap \<Rightarrow> TxHash \<Rightarrow> TxMarker list \<Rightarrow> ready_map \<Rightarrow> TxMarker list \<Rightarrow>
    ready_map \<times> TxMarker list" where
  "prune_previous prov h [] ready remove = (ready, remove)"
| "prune_previous prov h (m # ms) ready remove =
     (case Option.bind (fmlookup prov m)
             (\<lambda>prev. map_option (\<lambda>t. (prev, t)) (fmlookup ready prev)) of
        None \<Rightarrow> prune_previous prov h ms ready remove
      | Some (prev, t) \<Rightarrow>
          (let unlocks = swap_remove_first h (rt_unlocks t)
           in prune_previous prov h ms (fmupd prev (t\<lparr>rt_unlocks := unlocks\<rparr>) ready)
                (if unlocks = [] then remove @ rt_provides t else remove)))"

fun prune_unlock :: "TxHash list \<Rightarrow> ready_map \<Rightarrow> PoolTransactionRef list \<Rightarrow> ready_map \<times> PoolTransactionRef list" where
  "prune_unlock [] ready ind = (ready, ind)"
| "prune_unlock (h # hs) ready ind =
     (case fmlookup ready h of
        None \<Rightarrow> prune_unlock hs ready ind
      | Some t \<Rightarrow>
          (let t' = t\<lparr>rt_requires_offset := rt_requires_offset t + 1\<rparr>
           in prune_unlock hs (fmupd h t' ready)
                (if rt_requires_offset t' = length (pt_requires (rf_transaction (rt_transaction t')))
                 then ind_insert (rt_transaction t') ind else ind)))"

fun prune_provides :: "TxMarker \<Rightarrow> TxHash \<Rightarrow> TxMarker list \<Rightarrow> (TxMarker, TxHash) fmap \<Rightarrow>
    (TxMarker, TxHash) fmap option" where
  "prune_provides current h [] prov = Some prov"
| "prune_provides current h (m # ms) prov =
     (if fmlookup prov m = (if current = m then None else Some h)
      then prune_provides current h ms (fmdrop m prov) else None)"

text \<open>The loop body for a marker whose provider \<open>t\<close>, stored under \<open>h\<close>, was found and removed.\<close>

definition prune_one :: "TxMarker \<Rightarrow> TxHash \<Rightarrow> ReadyTransaction \<Rightarrow> TxMarker list \<Rightarrow> ReadyTransactions \<Rightarrow>
    (TxMarker list \<times> ReadyTransactions) option" where
  "prune_one marker h t remove r =
     (let tx = rf_transaction (rt_transaction t);
          prov = fmdrop marker (provided_markers r);
          (ready, remove') = prune_previous prov (pt_hash tx) (pt_requires tx)
                               (fmdrop h (ready_tx r)) remove;
          (ready', ind) = prune_unlock (rt_unlocks t) ready
                            (ind_remove (rt_transaction t) (independent_transactions r))
      in map_option (\<lambda>prov'.
           (remove', r\<lparr>provided_markers := prov', ready_tx := ready', independent_transactions := ind\<rparr>))
           (prune_provides marker (pt_hash tx) (pt_provides tx) prov))"

lemma prune_provides_dom:
  "prune_provides c h ms prov = Some prov' \<Longrightarrow> fmdom' prov' = fmdom' prov - set ms"
  by (induction ms arbitrary: prov) (auto split: if_splits)

lemma prune_one_provided:
  "prune_one m h t remove r = Some (remove', r') \<Longrightarrow>
     fmdom' (provided_markers r') = fmdom' (provided_markers r) - {m} - set (rt_provides t)"
  unfolding prune_one_def by (clarsimp simp: Let_def split: prod.splits) (drule prune_provides_dom, auto)

function prune_loop :: "TxMarker list \<Rightarrow> PoolTransaction list \<Rightarrow> ReadyTransactions \<Rightarrow>
    (PoolTransaction list \<times> ReadyTransactions) option" where
  "prune_loop remove removed_tx r =
     (if remove = [] then Some (removed_tx, r)
      else let marker = last remove; rest = butlast remove in
        case fmlookup (provided_markers r) marker of
          None \<Rightarrow> prune_loop rest removed_tx r
        | Some h \<Rightarrow>
            (case fmlookup (ready_tx r) h of
               None \<Rightarrow> prune_loop rest removed_tx
                 (r\<lparr>provided_markers := fmdrop marker (provided_markers r)\<rparr>)
             | Some t \<Rightarrow>
                 (case prune_one marker h t rest r of
                    None \<Rightarrow> None
                  | Some (remove', r') \<Rightarrow>
                      prune_loop remove' (removed_tx @ [rf_transaction (rt_transaction t)]) r')))"
  by pat_completeness auto

lemma card_shrink: "finite A \<Longrightarrow> a \<in> A \<Longrightarrow> B \<subseteq> A - {a} \<Longrightarrow> card B < card A"
  by (rule psubset_card_mono) auto

termination prune_loop
proof (relation "measures [\<lambda>(rm, tx, r). card (fmdom' (provided_markers r)), \<lambda>(rm, tx, r). length rm]",
    goal_cases)
  case 1
  then show ?case by simp
next
  case (2 rm tx r m rest)
  then show ?case by auto
next
  case (3 rm tx r m rest h)
  then have "m \<in> fmdom' (provided_markers r)" by (simp add: fmlookup_dom'_iff)
  then have "card (fmdom' (provided_markers r) - {m}) < card (fmdom' (provided_markers r))"
    by (intro card_shrink) auto
  then show ?case by simp
next
  case (4 rm tx r m rest h t x rm' r')
  then have "m \<in> fmdom' (provided_markers r)" by (simp add: fmlookup_dom'_iff)
  moreover have "fmdom' (provided_markers r') \<subseteq> fmdom' (provided_markers r) - {m}"
    using prune_one_provided 4 by blast
  ultimately have "card (fmdom' (provided_markers r')) < card (fmdom' (provided_markers r))"
    by (intro card_shrink) auto
  then show ?case by simp
qed

declare prune_loop.simps [simp del]

definition prune_tags :: "TxMarker \<Rightarrow> ReadyTransactions \<Rightarrow> (PoolTransaction list \<times> ReadyTransactions) option" where
  "prune_tags marker r = prune_loop [marker] [] r"

text \<open>
  \<open>replaced_transactions\<close>: the transactions that provide a marker of the new one are checked
  for their price and removed.
\<close>

definition remove_hashes :: "PoolTransaction \<Rightarrow> ReadyTransactions \<Rightarrow> TxHash set" where
  "remove_hashes tx r = set (List.map_filter (fmlookup (provided_markers r)) (pt_provides tx))"

fun check_replaced :: "PoolTransaction \<Rightarrow> ReadyTransaction list \<Rightarrow> TxHash list \<Rightarrow> (TxHash list, PoolError) result" where
  "check_replaced tx [] unlocked = Ok unlocked"
| "check_replaced tx (t # ts) unlocked =
     (if rt_provides t = pt_provides tx \<and> pt_gas_price tx \<le> rt_gas_price t
      then Err (ReplacementUnderpriced tx)
      else check_replaced tx ts (unlocked @ rt_unlocks t))"

definition replaced_transactions :: "hasher \<Rightarrow> PoolTransaction \<Rightarrow> ReadyTransactions \<Rightarrow>
    ((PoolTransaction list \<times> TxHash list, PoolError) result \<times> ReadyTransactions)" where
  "replaced_transactions hs tx r =
     (let hashes = remove_hashes tx r in
      if hashes = {} then (Ok ([], []), r)
      else
        case check_replaced tx (List.map_filter (fmlookup (ready_tx r)) (hash_iter hs hashes)) [] of
          Err e \<Rightarrow> (Err e, r)
        | Ok unlocked \<Rightarrow>
            (let (removed, r') =
               remove_with_markers (hash_iter hs hashes) (Some (set (pt_provides tx))) r
             in (Ok (removed, unlocked), r')))"

text \<open>\<open>ReadyTransactions::add_transaction\<close>; \<open>None\<close> is the panic of an \<open>assert\<close> or of the \<open>expect\<close>.\<close>

fun link_requires :: "(TxMarker, TxHash) fmap \<Rightarrow> TxHash \<Rightarrow> TxMarker list \<Rightarrow> ready_map \<Rightarrow> bool \<Rightarrow> nat \<Rightarrow>
    (ready_map \<times> bool \<times> nat) option" where
  "link_requires prov h [] ready independent requires_offset = Some (ready, independent, requires_offset)"
| "link_requires prov h (m # ms) ready independent requires_offset =
     (case fmlookup prov m of
        Some other \<Rightarrow>
          (case fmlookup ready other of
             None \<Rightarrow> None
           | Some t \<Rightarrow> link_requires prov h ms
               (fmupd other (t\<lparr>rt_unlocks := rt_unlocks t @ [h]\<rparr>) ready) False requires_offset)
      | None \<Rightarrow> link_requires prov h ms ready independent (requires_offset + 1))"

definition ready_add :: "hasher \<Rightarrow> PendingPoolTransaction \<Rightarrow> ReadyTransactions \<Rightarrow>
    ((PoolTransaction list, PoolError) result \<times> ReadyTransactions) option" where
  "ready_add hs tx r =
     (if \<not> pp_is_ready tx then None
      else if pp_hash tx |\<in>| fmdom (ready_tx r) then None
      else
        case replaced_transactions hs (pp_transaction tx) r of
          (Err e, r') \<Rightarrow> Some (Err e, r')
        | (Ok (replaced_tx, unlocks), r') \<Rightarrow>
            (let (id, r'') = next_id r'; h = pp_hash tx; ptx = pp_transaction tx in
             case link_requires (provided_markers r'') h (pt_requires ptx) (ready_tx r'') True 0 of
               None \<Rightarrow> None
             | Some (ready, independent, requires_offset) \<Rightarrow>
                 (let x = \<lparr>rf_transaction = ptx, rf_id = id\<rparr> in
                  Some (Ok replaced_tx,
                    r''\<lparr>provided_markers := fold (\<lambda>m. fmupd m h) (pt_provides ptx) (provided_markers r''),
                        independent_transactions :=
                          (if independent then ind_insert x (independent_transactions r'')
                           else independent_transactions r''),
                        ready_tx := fmupd h \<lparr>rt_transaction = x, rt_unlocks = unlocks,
                          rt_requires_offset = requires_offset\<rparr> ready\<rparr>))))"

section \<open>The iterator\<close>

record TransactionsIterator =
  it_all :: ready_map
  it_awaiting :: "(TxHash, nat \<times> PoolTransactionRef) fmap"
  it_independent :: "PoolTransactionRef list"

definition get_transactions :: "ReadyTransactions \<Rightarrow> TransactionsIterator" where
  "get_transactions r =
     \<lparr>it_all = ready_tx r, it_awaiting = fmempty, it_independent = independent_transactions r\<rparr>"

definition independent_or_awaiting :: "nat \<Rightarrow> PoolTransactionRef \<Rightarrow> TransactionsIterator \<Rightarrow> TransactionsIterator" where
  "independent_or_awaiting satisfied x it =
     (if satisfied \<ge> length (pt_requires (rf_transaction x))
      then it\<lparr>it_independent := ind_insert x (it_independent it)\<rparr>
      else it\<lparr>it_awaiting := fmupd (rf_hash x) (satisfied, x) (it_awaiting it)\<rparr>)"

text \<open>One turn of the loop over \<open>ready.unlocks\<close>.\<close>

definition iter_unlock :: "TxHash \<Rightarrow> TransactionsIterator \<Rightarrow> TransactionsIterator" where
  "iter_unlock h it =
     (case fmlookup (it_awaiting it) h of
        Some (satisfied, x) \<Rightarrow>
          independent_or_awaiting (satisfied + 1) x (it\<lparr>it_awaiting := fmdrop h (it_awaiting it)\<rparr>)
      | None \<Rightarrow>
          (case fmlookup (it_all it) h of
             None \<Rightarrow> it
           | Some t \<Rightarrow> independent_or_awaiting (rt_requires_offset t + 1) (rt_transaction t) it))"

function iter_next :: "TransactionsIterator \<Rightarrow> (PoolTransaction \<times> TransactionsIterator) option" where
  "iter_next it =
     (if it_independent it = [] then None
      else let best = last (it_independent it);
               it' = it\<lparr>it_independent := butlast (it_independent it)\<rparr> in
        case fmlookup (it_all it') (rf_hash best) of
          None \<Rightarrow> iter_next it'
        | Some t \<Rightarrow> Some (rf_transaction best, fold iter_unlock (rt_unlocks t) it'))"
  by pat_completeness auto
termination
  by (relation "measure (\<lambda>it. length (it_independent it))") auto

declare iter_next.simps [simp del]

text \<open>The first transactions the iterator yields.\<close>

fun iter_take :: "nat \<Rightarrow> TransactionsIterator \<Rightarrow> PoolTransaction list" where
  "iter_take 0 it = []"
| "iter_take (Suc n) it =
     (case iter_next it of None \<Rightarrow> [] | Some (tx, it') \<Rightarrow> tx # iter_take n it')"

section \<open>The invariant\<close>

text \<open>
  The invariant looks at the stored references only: links and offsets play no part in it.
\<close>

definition refs_of :: "ready_map \<Rightarrow> TxHash \<rightharpoonup> PoolTransactionRef" where
  "refs_of ready h = map_option rt_transaction (fmlookup ready h)"

text \<open>
  \<open>ready_inv D\<close>: every provided marker outside \<open>D\<close> points to a stored transaction that provides it;
  a transaction is stored under its hash, provides no marker twice and is what its markers point to;
  the independent set is an ordered set of stored references.  \<open>D\<close> is non-empty only while a
  transaction is being replaced.
\<close>

definition ready_inv :: "TxMarker set \<Rightarrow> (TxMarker, TxHash) fmap \<Rightarrow> (TxHash \<rightharpoonup> PoolTransactionRef) \<Rightarrow>
    PoolTransactionRef list \<Rightarrow> bool" where
  "ready_inv D prov refs ind \<longleftrightarrow>
     (\<forall>m h. fmlookup prov m = Some h \<longrightarrow> m \<notin> D \<longrightarrow>
        (\<exists>x. refs h = Some x \<and> m \<in> set (pt_provides (rf_transaction x)))) \<and>
     (\<forall>h x. refs h = Some x \<longrightarrow> rf_hash x = h \<and> distinct (pt_provides (rf_transaction x)) \<and>
        (\<forall>m \<in> set (pt_provides (rf_transaction x)). fmlookup prov m = Some h)) \<and>
     bset_ok ref_cmp_key ind \<and>
     (\<forall>x \<in> set ind. refs (rf_hash x) = Some x)"

definition wf_ready_but :: "TxMarker set \<Rightarrow> ReadyTransactions \<Rightarrow> bool" where
  "wf_ready_but D r \<longleftrightarrow>
     ready_inv D (provided_markers r) (refs_of (ready_tx r)) (independent_transactions r)"

definition wf_ready :: "ReadyTransactions \<Rightarrow> bool" where
  "wf_ready r \<longleftrightarrow> wf_ready_but {} r"

lemma ready_invD:
  assumes "ready_inv D prov refs ind"
  shows "fmlookup prov m = Some h \<Longrightarrow> m \<notin> D \<Longrightarrow> \<exists>x. refs h = Some x \<and> m \<in> set (pt_provides (rf_transaction x))"
    and "refs h = Some x \<Longrightarrow> rf_hash x = h"
    and "refs h = Some x \<Longrightarrow> distinct (pt_provides (rf_transaction x))"
    and "refs h = Some x \<Longrightarrow> m \<in> set (pt_provides (rf_transaction x)) \<Longrightarrow> fmlookup prov m = Some h"
    and "bset_ok ref_cmp_key ind"
    and "x \<in> set ind \<Longrightarrow> refs (rf_hash x) = Some x"
  using assms by (auto simp: ready_inv_def)

lemma wf_ready_empty: "wf_ready ready_empty"
  by (simp add: wf_ready_def wf_ready_but_def ready_inv_def ready_empty_def refs_of_def)

lemma ready_inv_mono: "ready_inv D prov refs ind \<Longrightarrow> D \<subseteq> E \<Longrightarrow> ready_inv E prov refs ind"
  unfolding ready_inv_def by blast

lemma refs_of_empty [simp]: "refs_of fmempty = Map.empty"
  by (auto simp: refs_of_def)

lemma refs_of_drop [simp]: "refs_of (fmdrop h ready) = (refs_of ready)(h := None)"
  by (auto simp: refs_of_def)

lemma refs_of_upd: "refs_of (fmupd h t ready) = (refs_of ready)(h \<mapsto> rt_transaction t)"
  by (auto simp: refs_of_def)

lemma refs_of_upd_same:
  "fmlookup ready h = Some t \<Longrightarrow> rt_transaction t' = rt_transaction t \<Longrightarrow>
     refs_of (fmupd h t' ready) = refs_of ready"
  by (rule ext) (auto simp: refs_of_def)

lemma refs_of_dom: "refs_of ready h = None \<longleftrightarrow> h |\<notin>| fmdom ready"
  by (auto simp: refs_of_def fmlookup_dom_iff)

lemma refs_of_unlink [simp]: "refs_of (fold (unlink_require prov) ms ready) = refs_of ready"
  by (induction ms arbitrary: ready)
    (auto simp: unlink_require_def refs_of_upd_same split: option.splits)

lemma refs_of_prune_previous [simp]:
  "refs_of (fst (prune_previous prov h ms ready remove)) = refs_of ready"
  by (induction prov h ms ready remove rule: prune_previous.induct)
    (auto simp: Let_def refs_of_upd_same Option.bind_eq_Some_conv split: option.splits prod.splits)

lemma refs_of_prune_unlock [simp]: "refs_of (fst (prune_unlock hs ready ind)) = refs_of ready"
  by (induction hs ready ind rule: prune_unlock.induct)
    (auto simp: Let_def refs_of_upd_same split: option.splits)

lemma refs_of_link:
  "link_requires prov h ms ready ind off = Some (ready', ind', off') \<Longrightarrow> refs_of ready' = refs_of ready"
  by (induction prov h ms ready ind off rule: link_requires.induct)
    (auto simp: refs_of_upd_same split: option.splits)

lemma prune_unlock_ind:
  assumes "bset_ok ref_cmp_key ind" "\<forall>x \<in> set ind. refs_of ready (rf_hash x) = Some x"
    and "\<forall>h x. refs_of ready h = Some x \<longrightarrow> rf_hash x = h"
  shows "bset_ok ref_cmp_key (snd (prune_unlock hs ready ind)) \<and>
    (\<forall>x \<in> set (snd (prune_unlock hs ready ind)). refs_of ready (rf_hash x) = Some x)"
  using assms
proof (induction hs ready ind rule: prune_unlock.induct)
  case (2 h hs ready ind)
  show ?case
  proof (cases "fmlookup ready h")
    case (Some t)
    let ?t = "t\<lparr>rt_requires_offset := rt_requires_offset t + 1\<rparr>"
    let ?ind = "if rt_requires_offset ?t = length (pt_requires (rf_transaction (rt_transaction ?t)))
                then ind_insert (rt_transaction ?t) ind else ind"
    have same: "refs_of (fmupd h ?t ready) = refs_of ready"
      using Some by (simp add: refs_of_upd_same)
    have "refs_of ready (rf_hash (rt_transaction t)) = Some (rt_transaction t)"
      using Some "2.prems"(3) by (metis refs_of_def option.simps(9))
    then have "\<forall>x \<in> set ?ind. refs_of ready (rf_hash x) = Some x"
      using bset.set_insert_subset [OF "2.prems"(1), of "rt_transaction t"] "2.prems"(2)
      by (auto simp: ind_insert_def)
    moreover have "bset_ok ref_cmp_key ?ind"
      using "2.prems"(1) by (simp add: ind_insert_def bset_ok_insert)
    ultimately have "bset_ok ref_cmp_key (snd (prune_unlock hs (fmupd h ?t ready) ?ind)) \<and>
      (\<forall>x \<in> set (snd (prune_unlock hs (fmupd h ?t ready) ?ind)). refs_of ready (rf_hash x) = Some x)"
      by (intro "2.IH"(2) [OF Some refl, unfolded same] "2.prems"(3))
    moreover have "prune_unlock (h # hs) ready ind = prune_unlock hs (fmupd h ?t ready) ?ind"
      using Some by (simp only: prune_unlock.simps option.case Let_def)
    ultimately show ?thesis by metis
  qed (use 2 in simp)
qed simp

subsection \<open>Removing one transaction\<close>

lemma lookup_fold_drop: "fmlookup (fold fmdrop ms prov) m = (if m \<in> set ms then None else fmlookup prov m)"
  by (induction ms arbitrary: prov) auto

lemma ready_inv_remove:
  assumes inv: "ready_inv D prov refs ind" and x: "refs h = Some x"
    and prov: "\<And>m. fmlookup prov' m = (if m \<in> K then None else fmlookup prov m)"
    and K: "K \<subseteq> set (pt_provides (rf_transaction x))" "set (pt_provides (rf_transaction x)) \<subseteq> K \<union> D"
  shows "ready_inv D prov' (refs(h := None)) (ind_remove x ind)"
proof -
  note D = ready_invD [OF inv]
  have other: "m \<notin> K" if "refs h' = Some y" "h' \<noteq> h" "m \<in> set (pt_provides (rf_transaction y))" for h' y m
    using D(4) [OF that(1,3)] D(4) [OF x] K(1) that(2) by fastforce
  have left: "\<exists>y. (refs(h := None)) h' = Some y \<and> m \<in> set (pt_provides (rf_transaction y))"
    if a: "fmlookup prov' m = Some h'" and b: "m \<notin> D" for m h'
  proof -
    from a have m: "fmlookup prov m = Some h'" "m \<notin> K" by (auto simp: prov split: if_splits)
    then obtain y where y: "refs h' = Some y" "m \<in> set (pt_provides (rf_transaction y))"
      using D(1) b by blast
    moreover have "h' \<noteq> h" using m(2) b K(2) x y by auto
    ultimately show ?thesis by simp
  qed
  have ind: "refs (rf_hash y) = Some y \<and> rf_hash y \<noteq> h" if "y \<in> set (ind_remove x ind)" for y
    using that D(6) x by (fastforce simp: ind_remove_def bset.set_remove [OF D(5)])
  show ?thesis
    unfolding ready_inv_def
    using left other D(2-4) ind bset_ok_remove [OF D(5)]
    by (fastforce simp: prov ind_remove_def split: if_splits)
qed

lemma map_le_NoneD: "m \<subseteq>\<^sub>m n \<Longrightarrow> n k = None \<Longrightarrow> m k = None"
  by (cases "m k") (auto simp: map_le_def dom_def)

lemma map_le_SomeD: "m \<subseteq>\<^sub>m n \<Longrightarrow> m k = Some v \<Longrightarrow> n k = Some v"
  by (auto simp: map_le_def dom_def)

text \<open>
  \<open>shrinks r r' txs\<close>: \<open>r'\<close> is \<open>r\<close> without the transactions \<open>txs\<close>; nothing was added or renamed.
\<close>

definition shrinks :: "ReadyTransactions \<Rightarrow> ReadyTransactions \<Rightarrow> PoolTransaction list \<Rightarrow> bool" where
  "shrinks r r' txs \<longleftrightarrow>
     refs_of (ready_tx r') \<subseteq>\<^sub>m refs_of (ready_tx r) \<and>
     fmlookup (provided_markers r') \<subseteq>\<^sub>m fmlookup (provided_markers r) \<and>
     set txs = {rf_transaction x |h x. refs_of (ready_tx r) h = Some x \<and> refs_of (ready_tx r') h = None} \<and>
     rd_id r' = rd_id r"

lemma shrinks_refl: "shrinks r r []"
  by (auto simp: shrinks_def)

lemma shrinks_trans:
  assumes "shrinks r r1 a" "shrinks r1 r2 b"
  shows "shrinks r r2 (a @ b)"
proof -
  have sub: "refs_of (ready_tx r2) \<subseteq>\<^sub>m refs_of (ready_tx r1)" "refs_of (ready_tx r1) \<subseteq>\<^sub>m refs_of (ready_tx r)"
    using assms by (auto simp: shrinks_def)
  have keep: "refs_of (ready_tx r1) h = Some x \<Longrightarrow> refs_of (ready_tx r) h = Some x" for h x
    using sub(2) by (rule map_le_SomeD)
  have gone: "refs_of (ready_tx r1) h = None \<Longrightarrow> refs_of (ready_tx r2) h = None" for h
    using sub(1) by (rule map_le_NoneD)
  have "{rf_transaction x |h x. refs_of (ready_tx r) h = Some x \<and> refs_of (ready_tx r2) h = None} =
     {rf_transaction x |h x. refs_of (ready_tx r) h = Some x \<and> refs_of (ready_tx r1) h = None} \<union>
     {rf_transaction x |h x. refs_of (ready_tx r1) h = Some x \<and> refs_of (ready_tx r2) h = None}"
  proof (intro equalityI subsetI)
    fix u
    assume "u \<in> {rf_transaction x |h x. refs_of (ready_tx r) h = Some x \<and> refs_of (ready_tx r2) h = None}"
    then obtain h x where u: "u = rf_transaction x" "refs_of (ready_tx r) h = Some x"
      "refs_of (ready_tx r2) h = None" by blast
    show "u \<in> {rf_transaction x |h x. refs_of (ready_tx r) h = Some x \<and> refs_of (ready_tx r1) h = None} \<union>
     {rf_transaction x |h x. refs_of (ready_tx r1) h = Some x \<and> refs_of (ready_tx r2) h = None}"
    proof (cases "refs_of (ready_tx r1) h")
      case None
      with u show ?thesis by blast
    next
      case (Some y)
      with keep [OF Some] u show ?thesis by auto
    qed
  qed (use keep gone in blast)
  with assms show ?thesis
    by (auto simp: shrinks_def intro: map_le_trans)
qed

abbreviation filter_within :: "TxMarker set option \<Rightarrow> TxMarker set \<Rightarrow> bool" where
  "filter_within f D \<equiv> (case f of None \<Rightarrow> True | Some F \<Rightarrow> F \<subseteq> D)"

lemma detach_inv:
  assumes inv: "wf_ready_but D r" and t: "fmlookup (ready_tx r) h = Some t" and f: "filter_within f D"
  shows "wf_ready_but D (detach f h t r)"
proof -
  have x: "refs_of (ready_tx r) h = Some (rt_transaction t)" using t by (simp add: refs_of_def)
  have "ready_inv D (fold fmdrop (invalidated f t) (provided_markers r))
      ((refs_of (ready_tx r))(h := None)) (ind_remove (rt_transaction t) (independent_transactions r))"
    by (rule ready_inv_remove [OF inv [unfolded wf_ready_but_def] x, of _ "set (invalidated f t)"])
      (use f in \<open>auto simp: lookup_fold_drop invalidated_def split: option.splits\<close>)
  then show ?thesis by (simp add: wf_ready_but_def detach_def Let_def)
qed

lemma detach_shrinks:
  "fmlookup (ready_tx r) h = Some t \<Longrightarrow> shrinks r (detach f h t r) [rf_transaction (rt_transaction t)]"
  by (auto simp: shrinks_def detach_def Let_def map_le_def lookup_fold_drop refs_of_def dom_def
      split: if_splits)

lemma shrinks_None: "shrinks r r' txs \<Longrightarrow> refs_of (ready_tx r) h = None \<Longrightarrow> refs_of (ready_tx r') h = None"
  unfolding shrinks_def by (blast intro: map_le_NoneD)

lemma remove_loop_Nil [simp]: "remove_loop f [] removed r = (removed, r)"
  by (simp add: remove_loop.simps)

lemma remove_loop_snoc:
  "remove_loop f (hs @ [h]) removed r =
     (case fmlookup (ready_tx r) h of
        None \<Rightarrow> remove_loop f hs removed r
      | Some t \<Rightarrow> remove_loop f (if invalidated f t \<noteq> [] then hs @ rt_unlocks t else hs)
          (removed @ [rf_transaction (rt_transaction t)]) (detach f h t r))"
  by (simp add: remove_loop.simps [of f "hs @ [h]"])

lemma remove_loop_inv:
  assumes "wf_ready_but D r" "filter_within f D"
  shows "\<exists>txs r'. remove_loop f hs removed r = (removed @ txs, r') \<and> wf_ready_but D r' \<and>
    shrinks r r' txs \<and> (\<forall>h \<in> set hs. refs_of (ready_tx r') h = None)"
  using assms
proof (induction f hs removed r rule: remove_loop.induct)
  case (1 f hs removed r)
  show ?case
  proof (cases hs rule: rev_cases)
    case Nil
    with "1.prems" show ?thesis by (auto intro: shrinks_refl)
  next
    case (snoc ks h)
    then have ne: "hs \<noteq> []" and h: "last hs = h" and ks: "butlast hs = ks" by auto
    show ?thesis
    proof (cases "fmlookup (ready_tx r) h")
      case None
      then have "refs_of (ready_tx r) h = None" by (simp add: refs_of_def)
      with "1.IH"(1) [OF ne refl refl, unfolded h ks, OF None "1.prems"] None snoc shrinks_None
      show ?thesis by (fastforce simp: remove_loop_snoc)
    next
      case (Some t)
      let ?tx = "rf_transaction (rt_transaction t)" and ?r = "detach f h t r"
      let ?rest = "if invalidated f t \<noteq> [] then ks @ rt_unlocks t else ks"
      from "1.IH"(2) [OF ne refl refl, unfolded h ks,
          OF Some detach_inv [OF "1.prems"(1) Some "1.prems"(2)] "1.prems"(2)]
      obtain txs r' where r': "remove_loop f ?rest (removed @ [?tx]) ?r = ((removed @ [?tx]) @ txs, r')"
        "wf_ready_but D r'" "shrinks ?r r' txs" "\<forall>h \<in> set ?rest. refs_of (ready_tx r') h = None"
        by blast
      have "refs_of (ready_tx ?r) h = None" by (simp add: detach_def Let_def)
      with r'(3,4) have "\<forall>h \<in> set hs. refs_of (ready_tx r') h = None"
        by (auto simp: snoc shrinks_None split: if_splits)
      moreover have "shrinks r r' (?tx # txs)"
        using shrinks_trans [OF detach_shrinks [OF Some] r'(3)] by simp
      moreover have "remove_loop f hs removed r = (removed @ (?tx # txs), r')"
        using r'(1) by (simp add: snoc remove_loop_snoc Some)
      ultimately show ?thesis using r'(2) by blast
    qed
  qed
qed

text \<open>
  The contract of \<open>remove_with_markers\<close>: the listed transactions are gone, and what it returns is
  exactly what left the queue.
\<close>

lemma remove_with_markers_inv:
  assumes "wf_ready_but D r" "filter_within f D"
  obtains txs r' where "remove_with_markers hs f r = (txs, r')" "wf_ready_but D r'" "shrinks r r' txs"
    "\<forall>h \<in> set hs. refs_of (ready_tx r') h = None"
  using remove_loop_inv [OF assms, of hs "[]"] by (auto simp: remove_with_markers_def)

subsection \<open>Pruning\<close>

lemma prune_provides_ok:
  assumes "distinct ms" "\<forall>m \<in> set ms. fmlookup prov m = (if c = m then None else Some h)"
  shows "\<exists>prov'. prune_provides c h ms prov = Some prov' \<and>
    (\<forall>m. fmlookup prov' m = (if m \<in> set ms then None else fmlookup prov m))"
  using assms
proof (induction ms arbitrary: prov)
  case (Cons a ms)
  then have "\<forall>m \<in> set ms. fmlookup (fmdrop a prov) m = (if c = m then None else Some h)" by auto
  then obtain prov' where "prune_provides c h ms (fmdrop a prov) = Some prov'"
    "\<forall>m. fmlookup prov' m = (if m \<in> set ms then None else fmlookup (fmdrop a prov) m)"
    using Cons.IH Cons.prems(1) by (metis distinct.simps(2))
  with Cons.prems(2) show ?case by auto
qed simp

lemma prune_one_inv:
  assumes wf: "wf_ready r" and m: "fmlookup (provided_markers r) m = Some h"
    and t: "fmlookup (ready_tx r) h = Some t"
  shows "\<exists>remove' r'. prune_one m h t remove r = Some (remove', r') \<and> wf_ready r' \<and>
    shrinks r r' [rf_transaction (rt_transaction t)]"
proof -
  let ?x = "rt_transaction t" and ?refs = "refs_of (ready_tx r)"
  note inv = wf [unfolded wf_ready_def wf_ready_but_def]
  have x: "?refs h = Some ?x" using t by (simp add: refs_of_def)
  have mx: "m \<in> set (rt_provides t)" using ready_invD(1) [OF inv m] x by auto
  have hx: "rf_hash ?x = h" using ready_invD(2) [OF inv x] .
  have "\<forall>n \<in> set (rt_provides t). fmlookup (fmdrop m (provided_markers r)) n = (if m = n then None else Some h)"
    using ready_invD(4) [OF inv x] by simp
  then obtain prov' where prov': "prune_provides m h (rt_provides t) (fmdrop m (provided_markers r)) = Some prov'"
    "\<And>n. fmlookup prov' n = (if n \<in> set (rt_provides t) then None else fmlookup (fmdrop m (provided_markers r)) n)"
    using prune_provides_ok [OF ready_invD(3) [OF inv x]] by blast
  have look: "fmlookup prov' n = (if n \<in> set (rt_provides t) then None else fmlookup (provided_markers r) n)" for n
    using prov'(2) mx by auto
  have rem: "ready_inv {} prov' (?refs(h := None)) (ind_remove ?x (independent_transactions r))"
    by (rule ready_inv_remove [OF inv x look]) simp_all
  obtain ready remove' where pp: "prune_previous (fmdrop m (provided_markers r)) h
      (pt_requires (rf_transaction ?x)) (fmdrop h (ready_tx r)) remove = (ready, remove')"
    by fastforce
  then have refs: "refs_of ready = ?refs(h := None)"
    using refs_of_prune_previous [of "fmdrop m (provided_markers r)" h] by (metis fst_conv refs_of_drop)
  obtain ready' ind where pu: "prune_unlock (rt_unlocks t) ready
      (ind_remove ?x (independent_transactions r)) = (ready', ind)" by fastforce
  then have refs': "refs_of ready' = ?refs(h := None)"
    using refs_of_prune_unlock [of "rt_unlocks t" ready] refs by (metis fst_conv)
  have ind: "bset_ok ref_cmp_key ind \<and> (\<forall>x \<in> set ind. (?refs(h := None)) (rf_hash x) = Some x)"
    using prune_unlock_ind [of "ind_remove ?x (independent_transactions r)" ready "rt_unlocks t"]
      ready_invD(2,5,6) [OF rem] by (simp add: pu refs)
  let ?r = "r\<lparr>provided_markers := prov', ready_tx := ready', independent_transactions := ind\<rparr>"
  have "prune_one m h t remove r = Some (remove', ?r)"
    by (simp add: prune_one_def Let_def hx pp pu prov'(1))
  moreover have "wf_ready ?r"
    using rem ind by (simp add: wf_ready_def wf_ready_but_def refs' ready_inv_def)
  moreover have "shrinks r ?r [rf_transaction ?x]"
    using x by (auto simp: shrinks_def refs' map_le_def look dom_def split: if_splits)
  ultimately show ?thesis by blast
qed

lemma prune_previous_grows: "set remove \<subseteq> set (snd (prune_previous prov h ms ready remove))"
proof (induction ms arbitrary: ready remove)
  case (Cons m ms)
  have app: "set remove \<subseteq> set (snd (prune_previous prov h ms ready' (remove @ xs)))" for ready' xs
    using Cons.IH [of "remove @ xs" ready'] by simp
  show ?case
    by (simp add: Let_def app Cons.IH split: option.split prod.split)
qed simp

lemma prune_one_grows:
  assumes "prune_one m h t remove r = Some (remove', r')"
  shows "set remove \<subseteq> set remove'"
proof -
  let ?tx = "rf_transaction (rt_transaction t)"
  have "remove' = snd (prune_previous (fmdrop m (provided_markers r)) (pt_hash ?tx) (pt_requires ?tx)
      (fmdrop h (ready_tx r)) remove)"
    using assms unfolding prune_one_def Let_def by (clarsimp split: prod.splits)
  then show ?thesis by (simp add: prune_previous_grows)
qed

lemma prune_loop_inv:
  assumes "wf_ready r"
  shows "\<exists>txs r'. prune_loop remove removed r = Some (removed @ txs, r') \<and> wf_ready r' \<and>
    shrinks r r' txs \<and> (\<forall>m \<in> set remove. fmlookup (provided_markers r') m = None)"
  using assms
proof (induction remove removed r rule: prune_loop.induct)
  case (1 remove removed r)
  show ?case
  proof (cases remove rule: rev_cases)
    case Nil
    with "1.prems" show ?thesis by (auto simp: prune_loop.simps intro: shrinks_refl)
  next
    case (snoc ms m)
    then have ne: "remove \<noteq> []" and m: "last remove = m" and ms: "butlast remove = ms" by auto
    show ?thesis
    proof (cases "fmlookup (provided_markers r) m")
      case None
      with "1.IH"(1) [OF ne refl refl, unfolded m ms, OF None "1.prems"] snoc
      show ?thesis by (fastforce simp: prune_loop.simps [of "ms @ [m]"] shrinks_def dest: map_le_NoneD)
    next
      case (Some h)
      obtain t where t: "fmlookup (ready_tx r) h = Some t"
        using ready_invD(1) [OF "1.prems" [unfolded wf_ready_def wf_ready_but_def] Some]
        by (auto simp: refs_of_def)
      let ?tx = "rf_transaction (rt_transaction t)"
      obtain remove' r1 where one: "prune_one m h t ms r = Some (remove', r1)" "wf_ready r1"
        "shrinks r r1 [?tx]"
        using prune_one_inv [OF "1.prems" Some t] by blast
      obtain txs r' where r': "prune_loop remove' (removed @ [?tx]) r1 = Some ((removed @ [?tx]) @ txs, r')"
        "wf_ready r'" "shrinks r1 r' txs" "\<forall>m \<in> set remove'. fmlookup (provided_markers r') m = None"
        using "1.IH"(3) [OF ne refl refl, unfolded m ms, OF Some t one(1) refl one(2)] by blast
      have "fmlookup (provided_markers r1) m = None"
        using prune_one_provided [OF one(1)] by (metis Diff_iff fmlookup_dom'_iff insertI1 option.exhaust)
      then have "\<forall>m \<in> set remove. fmlookup (provided_markers r') m = None"
        using r'(3,4) prune_one_grows [OF one(1)] map_le_NoneD by (fastforce simp: snoc shrinks_def)
      moreover have "shrinks r r' (?tx # txs)"
        using shrinks_trans [OF one(3) r'(3)] by simp
      moreover have "prune_loop remove removed r = Some (removed @ (?tx # txs), r')"
        using r'(1) by (simp add: snoc prune_loop.simps [of "ms @ [m]"] Some t one(1))
      ultimately show ?thesis using r'(2) by blast
    qed
  qed
qed

lemma prune_tags_inv:
  assumes "wf_ready r"
  obtains txs r' where "prune_tags m r = Some (txs, r')" "wf_ready r'" "shrinks r r' txs"
    "fmlookup (provided_markers r') m = None"
  using prune_loop_inv [OF assms, of "[m]" "[]"] by (auto simp: prune_tags_def)

subsection \<open>Adding\<close>

lemma check_replaced_Err:
  "check_replaced tx ts u = Err e \<longleftrightarrow>
     e = ReplacementUnderpriced tx \<and>
     (\<exists>t \<in> set ts. rt_provides t = pt_provides tx \<and> pt_gas_price tx \<le> rt_gas_price t)"
  by (induction tx ts u rule: check_replaced.induct) auto

lemma link_requires_ok:
  assumes "\<forall>m \<in> set ms. \<forall>other. fmlookup prov m = Some other \<longrightarrow> refs_of ready other \<noteq> None"
  shows "\<exists>ready' ind' off'. link_requires prov h ms ready ind off = Some (ready', ind', off')"
  using assms
proof (induction prov h ms ready ind off rule: link_requires.induct)
  case (2 prov h m ms ready ind off)
  then show ?case
    by (auto simp: refs_of_upd_same refs_of_dom fmlookup_dom_iff split: option.splits)
qed simp

text \<open>The queue after \<open>tx\<close> was added and the transactions \<open>removed\<close> it replaces were removed.\<close>

definition ready_added :: "ReadyTransactions \<Rightarrow> PoolTransaction \<Rightarrow> PoolTransaction list \<Rightarrow> ReadyTransactions \<Rightarrow> bool" where
  "ready_added r tx removed r' \<longleftrightarrow>
     (\<exists>r1 x. shrinks r r1 removed \<and> rf_transaction x = tx \<and>
        refs_of (ready_tx r') = (refs_of (ready_tx r1))(pt_hash tx \<mapsto> x) \<and>
        (\<forall>m. fmlookup (provided_markers r') m =
           (if m \<in> set (pt_provides tx) then Some (pt_hash tx) else fmlookup (provided_markers r1) m)))"

definition tx_ok :: "PoolTransaction \<Rightarrow> bool" where
  "tx_ok tx \<longleftrightarrow> distinct (pt_provides tx) \<and> set (pt_requires tx) \<inter> set (pt_provides tx) = {}"

lemma lookup_fold_upd:
  "fmlookup (fold (\<lambda>m. fmupd m h) ms prov) m = (if m \<in> set ms then Some h else fmlookup prov m)"
  by (induction ms arbitrary: prov) auto

lemma ready_inv_add:
  assumes inv: "ready_inv D prov refs ind" and h: "refs h = None" and D: "D \<subseteq> set (pt_provides tx)"
    and tx: "distinct (pt_provides tx)" "pt_hash tx = h" "rf_transaction x = tx"
    and other: "\<And>h' y m. refs h' = Some y \<Longrightarrow> m \<in> set (pt_provides (rf_transaction y)) \<Longrightarrow> m \<notin> set (pt_provides tx)"
    and prov': "\<And>m. fmlookup prov' m = (if m \<in> set (pt_provides tx) then Some h else fmlookup prov m)"
    and ind': "ind' = ind \<or> ind' = ind_insert x ind"
  shows "ready_inv {} prov' (refs(h \<mapsto> x)) ind'"
proof -
  note I = ready_invD [OF inv]
  have ok: "bset_ok ref_cmp_key ind'" and sub: "set ind' \<subseteq> insert x (set ind)"
    using ind' I(5) bset_ok_insert [OF I(5)] bset.set_insert_subset [OF I(5), of x]
    by (auto simp: ind_insert_def)
  have "(refs(h \<mapsto> x)) (rf_hash y) = Some y" if "y \<in> set ind'" for y
  proof (cases "y = x")
    case False
    with that sub I(6) have "refs (rf_hash y) = Some y" by blast
    with h show ?thesis by auto
  qed (use tx in simp)
  moreover have "\<exists>y. (refs(h \<mapsto> x)) k = Some y \<and> m \<in> set (pt_provides (rf_transaction y))"
    if "fmlookup prov' m = Some k" for m k
    using that I(1) [of m k] h subsetD [OF D, of m] tx(3)
    by (cases "m \<in> D") (auto simp: prov' split: if_splits)
  moreover have "rf_hash y = k \<and> distinct (pt_provides (rf_transaction y)) \<and>
      (\<forall>m \<in> set (pt_provides (rf_transaction y)). fmlookup prov' m = Some k)"
    if "(refs(h \<mapsto> x)) k = Some y" for k y
    using that I(2-4) tx other by (auto simp: prov' split: if_splits)
  ultimately show ?thesis using ok by (simp add: ready_inv_def)
qed

lemma set_map_filter: "set (List.map_filter f xs) = {y. \<exists>x \<in> set xs. f x = Some y}"
  by (induction xs) (auto simp: List.map_filter_def)

text \<open>
  The transactions a new one replaces: either the new one is underpriced against a stored one with
  the same markers, and nothing changes, or all providers of its markers are removed.
\<close>

lemma remove_hashes_iff:
  "h \<in> remove_hashes tx r \<longleftrightarrow> (\<exists>m \<in> set (pt_provides tx). fmlookup (provided_markers r) m = Some h)"
  by (auto simp: remove_hashes_def set_map_filter)

definition underpriced :: "PoolTransaction \<Rightarrow> ReadyTransactions \<Rightarrow> bool" where
  "underpriced tx r \<longleftrightarrow> (\<exists>h t. h \<in> remove_hashes tx r \<and> fmlookup (ready_tx r) h = Some t \<and>
     rt_provides t = pt_provides tx \<and> pt_gas_price tx \<le> rt_gas_price t)"

lemma replaced_transactions_cases:
  assumes hs: "hasher_ok hs" and wf: "wf_ready r"
  obtains (err) "underpriced tx r"
      "replaced_transactions hs tx r = (Err (ReplacementUnderpriced tx), r)"
    | (ok) removed unlocked r1 where "\<not> underpriced tx r"
      "replaced_transactions hs tx r = (Ok (removed, unlocked), r1)"
      "wf_ready_but (set (pt_provides tx)) r1" "shrinks r r1 removed"
      "\<forall>h \<in> remove_hashes tx r. refs_of (ready_tx r1) h = None"
proof -
  let ?H = "remove_hashes tx r" and ?D = "set (pt_provides tx)"
  let ?ts = "List.map_filter (fmlookup (ready_tx r)) (hash_iter hs ?H)"
  have H: "set (hash_iter hs ?H) = ?H" using hs by (simp add: hasher_ok_def)
  have wfD: "wf_ready_but ?D r"
    using wf ready_inv_mono unfolding wf_ready_def wf_ready_but_def by blast
  have err_iff: "check_replaced tx ?ts [] = Err e \<longleftrightarrow> e = ReplacementUnderpriced tx \<and> underpriced tx r" for e
    by (auto simp: check_replaced_Err underpriced_def set_map_filter H)
  show thesis
  proof (cases "?H = {}")
    case True
    then show thesis
      by (intro ok [of "[]" "[]" r]) (simp_all add: replaced_transactions_def underpriced_def wfD shrinks_refl)
  next
    case False
    show thesis
    proof (cases "check_replaced tx ?ts []")
      case (Err e)
      then have "e = ReplacementUnderpriced tx" "underpriced tx r" using err_iff [of e] by auto
      with Err False show thesis by (intro err) (simp_all add: replaced_transactions_def)
    next
      case (Ok unlocked)
      obtain txs r1 where r1: "remove_with_markers (hash_iter hs ?H) (Some ?D) r = (txs, r1)"
        "wf_ready_but ?D r1" "shrinks r r1 txs" "\<forall>h \<in> set (hash_iter hs ?H). refs_of (ready_tx r1) h = None"
        using remove_with_markers_inv [OF wfD, of "Some ?D" "hash_iter hs ?H"] by auto
      have "\<not> underpriced tx r" using err_iff [of "ReplacementUnderpriced tx"] Ok by auto
      with Ok False r1 H show thesis by (intro ok) (simp_all add: replaced_transactions_def)
    qed
  qed
qed

lemma ready_add_cases:
  assumes hs: "hasher_ok hs" and wf: "wf_ready r" and rdy: "pp_is_ready tx"
    and fresh: "\<not> ready_contains (pp_hash tx) r" and tx: "tx_ok (pp_transaction tx)"
  obtains (err) "underpriced (pp_transaction tx) r"
      "ready_add hs tx r = Some (Err (ReplacementUnderpriced (pp_transaction tx)), r)"
    | (ok) removed r' where "\<not> underpriced (pp_transaction tx) r" "ready_add hs tx r = Some (Ok removed, r')"
      "wf_ready r'" "ready_added r (pp_transaction tx) removed r'"
proof (cases rule: replaced_transactions_cases [OF hs wf, of "pp_transaction tx"])
  case 1
  with rdy fresh show thesis
    by (intro err) (simp_all add: ready_add_def ready_contains_def)
next
  case (2 removed unlocked r1)
  let ?tx = "pp_transaction tx" and ?h = "pp_hash tx"
  let ?x = "\<lparr>rf_transaction = ?tx, rf_id = rd_id r1\<rparr>"
  note inv = \<open>wf_ready_but (set (pt_provides ?tx)) r1\<close> [unfolded wf_ready_but_def]
  have h: "refs_of (ready_tx r1) ?h = None"
    using fresh shrinks_None [OF 2(4)] by (simp add: ready_contains_def refs_of_dom)
  have "\<forall>m \<in> set (pt_requires ?tx). \<forall>other. fmlookup (provided_markers r1) m = Some other \<longrightarrow>
      refs_of (ready_tx r1) other \<noteq> None"
    using tx ready_invD(1) [OF inv] by (fastforce simp: tx_ok_def)
  from link_requires_ok [OF this] obtain ready indep off where
    link: "link_requires (provided_markers r1) ?h (pt_requires ?tx) (ready_tx r1) True 0 = Some (ready, indep, off)"
    by blast
  let ?ind = "if indep then ind_insert ?x (independent_transactions r1) else independent_transactions r1"
  let ?prov = "fold (\<lambda>m. fmupd m ?h) (pt_provides ?tx) (provided_markers r1)"
  let ?r = "r1\<lparr>rd_id := rd_id r1 + 1, provided_markers := ?prov, independent_transactions := ?ind,
     ready_tx := fmupd ?h \<lparr>rt_transaction = ?x, rt_unlocks = unlocked, rt_requires_offset = off\<rparr> ready\<rparr>"
  have refs: "refs_of (ready_tx ?r) = (refs_of (ready_tx r1))(?h \<mapsto> ?x)"
    using refs_of_link [OF link] by (simp add: refs_of_upd)
  have other: "m \<notin> set (pt_provides ?tx)"
    if "refs_of (ready_tx r1) h' = Some y" "m \<in> set (pt_provides (rf_transaction y))" for h' y m
  proof
    assume "m \<in> set (pt_provides ?tx)"
    moreover have "fmlookup (provided_markers r) m = Some h'"
      using ready_invD(4) [OF inv that] 2(4) by (auto simp: shrinks_def intro: map_le_SomeD)
    ultimately have "h' \<in> remove_hashes ?tx r" by (auto simp: remove_hashes_iff)
    with 2(5) that(1) show False by auto
  qed
  have "wf_ready ?r"
    unfolding wf_ready_def wf_ready_but_def refs
    using tx by (intro ready_inv_add [OF inv h subset_refl _ refl _ other])
      (simp_all add: tx_ok_def lookup_fold_upd)
  moreover have "ready_added r ?tx removed ?r"
    unfolding ready_added_def refs using 2(4)
    by (intro exI [of _ r1] exI [of _ ?x]) (simp add: lookup_fold_upd)
  moreover have "ready_add hs tx r = Some (Ok removed, ?r)"
    using rdy fresh 2(2) link by (simp add: ready_add_def ready_contains_def next_id_def Let_def)
  ultimately show thesis using 2(1) ok by blast
qed

section \<open>What the iterator yields\<close>

definition stored :: "ready_map \<Rightarrow> PoolTransactionRef \<Rightarrow> bool" where
  "stored ready x \<longleftrightarrow> refs_of ready (rf_hash x) = Some x"

definition iter_ok :: "TransactionsIterator \<Rightarrow> bool" where
  "iter_ok it \<longleftrightarrow> bset_ok ref_cmp_key (it_independent it) \<and>
     (\<forall>h t. fmlookup (it_all it) h = Some t \<longrightarrow> stored (it_all it) (rt_transaction t)) \<and>
     (\<forall>x \<in> set (it_independent it). stored (it_all it) x) \<and>
     (\<forall>h v. fmlookup (it_awaiting it) h = Some v \<longrightarrow> stored (it_all it) (snd v))"

lemma iter_okD:
  assumes "iter_ok it"
  shows "bset_ok ref_cmp_key (it_independent it)"
    and "fmlookup (it_all it) h = Some t \<Longrightarrow> stored (it_all it) (rt_transaction t)"
    and "x \<in> set (it_independent it) \<Longrightarrow> stored (it_all it) x"
    and "fmlookup (it_awaiting it) h = Some v \<Longrightarrow> stored (it_all it) (snd v)"
  using assms unfolding iter_ok_def by blast+

lemma iter_ok_get_transactions:
  assumes "wf_ready r"
  shows "iter_ok (get_transactions r)"
proof -
  note inv = ready_invD [OF assms [unfolded wf_ready_def wf_ready_but_def]]
  have "stored (ready_tx r) (rt_transaction t)" if "fmlookup (ready_tx r) h = Some t" for h t
  proof -
    have x: "refs_of (ready_tx r) h = Some (rt_transaction t)" using that by (simp add: refs_of_def)
    then show ?thesis using inv(2) [OF x] by (simp add: stored_def)
  qed
  with inv(5,6) show ?thesis by (simp add: iter_ok_def get_transactions_def stored_def)
qed

lemma independent_or_awaiting_ok:
  assumes "iter_ok it" "stored (it_all it) x"
  shows "iter_ok (independent_or_awaiting n x it) \<and>
    it_all (independent_or_awaiting n x it) = it_all it"
  using assms bset_ok_insert [OF iter_okD(1) [OF assms(1)], of x]
    bset.set_insert_subset [OF iter_okD(1) [OF assms(1)], of x]
  by (auto simp: iter_ok_def independent_or_awaiting_def ind_insert_def)

lemma iter_unlock_ok:
  assumes ok: "iter_ok it"
  shows "iter_ok (iter_unlock h it) \<and> it_all (iter_unlock h it) = it_all it"
proof (cases "fmlookup (it_awaiting it) h")
  case None
  with ok show ?thesis
    by (simp add: iter_unlock_def independent_or_awaiting_ok iter_okD(2) split: option.split)
next
  case (Some a)
  obtain n x where a: "a = (n, x)" by force
  let ?it = "it\<lparr>it_awaiting := fmdrop h (it_awaiting it)\<rparr>"
  have "iter_ok ?it" using ok by (auto simp: iter_ok_def split: if_splits)
  moreover have "stored (it_all ?it) x" using iter_okD(4) [OF ok Some] a by simp
  ultimately show ?thesis
    using independent_or_awaiting_ok [of ?it x "n + 1"] Some a by (simp add: iter_unlock_def)
qed

lemma iter_unlocks_ok: "iter_ok it \<Longrightarrow> iter_ok (fold iter_unlock hs it) \<and> it_all (fold iter_unlock hs it) = it_all it"
  by (induction hs arbitrary: it) (auto simp: iter_unlock_ok)

lemma iter_next_best:
  assumes ok: "iter_ok it" and ne: "it_independent it \<noteq> []"
  shows "\<exists>it'. iter_next it = Some (rf_transaction (last (it_independent it)), it') \<and>
    iter_ok it' \<and> it_all it' = it_all it"
proof -
  let ?x = "last (it_independent it)" and ?it = "it\<lparr>it_independent := butlast (it_independent it)\<rparr>"
  have "stored (it_all it) ?x"
    using iter_okD(3) [OF ok] ne by simp
  then obtain t where t: "fmlookup (it_all it) (rf_hash ?x) = Some t" by (auto simp: stored_def refs_of_def)
  have "bset_ok ref_cmp_key (butlast (it_independent it))"
    using iter_okD(1) [OF ok] by (auto simp: bset_ok_def map_butlast sorted_butlast distinct_butlast)
  then have "iter_ok ?it" using ok by (auto simp: iter_ok_def dest: in_set_butlastD)
  with t ne iter_unlocks_ok [of ?it "rt_unlocks t"] show ?thesis
    by (simp add: iter_next.simps [of it])
qed

lemma iter_take_sound:
  "iter_ok it \<Longrightarrow> tx \<in> set (iter_take n it) \<Longrightarrow> \<exists>x. stored (it_all it) x \<and> rf_transaction x = tx"
proof (induction n arbitrary: it)
  case (Suc n)
  show ?case
  proof (cases "it_independent it = []")
    case True
    with Suc.prems show ?thesis by (simp add: iter_next.simps [of it])
  next
    case False
    then obtain it' where it': "iter_next it = Some (rf_transaction (last (it_independent it)), it')"
      "iter_ok it'" "it_all it' = it_all it"
      using iter_next_best [OF Suc.prems(1)] by blast
    have "stored (it_all it) (last (it_independent it))"
      using iter_okD(3) [OF Suc.prems(1)] False by simp
    with Suc.IH [OF it'(2)] Suc.prems(2) it' show ?thesis by auto
  qed
qed simp

end
