(* ===== verification/Pool.thy ===== *)
theory Pool
  imports PoolReady
begin

text \<open>
  \<open>anvil/src/eth/pool/mod.rs\<close>: the pool over the two queues.  \<open>wf_pool\<close> joins the invariants of
  the queues with what holds between them: no transaction is in both, and no queued transaction
  waits for a marker that a ready one provides.  From the empty pool, whatever sequence of
  operations runs, no operation panics.
\<close>

section \<open>Operations\<close>

record PoolInner =
  ready_transactions :: ReadyTransactions
  pending_transactions :: PendingTransactions

definition pool_empty :: PoolInner where
  "pool_empty = \<lparr>ready_transactions = ready_empty, pending_transactions = pend_empty\<rparr>"

text \<open>\<open>pool::ReadyTransaction\<close>, the report of an added transaction, and \<open>AddedTransaction\<close>.\<close>

record ReadyReport =
  rr_hash :: TxHash
  rr_promoted :: "TxHash list"
  rr_discarded :: "TxHash list"
  rr_removed :: "PoolTransaction list"

definition report_new :: "TxHash \<Rightarrow> ReadyReport" where
  "report_new h = \<lparr>rr_hash = h, rr_promoted = [], rr_discarded = [], rr_removed = []\<rparr>"

datatype AddedTransaction = AddedReady ReadyReport | AddedPending TxHash

fun added_hash :: "AddedTransaction \<Rightarrow> TxHash" where
  "added_hash (AddedReady tx) = rr_hash tx"
| "added_hash (AddedPending h) = h"

definition pool_contains :: "TxHash \<Rightarrow> PoolInner \<Rightarrow> bool" where
  "pool_contains h p \<longleftrightarrow> pend_contains h (pending_transactions p) \<or> ready_contains h (ready_transactions p)"

definition pool_get_transaction :: "TxHash \<Rightarrow> PoolInner \<Rightarrow> PendingTransaction option" where
  "pool_get_transaction h p =
     (case pend_get h (pending_transactions p) of
        Some w \<Rightarrow> Some (pt_pending_transaction (pp_transaction w))
      | None \<Rightarrow> map_option (\<lambda>t. pt_pending_transaction (rf_transaction (rt_transaction t)))
                 (ready_get h (ready_transactions p)))"

text \<open>The loop of \<open>add_ready_transaction\<close>; the queue shrinks or the pending queue does.\<close>

function add_ready_loop :: "hasher \<Rightarrow> PendingPoolTransaction list \<Rightarrow> bool \<Rightarrow> ReadyReport \<Rightarrow> PoolInner \<Rightarrow>
    ((ReadyReport, PoolError) result \<times> PoolInner) option" where
  "add_ready_loop hs tx_queue is_new_tx ready p =
     (case tx_queue of
        [] \<Rightarrow> Some (Ok ready, p)
      | current_tx # rest \<Rightarrow>
          (case mark_and_unlock hs (pt_provides (pp_transaction current_tx)) (pending_transactions p) of
             None \<Rightarrow> None
           | Some (unlocked, pend) \<Rightarrow>
               (case ready_add hs current_tx (ready_transactions p) of
                  None \<Rightarrow> None
                | Some (Ok replaced, rdy) \<Rightarrow>
                    add_ready_loop hs (rest @ unlocked) False
                      (ready\<lparr>rr_promoted := (if is_new_tx then rr_promoted ready
                                              else rr_promoted ready @ [pp_hash current_tx]),
                             rr_removed := rr_removed ready @ replaced\<rparr>)
                      \<lparr>ready_transactions = rdy, pending_transactions = pend\<rparr>
                | Some (Err err, rdy) \<Rightarrow>
                    if is_new_tx
                    then Some (Err err, \<lparr>ready_transactions = rdy, pending_transactions = pend\<rparr>)
                    else add_ready_loop hs (rest @ unlocked) False
                      (ready\<lparr>rr_discarded := rr_discarded ready @ [pp_hash current_tx]\<rparr>)
                      \<lparr>ready_transactions = rdy, pending_transactions = pend\<rparr>)))"
  by pat_completeness auto
termination
  by (relation "measure (\<lambda>(hs, q, n, rep, p). pend_len (pending_transactions p) + length q)")
    (auto dest!: mark_and_unlock_len)

declare add_ready_loop.simps [simp del]

definition add_ready_transaction :: "hasher \<Rightarrow> PendingPoolTransaction \<Rightarrow> PoolInner \<Rightarrow>
    ((AddedTransaction, PoolError) result \<times> PoolInner) option" where
  "add_ready_transaction hs tx p =
     (let h = pp_hash tx in
      case add_ready_loop hs [tx] True (report_new h) p of
        None \<Rightarrow> None
      | Some (Err e, p') \<Rightarrow> Some (Err e, p')
      | Some (Ok ready, p') \<Rightarrow>
          if list_ex (\<lambda>t. pt_hash t = h) (rr_removed ready)
          then Some (Err CyclicTransaction,
            p'\<lparr>ready_transactions := snd (clear_transactions (rr_promoted ready) (ready_transactions p'))\<rparr>)
          else Some (Ok (AddedReady ready), p'))"

definition pool_add :: "hasher \<Rightarrow> nat \<Rightarrow> PoolTransaction \<Rightarrow> PoolInner \<Rightarrow>
    ((AddedTransaction, PoolError) result \<times> PoolInner) option" where
  "pool_add hs now tx p =
     (if pool_contains (pt_hash tx) p then Some (Err (AlreadyImported tx), p)
      else let ptx = pp_new tx (provided_markers (ready_transactions p)) now in
        if \<not> pp_is_ready ptx then
          (case pend_add hs ptx (pending_transactions p) of
             None \<Rightarrow> None
           | Some (Err e, pend) \<Rightarrow> Some (Err e, p\<lparr>pending_transactions := pend\<rparr>)
           | Some (Ok _, pend) \<Rightarrow>
               Some (Ok (AddedPending (pt_hash tx)), p\<lparr>pending_transactions := pend\<rparr>))
        else add_ready_transaction hs ptx p)"

record PruneResult =
  pr_promoted :: "AddedTransaction list"
  pr_failed :: "TxHash list"
  pr_pruned :: "PoolTransaction list"

text \<open>\<open>prune_markers\<close>: first every marker is checked off and pruned, then the unlocked are added.\<close>

fun prune_marks :: "hasher \<Rightarrow> TxMarker list \<Rightarrow> PendingPoolTransaction list \<Rightarrow> PoolTransaction list \<Rightarrow> PoolInner \<Rightarrow>
    (PendingPoolTransaction list \<times> PoolTransaction list \<times> PoolInner) option" where
  "prune_marks hs [] imports pruned p = Some (imports, pruned, p)"
| "prune_marks hs (m # ms) imports pruned p =
     (case mark_and_unlock hs [m] (pending_transactions p) of
        None \<Rightarrow> None
      | Some (unlocked, pend) \<Rightarrow>
          (case prune_tags m (ready_transactions p) of
             None \<Rightarrow> None
           | Some (txs, rdy) \<Rightarrow>
               prune_marks hs ms (imports @ unlocked) (pruned @ txs)
                 \<lparr>ready_transactions = rdy, pending_transactions = pend\<rparr>))"

fun promote_imports :: "hasher \<Rightarrow> PendingPoolTransaction list \<Rightarrow> PruneResult \<Rightarrow> PoolInner \<Rightarrow>
    (PruneResult \<times> PoolInner) option" where
  "promote_imports hs [] res p = Some (res, p)"
| "promote_imports hs (tx # txs) res p =
     (case add_ready_transaction hs tx p of
        None \<Rightarrow> None
      | Some (Ok a, p') \<Rightarrow> promote_imports hs txs (res\<lparr>pr_promoted := pr_promoted res @ [a]\<rparr>) p'
      | Some (Err e, p') \<Rightarrow> promote_imports hs txs (res\<lparr>pr_failed := pr_failed res @ [pp_hash tx]\<rparr>) p')"

definition prune_markers :: "hasher \<Rightarrow> TxMarker list \<Rightarrow> PoolInner \<Rightarrow> (PruneResult \<times> PoolInner) option" where
  "prune_markers hs markers p =
     (case prune_marks hs markers [] [] p of
        None \<Rightarrow> None
      | Some (imports, pruned, p') \<Rightarrow>
          promote_imports hs imports \<lparr>pr_promoted = [], pr_failed = [], pr_pruned = pruned\<rparr> p')"

definition remove_invalid :: "hasher \<Rightarrow> TxHash list \<Rightarrow> PoolInner \<Rightarrow> PoolTransaction list \<times> PoolInner" where
  "remove_invalid hs tx_hashes p =
     (if tx_hashes = [] then ([], p)
      else let (removed, rdy) = remove_with_markers tx_hashes None (ready_transactions p);
               (waiting, pend) = pend_remove hs tx_hashes (pending_transactions p)
           in (removed @ waiting, \<lparr>ready_transactions = rdy, pending_transactions = pend\<rparr>))"

text \<open>\<open>Pool::on_mined_block\<close> and \<open>Pool::drop_transaction\<close>\<close>

definition on_mined_block :: "hasher \<Rightarrow> PoolTransaction list \<Rightarrow> PoolTransaction list \<Rightarrow> PoolInner \<Rightarrow>
    (PruneResult \<times> PoolInner) option" where
  "on_mined_block hs included invalid p =
     (let (_, p') = remove_invalid hs (map pt_hash invalid) p
      in prune_markers hs (concat (map pt_provides included)) p')"

definition drop_transaction :: "TxHash \<Rightarrow> PoolInner \<Rightarrow> PoolTransaction option \<times> PoolInner" where
  "drop_transaction tx p =
     (let (removed, rdy) = remove_with_markers [tx] None (ready_transactions p)
      in (find (\<lambda>t. pt_hash t = tx) removed, p\<lparr>ready_transactions := rdy\<rparr>))"

definition txpool_queued :: "PoolInner \<Rightarrow> nat" where
  "txpool_queued p = pend_len (pending_transactions p)"

section \<open>The invariant\<close>

text \<open>
  \<open>wf_pool\<close>: both queues are well-formed, no hash is in both, and a queued transaction misses only
  markers that no ready transaction provides.
\<close>

definition wf_pool :: "PoolInner \<Rightarrow> bool" where
  "wf_pool p \<longleftrightarrow> wf_pending (pending_transactions p) \<and> wf_ready (ready_transactions p) \<and>
     (\<forall>h w. pend_get h (pending_transactions p) = Some w \<longrightarrow>
        \<not> ready_contains h (ready_transactions p) \<and> tx_ok (pp_transaction w) \<and>
        (\<forall>m \<in> pp_missing_markers w. fmlookup (provided_markers (ready_transactions p)) m = None))"

text \<open>A list of transactions that can be made ready: none of them is in the pool.\<close>

definition queue_ok :: "PoolInner \<Rightarrow> PendingPoolTransaction list \<Rightarrow> bool" where
  "queue_ok p q \<longleftrightarrow> distinct (map pp_hash q) \<and>
     (\<forall>t \<in> set q. pp_is_ready t \<and> tx_ok (pp_transaction t) \<and> \<not> pool_contains (pp_hash t) p)"

lemma wf_poolD:
  assumes "wf_pool p"
  shows "wf_pending (pending_transactions p)" and "wf_ready (ready_transactions p)"
    and "fmlookup (waiting_queue (pending_transactions p)) h = Some w \<Longrightarrow>
      \<not> ready_contains h (ready_transactions p)"
    and "fmlookup (waiting_queue (pending_transactions p)) h = Some w \<Longrightarrow> tx_ok (pp_transaction w)"
    and "fmlookup (waiting_queue (pending_transactions p)) h = Some w \<Longrightarrow> m \<in> pp_missing_markers w \<Longrightarrow>
      fmlookup (provided_markers (ready_transactions p)) m = None"
  using assms by (auto simp: wf_pool_def pend_get_def)

lemma wf_pool_empty: "wf_pool pool_empty"
  by (simp add: wf_pool_def pool_empty_def wf_pend_empty wf_ready_empty)
    (simp add: pend_get_def pend_empty_def)

lemma ready_contains_refs: "ready_contains h r \<longleftrightarrow> refs_of (ready_tx r) h \<noteq> None"
  by (auto simp: ready_contains_def refs_of_def fmlookup_dom_iff)

lemma pend_contains_lookup: "pend_contains h p \<longleftrightarrow> (\<exists>w. fmlookup (waiting_queue p) h = Some w)"
  by (simp add: pend_contains_def fmlookup_dom_iff)

lemma pool_contains_iff:
  "pool_contains h p \<longleftrightarrow>
     (\<exists>w. fmlookup (waiting_queue (pending_transactions p)) h = Some w) \<or> ready_contains h (ready_transactions p)"
  by (simp add: pool_contains_def pend_contains_lookup)

lemma shrinks_contains: "shrinks r r' txs \<Longrightarrow> ready_contains h r' \<Longrightarrow> ready_contains h r"
  by (metis ready_contains_refs shrinks_None)

lemma shrinks_provided:
  "shrinks r r' txs \<Longrightarrow> fmlookup (provided_markers r) m = None \<Longrightarrow> fmlookup (provided_markers r') m = None"
  unfolding shrinks_def by (blast intro: map_le_NoneD)

text \<open>\<open>less_waiting p p'\<close>: the pending queue only lost transactions and missing markers.\<close>

definition less_waiting :: "PendingTransactions \<Rightarrow> PendingTransactions \<Rightarrow> bool" where
  "less_waiting p p' \<longleftrightarrow> wf_pending p' \<and>
     (\<forall>h w. fmlookup (waiting_queue p') h = Some w \<longrightarrow>
        (\<exists>u. fmlookup (waiting_queue p) h = Some u \<and> pp_transaction u = pp_transaction w \<and>
           pp_missing_markers w \<subseteq> pp_missing_markers u))"

lemma less_waiting_refl: "wf_pending p \<Longrightarrow> less_waiting p p"
  by (auto simp: less_waiting_def)

lemma less_waitingE:
  assumes "less_waiting p p'" "fmlookup (waiting_queue p') h = Some w"
  obtains u where "fmlookup (waiting_queue p) h = Some u" "pp_transaction u = pp_transaction w"
    "pp_missing_markers w \<subseteq> pp_missing_markers u"
  using assms unfolding less_waiting_def by blast

lemma less_waiting_Some:
  "less_waiting p p' \<Longrightarrow> fmlookup (waiting_queue p') h = Some w \<Longrightarrow> \<exists>u. fmlookup (waiting_queue p) h = Some u"
  by (auto elim: less_waitingE)

lemma mark_effect_less: "mark_effect M p out p' \<Longrightarrow> less_waiting p p'"
  by (auto simp: less_waiting_def marked_entry_def mark_effect_def split: option.splits if_splits)

text \<open>Losing transactions keeps the invariant.\<close>

lemma wf_pool_less:
  assumes wf: "wf_pool p" and sh: "shrinks (ready_transactions p) r' txs" and r': "wf_ready r'"
    and less: "less_waiting (pending_transactions p) w'"
  shows "wf_pool \<lparr>ready_transactions = r', pending_transactions = w'\<rparr>"
proof -
  have "\<not> ready_contains h r' \<and> tx_ok (pp_transaction w) \<and>
      (\<forall>m \<in> pp_missing_markers w. fmlookup (provided_markers r') m = None)"
    if w: "fmlookup (waiting_queue w') h = Some w" for h w
  proof -
    obtain u where u: "fmlookup (waiting_queue (pending_transactions p)) h = Some u"
      "pp_transaction u = pp_transaction w" "pp_missing_markers w \<subseteq> pp_missing_markers u"
      using less_waitingE [OF less w] .
    show ?thesis
      using wf_poolD(3-5) [OF wf u(1)] u(2,3) shrinks_contains [OF sh] shrinks_provided [OF sh]
      by auto
  qed
  with r' less show ?thesis by (simp add: wf_pool_def pend_get_def less_waiting_def)
qed

lemma pool_contains_less:
  assumes "shrinks (ready_transactions p) r' txs" "less_waiting (pending_transactions p) w'"
    and "pool_contains h \<lparr>ready_transactions = r', pending_transactions = w'\<rparr>"
  shows "pool_contains h p"
  using assms(3) shrinks_contains [OF assms(1)] less_waiting_Some [OF assms(2)]
  by (auto simp: pool_contains_iff)

section \<open>Promotion\<close>

text \<open>The transactions a set of markers unlocks can be made ready.\<close>

lemma unlocked_queue_ok:
  assumes wf: "wf_pool p" and eff: "mark_effect M (pending_transactions p) out w'"
    and r': "\<And>h w. fmlookup (waiting_queue (pending_transactions p)) h = Some w \<Longrightarrow> \<not> ready_contains h r'"
  shows "queue_ok \<lparr>ready_transactions = r', pending_transactions = w'\<rparr> out"
proof -
  have "pp_is_ready t \<and> tx_ok (pp_transaction t) \<and>
      \<not> pool_contains (pp_hash t) \<lparr>ready_transactions = r', pending_transactions = w'\<rparr>"
    if "t \<in> set out" for t
  proof -
    from that have "t \<in> unlocked_by M (pending_transactions p)"
      using mark_effectD(3) [OF eff] by simp
    then obtain u where u: "fmlookup (waiting_queue (pending_transactions p)) (pp_hash t) = Some u"
      "t = marked M u" "pp_missing_markers u \<subseteq> M"
      using unlocked_by_hash [OF wf_poolD(1) [OF wf]] by blast
    have "fmlookup (waiting_queue w') (pp_hash t) = None"
      using mark_effectD(2) [OF eff, of "pp_hash t"] u(1,3) by (simp add: marked_entry_def)
    with r' [OF u(1)] wf_poolD(4) [OF wf u(1)] u(2,3) show ?thesis
      by (simp add: pool_contains_iff)
  qed
  with mark_effectD(4) [OF eff] show ?thesis by (simp add: queue_ok_def)
qed

lemma queue_ok_append:
  assumes "queue_ok p a" "queue_ok p b" "set (map pp_hash a) \<inter> set (map pp_hash b) = {}"
  shows "queue_ok p (a @ b)"
  using assms by (auto simp: queue_ok_def)

lemma queue_ok_less:
  assumes "queue_ok p q" "\<And>t. t \<in> set q \<Longrightarrow> pool_contains (pp_hash t) p' \<Longrightarrow> pool_contains (pp_hash t) p"
  shows "queue_ok p' q"
  using assms by (auto simp: queue_ok_def)

lemma unlocked_hash_waits:
  assumes "wf_pool p" "mark_effect M (pending_transactions p) out w'" "h \<in> set (map pp_hash out)"
  shows "pool_contains h p"
  using assms unlocked_by_hash [OF wf_poolD(1) [OF assms(1)]]
  by (auto simp: pool_contains_iff mark_effect_def)

text \<open>One transaction made ready: what it unlocks joins the rest of the list.\<close>

lemma promote_one:
  assumes hs: "hasher_ok hs" and wf: "wf_pool p" and q: "queue_ok p (c # q)"
  obtains out w' res r' where
    "mark_and_unlock hs (pt_provides (pp_transaction c)) (pending_transactions p) = Some (out, w')"
    "ready_add hs c (ready_transactions p) = Some (res, r')"
    "wf_pool \<lparr>ready_transactions = r', pending_transactions = w'\<rparr>"
    "queue_ok \<lparr>ready_transactions = r', pending_transactions = w'\<rparr> (q @ out)"
proof -
  note goal = that
  let ?r = "ready_transactions p" and ?w = "pending_transactions p" and ?tx = "pp_transaction c"
  obtain out w' where mark: "mark_and_unlock hs (pt_provides ?tx) ?w = Some (out, w')"
    and eff: "mark_effect (set (pt_provides ?tx)) ?w out w'"
    using mark_and_unlock_effect [OF hs wf_poolD(1) [OF wf]] .
  have less: "less_waiting ?w w'" by (rule mark_effect_less [OF eff])
  have c: "pp_is_ready c" "tx_ok ?tx" "\<not> ready_contains (pp_hash c) ?r"
    and cw: "fmlookup (waiting_queue ?w) (pp_hash c) = None"
    using q by (auto simp: queue_ok_def pool_contains_iff)
  have waits: "\<And>h. h \<in> set (map pp_hash out) \<Longrightarrow> pool_contains h p"
    by (rule unlocked_hash_waits [OF wf eff])
  have main: thesis
    if add: "ready_add hs c ?r = Some (res, r')"
      and wf': "wf_pool \<lparr>ready_transactions = r', pending_transactions = w'\<rparr>" (is "wf_pool ?p'")
      and new: "\<And>h. ready_contains h r' \<Longrightarrow> ready_contains h ?r \<or> h = pp_hash c" for res r'
  proof -
    have cont: "pool_contains h ?p' \<Longrightarrow> pool_contains h p \<or> h = pp_hash c" for h
      using new less_waiting_Some [OF less, of h] by (auto simp: pool_contains_iff)
    have "queue_ok p q" "\<And>t. t \<in> set q \<Longrightarrow> pp_hash t \<noteq> pp_hash c"
      using q by (auto simp: queue_ok_def image_iff)
    then have "queue_ok ?p' q" using cont by (blast intro: queue_ok_less)
    moreover have "queue_ok ?p' out"
      using new wf_poolD(3) [OF wf] cw by (intro unlocked_queue_ok [OF wf eff]) fastforce
    moreover have "set (map pp_hash q) \<inter> set (map pp_hash out) = {}"
      using q waits by (auto simp: queue_ok_def)
    ultimately have "queue_ok ?p' (q @ out)" by (rule queue_ok_append)
    from mark add wf' this show thesis by (rule goal)
  qed
  show thesis
  proof (cases rule: ready_add_cases [OF hs wf_poolD(2) [OF wf] c(1,3,2)])
    case 1
    show thesis
      by (rule main [OF 1(2)]) (auto intro: wf_pool_less [OF wf shrinks_refl wf_poolD(2) [OF wf] less])
  next
    case (2 removed r')
    then obtain r1 x where sh: "shrinks ?r r1 removed"
      and refs: "refs_of (ready_tx r') = (refs_of (ready_tx r1))(pp_hash c \<mapsto> x)"
      and prov: "\<And>m. fmlookup (provided_markers r') m =
         (if m \<in> set (pt_provides ?tx) then Some (pp_hash c) else fmlookup (provided_markers r1) m)"
      unfolding ready_added_def by blast
    have new: "ready_contains h r' \<Longrightarrow> ready_contains h ?r \<or> h = pp_hash c" for h
      using shrinks_contains [OF sh, of h] by (auto simp: ready_contains_refs refs split: if_splits)
    have "\<not> ready_contains h r' \<and> tx_ok (pp_transaction w) \<and>
        (\<forall>m \<in> pp_missing_markers w. fmlookup (provided_markers r') m = None)"
      if w: "fmlookup (waiting_queue w') h = Some w" for h w
    proof -
      have "marked_entry (set (pt_provides ?tx)) (fmlookup (waiting_queue ?w) h) = Some w"
        using mark_effectD(2) [OF eff, of h] w by simp
      then obtain u where u: "fmlookup (waiting_queue ?w) h = Some u" "w = marked (set (pt_provides ?tx)) u"
        by (auto simp: marked_entry_def split: option.splits if_splits)
      show ?thesis
        using wf_poolD(3-5) [OF wf u(1)] u new [of h] cw shrinks_provided [OF sh]
        by (auto simp: prov)
    qed
    then have "wf_pool \<lparr>ready_transactions = r', pending_transactions = w'\<rparr>"
      using 2(3) mark_effectD(1) [OF eff] by (simp add: wf_pool_def pend_get_def)
    with 2(2) show thesis using new by (rule main)
  qed
qed

text \<open>
  The rule for the loop once the new transaction is in: an assertion on the list, the report and the
  pool that every turn keeps holds at the end, and the loop ends without a panic.
\<close>

abbreviation pool_of :: "ReadyTransactions \<Rightarrow> PendingTransactions \<Rightarrow> PoolInner" where
  "pool_of r w \<equiv> \<lparr>ready_transactions = r, pending_transactions = w\<rparr>"

abbreviation promoted_one :: "TxHash \<Rightarrow> PoolTransaction list \<Rightarrow> ReadyReport \<Rightarrow> ReadyReport" where
  "promoted_one h replaced rep \<equiv>
     rep\<lparr>rr_promoted := rr_promoted rep @ [h], rr_removed := rr_removed rep @ replaced\<rparr>"

abbreviation discarded_one :: "TxHash \<Rightarrow> ReadyReport \<Rightarrow> ReadyReport" where
  "discarded_one h rep \<equiv> rep\<lparr>rr_discarded := rr_discarded rep @ [h]\<rparr>"

lemma add_ready_loop_rule:
  assumes hs: "hasher_ok hs" and wf: "wf_pool p" and q: "queue_ok p q" and I: "I q rep p"
    and step: "\<And>c q rep p out w' res r'. wf_pool p \<Longrightarrow> queue_ok p (c # q) \<Longrightarrow> I (c # q) rep p \<Longrightarrow>
      mark_and_unlock hs (pt_provides (pp_transaction c)) (pending_transactions p) = Some (out, w') \<Longrightarrow>
      ready_add hs c (ready_transactions p) = Some (res, r') \<Longrightarrow>
      I (q @ out) (case res of Ok replaced \<Rightarrow> promoted_one (pp_hash c) replaced rep
                  | Err e \<Rightarrow> discarded_one (pp_hash c) rep) (pool_of r' w')"
  shows "\<exists>rep' p'. add_ready_loop hs q False rep p = Some (Ok rep', p') \<and> wf_pool p' \<and> I [] rep' p'"
  using wf q I
proof (induction "pend_len (pending_transactions p) + length q" arbitrary: q rep p rule: less_induct)
  case less
  show ?case
  proof (cases q)
    case Nil
    with less.prems show ?thesis by (simp add: add_ready_loop.simps)
  next
    case q: (Cons c rest)
    obtain out w' res r' where
      st: "mark_and_unlock hs (pt_provides (pp_transaction c)) (pending_transactions p) = Some (out, w')"
        "ready_add hs c (ready_transactions p) = Some (res, r')"
      and wf': "wf_pool (pool_of r' w')" and q': "queue_ok (pool_of r' w') (rest @ out)"
      using promote_one [OF hs less.prems(1,2) [unfolded q]] by blast
    have "pend_len (pending_transactions (pool_of r' w')) + length (rest @ out)
        < pend_len (pending_transactions p) + length q"
      using mark_and_unlock_len [OF st(1)] q by simp
    note IH = less.hyps [OF this wf' q' step [OF less.prems [unfolded q] st]]
    show ?thesis
    proof (cases res)
      case (Ok replaced)
      from IH [unfolded Ok result.case] show ?thesis
        by (simp add: q add_ready_loop.simps [of hs "c # rest"] st Ok)
    next
      case (Err e)
      from IH [unfolded Err result.case] show ?thesis
        by (simp add: q add_ready_loop.simps [of hs "c # rest"] st Err)
    qed
  qed
qed

text \<open>Removing ready transactions by hash, in the pool.\<close>

lemma clear_ok:
  assumes wf: "wf_pool p"
  shows "wf_pool (p\<lparr>ready_transactions := snd (remove_with_markers hashes None (ready_transactions p))\<rparr>)"
    and "pool_contains h (p\<lparr>ready_transactions := snd (remove_with_markers hashes None (ready_transactions p))\<rparr>) \<Longrightarrow>
      pool_contains h p"
proof -
  have f: "filter_within None {}" by simp
  have "wf_ready_but {} (ready_transactions p)" using wf_poolD(2) [OF wf] by (simp add: wf_ready_def)
  then obtain txs r' where r': "remove_with_markers hashes None (ready_transactions p) = (txs, r')"
    "wf_ready_but {} r'" "shrinks (ready_transactions p) r' txs"
    using remove_with_markers_inv [OF _ f] by metis
  have p': "p\<lparr>ready_transactions := r'\<rparr> =
      \<lparr>ready_transactions = r', pending_transactions = pending_transactions p\<rparr>"
    by (cases p) simp
  have less: "less_waiting (pending_transactions p) (pending_transactions p)"
    using wf_poolD(1) [OF wf] by (rule less_waiting_refl)
  show "wf_pool (p\<lparr>ready_transactions := snd (remove_with_markers hashes None (ready_transactions p))\<rparr>)"
    using wf_pool_less [OF wf r'(3) _ less] r' by (simp add: p' wf_ready_def)
  show "pool_contains h (p\<lparr>ready_transactions := snd (remove_with_markers hashes None (ready_transactions p))\<rparr>) \<Longrightarrow>
      pool_contains h p"
    using pool_contains_less [OF r'(3) less] r' by (simp add: p')
qed

text \<open>What a ready transaction does to the ready queue.\<close>

lemma ready_add_effect:
  assumes hs: "hasher_ok hs" and wf: "wf_pool p" and q: "queue_ok p (c # q)"
    and add: "ready_add hs c (ready_transactions p) = Some (res, r')"
  shows "case res of
      Ok replaced \<Rightarrow>
        \<not> underpriced (pp_transaction c) (ready_transactions p) \<and>
        (\<forall>h. ready_contains h r' \<or> h \<in> pt_hash ` set replaced \<longleftrightarrow>
             ready_contains h (ready_transactions p) \<or> h = pp_hash c) \<and>
        (\<forall>h \<in> pt_hash ` set replaced. \<not> ready_contains h r')
    | Err e \<Rightarrow> underpriced (pp_transaction c) (ready_transactions p) \<and> r' = ready_transactions p \<and>
        e = ReplacementUnderpriced (pp_transaction c)"
proof -
  let ?r = "ready_transactions p"
  have c: "pp_is_ready c" "tx_ok (pp_transaction c)" and fresh: "\<not> ready_contains (pp_hash c) ?r"
    using q by (auto simp: queue_ok_def pool_contains_iff)
  show ?thesis
  proof (cases rule: ready_add_cases [OF hs wf_poolD(2) [OF wf] c(1) fresh c(2)])
    case 1
    with add have "res = Err (ReplacementUnderpriced (pp_transaction c))" "r' = ?r" by simp_all
    with 1(1) show ?thesis by simp
  next
    case (2 removed r2)
    with add have res: "res = Ok removed" "r' = r2" by simp_all
    from 2 obtain r1 x where sh: "shrinks ?r r1 removed"
      and refs: "refs_of (ready_tx r2) = (refs_of (ready_tx r1))(pp_hash c \<mapsto> x)"
      unfolding ready_added_def by blast
    have own: "refs_of (ready_tx ?r) h = Some x \<Longrightarrow> rf_hash x = h" for h x
      using wf_poolD(2) [OF wf] by (simp add: wf_ready_def wf_ready_but_def ready_invD(2))
    have rem: "pt_hash ` set removed = {h. ready_contains h ?r \<and> \<not> ready_contains h r1}"
    proof -
      have set: "set removed = {rf_transaction x |h x. refs_of (ready_tx ?r) h = Some x \<and> refs_of (ready_tx r1) h = None}"
        using sh by (simp add: shrinks_def)
      show ?thesis unfolding set ready_contains_refs by (auto dest: own)
    qed
    have r2: "ready_contains h r2 \<longleftrightarrow> ready_contains h r1 \<or> h = pp_hash c" for h
      by (simp add: ready_contains_refs refs)
    show ?thesis
      using 2(1) fresh shrinks_contains [OF sh]
      by (simp only: res result.case rem r2 mem_Collect_eq) blast
  qed
qed

text \<open>
  The ledger of the loop: the hashes \<open>C\<close> are in the pool, in the list, or reported as gone, and
  what is gone is nowhere else.  The new transaction \<open>h0\<close> is ready or was removed again.
\<close>

definition gone :: "ReadyReport \<Rightarrow> TxHash set" where
  "gone rep = pt_hash ` set (rr_removed rep) \<union> set (rr_discarded rep)"

definition waiting_hashes :: "PendingTransactions \<Rightarrow> TxHash set" where
  "waiting_hashes w = {h. pend_contains h w}"

definition ready_hashes :: "ReadyTransactions \<Rightarrow> TxHash set" where
  "ready_hashes r = {h. ready_contains h r}"

definition pool_hashes :: "PoolInner \<Rightarrow> TxHash set" where
  "pool_hashes p = waiting_hashes (pending_transactions p) \<union> ready_hashes (ready_transactions p)"

definition ledger :: "TxHash set \<Rightarrow> TxHash \<Rightarrow> PendingPoolTransaction list \<Rightarrow> ReadyReport \<Rightarrow> PoolInner \<Rightarrow> bool" where
  "ledger C h0 q rep p \<longleftrightarrow>
     C = pool_hashes p \<union> set (map pp_hash q) \<union> gone rep \<and>
     gone rep \<inter> (pool_hashes p \<union> set (map pp_hash q)) = {} \<and>
     h0 \<notin> waiting_hashes (pending_transactions p) \<and> h0 \<notin> set (map pp_hash q) \<and>
     h0 \<notin> set (rr_discarded rep) \<and> h0 \<in> C \<and> rr_hash rep = h0"

lemma in_hashes [simp]:
  "h \<in> waiting_hashes w \<longleftrightarrow> pend_contains h w"
  "h \<in> ready_hashes r \<longleftrightarrow> ready_contains h r"
  "h \<in> pool_hashes p \<longleftrightarrow> pool_contains h p"
  by (simp_all add: waiting_hashes_def ready_hashes_def pool_hashes_def pool_contains_def)

lemma mark_effect_hashes:
  assumes "wf_pending w" "mark_effect M w out w'"
  shows "waiting_hashes w = waiting_hashes w' \<union> set (map pp_hash out)"
    and "set (map pp_hash out) \<inter> waiting_hashes w' = {}"
proof -
  have out: "h \<in> set (map pp_hash out) \<longleftrightarrow>
      (\<exists>t. fmlookup (waiting_queue w) h = Some t \<and> pp_missing_markers t \<subseteq> M)" for h
  proof
    assume "h \<in> set (map pp_hash out)"
    then show "\<exists>t. fmlookup (waiting_queue w) h = Some t \<and> pp_missing_markers t \<subseteq> M"
      using mark_effectD(3) [OF assms(2)] unlocked_by_hash [OF assms(1)] by fastforce
  next
    assume "\<exists>t. fmlookup (waiting_queue w) h = Some t \<and> pp_missing_markers t \<subseteq> M"
    then obtain t where t: "fmlookup (waiting_queue w) h = Some t" "pp_missing_markers t \<subseteq> M" by blast
    then have "marked M t \<in> set out" "pp_hash (marked M t) = h"
      using mark_effectD(3) [OF assms(2)] wf_pendingD(1) [OF assms(1) t(1)]
      by (auto simp: unlocked_by_def wf_entry_def)
    then show "h \<in> set (map pp_hash out)" by (metis image_eqI list.set_map)
  qed
  have wq: "pend_contains h w' \<longleftrightarrow> (\<exists>t. fmlookup (waiting_queue w) h = Some t \<and> \<not> pp_missing_markers t \<subseteq> M)" for h
    unfolding pend_contains_lookup mark_effectD(2) [OF assms(2)]
    by (auto simp: marked_entry_def split: option.splits)
  show "waiting_hashes w = waiting_hashes w' \<union> set (map pp_hash out)"
    unfolding set_eq_iff Un_iff in_hashes wq out by (auto simp: pend_contains_lookup)
  show "set (map pp_hash out) \<inter> waiting_hashes w' = {}"
    unfolding disjoint_iff in_hashes wq out by auto
qed

text \<open>The step of the ledger, on the sets of hashes alone.\<close>

lemma ledger_sets:
  assumes "C = (P \<union> R) \<union> insert c Q \<union> G" "G \<inter> ((P \<union> R) \<union> insert c Q) = {}"
    and "P = P' \<union> Out" "Out \<inter> P' = {}" "P \<inter> R = {}" "c \<notin> P \<union> R" "c \<notin> Q" "Q \<inter> (P \<union> R) = {}"
    and "R' \<union> D = insert c R" "D \<inter> R' = {}"
  shows "C = (P' \<union> R') \<union> (Q \<union> Out) \<union> (G \<union> D)" "(G \<union> D) \<inter> ((P' \<union> R') \<union> (Q \<union> Out)) = {}"
proof -
  have D: "D \<subseteq> insert c R" "R' \<subseteq> insert c R" using assms(9) by blast+
  have "(P' \<union> R') \<union> (Q \<union> Out) \<union> (G \<union> D) = P \<union> (R' \<union> D) \<union> Q \<union> G" unfolding assms(3) by blast
  then show "C = (P' \<union> R') \<union> (Q \<union> Out) \<union> (G \<union> D)" unfolding assms(9) assms(1) by blast
  have "G \<inter> ((P' \<union> R') \<union> (Q \<union> Out)) = {}" using assms(2) D(2) unfolding assms(3) by blast
  moreover have "D \<inter> P = {}" "D \<inter> Q = {}" using D(1) assms(5-8) by blast+
  then have "D \<inter> ((P' \<union> R') \<union> (Q \<union> Out)) = {}" using assms(10) unfolding assms(3) by blast
  ultimately show "(G \<union> D) \<inter> ((P' \<union> R') \<union> (Q \<union> Out)) = {}" by blast
qed

lemma ledger_step:
  assumes hs: "hasher_ok hs" and wf: "wf_pool p" and q: "queue_ok p (c # q)"
    and led: "ledger C h0 (c # q) rep p"
    and mark: "mark_and_unlock hs (pt_provides (pp_transaction c)) (pending_transactions p) = Some (out, w')"
    and add: "ready_add hs c (ready_transactions p) = Some (res, r')"
  shows "ledger C h0 (q @ out) (case res of Ok replaced \<Rightarrow> promoted_one (pp_hash c) replaced rep
                  | Err e \<Rightarrow> discarded_one (pp_hash c) rep) (pool_of r' w')"
proof -
  let ?P = "waiting_hashes (pending_transactions p)" and ?R = "ready_hashes (ready_transactions p)"
    and ?c = "pp_hash c" and ?Q = "set (map pp_hash q)" and ?rep = "case res of
        Ok replaced \<Rightarrow> promoted_one (pp_hash c) replaced rep | Err e \<Rightarrow> discarded_one (pp_hash c) rep"
  define D where "D = (case res of Ok replaced \<Rightarrow> pt_hash ` set replaced | Err e \<Rightarrow> {?c})"
  have "mark_effect (set (pt_provides (pp_transaction c))) (pending_transactions p) out w'"
    using mark_and_unlock_effect [OF hs wf_poolD(1) [OF wf], of "pt_provides (pp_transaction c)"] mark
    by auto
  note w' = mark_effect_hashes [OF wf_poolD(1) [OF wf] this]
  have disj: "?P \<inter> ?R = {}"
    using wf_poolD(3) [OF wf] by (auto simp: pend_contains_lookup)
  have c: "?c \<notin> ?P \<union> ?R" "?c \<notin> ?Q" "?Q \<inter> (?P \<union> ?R) = {}"
    using q by (auto simp: queue_ok_def pool_contains_def image_iff)
  have gone: "gone ?rep = gone rep \<union> D"
    by (auto simp: gone_def D_def split: result.split)
  have r': "ready_hashes r' \<union> D = insert ?c ?R" "D \<inter> ready_hashes r' = {}"
    using ready_add_effect [OF hs wf q add] c(1) by (auto simp: D_def split: result.splits)
  note led = led [unfolded ledger_def pool_hashes_def list.map list.set]
  have "C = (waiting_hashes w' \<union> ready_hashes r') \<union> (?Q \<union> set (map pp_hash out)) \<union> (gone rep \<union> D)"
    "(gone rep \<union> D) \<inter> ((waiting_hashes w' \<union> ready_hashes r') \<union> (?Q \<union> set (map pp_hash out))) = {}"
    using led by (intro ledger_sets [OF _ _ w' disj c r']; blast)+
  moreover have "h0 \<notin> waiting_hashes w'" "h0 \<notin> ?Q \<union> set (map pp_hash out)"
    using led unfolding w'(1) by blast+
  moreover have "h0 \<notin> set (rr_discarded ?rep)" "rr_hash ?rep = h0"
    using led by (auto split: result.split)
  moreover have "h0 \<in> C" using led by blast
  ultimately show ?thesis
    unfolding ledger_def gone pool_hashes_def PoolInner.simps map_append set_append by blast
qed

text \<open>What becomes of a transaction that is ready when it is added.\<close>

definition ready_outcome :: "PendingPoolTransaction \<Rightarrow> PoolInner \<Rightarrow> (AddedTransaction, PoolError) result \<Rightarrow> PoolInner \<Rightarrow> bool" where
  "ready_outcome tx p res p' \<longleftrightarrow>
     (case res of
        Ok a \<Rightarrow> \<exists>rep. a = AddedReady rep \<and> rr_hash rep = pp_hash tx \<and>
          pp_hash tx \<in> pool_hashes p' \<and>
          insert (pp_hash tx) (pool_hashes p) = pool_hashes p' \<union> gone rep \<and>
          gone rep \<inter> pool_hashes p' = {}
      | Err (ReplacementUnderpriced t) \<Rightarrow> t = pp_transaction tx \<and> p' = p \<and>
          underpriced (pp_transaction tx) (ready_transactions p)
      | Err CyclicTransaction \<Rightarrow> pp_hash tx \<notin> pool_hashes p' \<and> pool_hashes p' \<subseteq> pool_hashes p
      | Err (AlreadyImported t) \<Rightarrow> False)"

text \<open>Markers that a ready transaction provides unlock nothing.\<close>

lemma mark_and_unlock_idle:
  "\<forall>m \<in> set ms. fmlookup (required_markers w) m = None \<Longrightarrow> mark_and_unlock hs ms w = Some ([], w)"
proof -
  have "\<forall>m \<in> set ms. fmlookup (required_markers w) m = None \<Longrightarrow>
      mark_and_unlock_from hs ms acc w = Some (acc, w)" for acc
    by (induction ms) auto
  then show "\<forall>m \<in> set ms. fmlookup (required_markers w) m = None \<Longrightarrow> ?thesis"
    by (simp add: mark_and_unlock_def)
qed

lemma provided_not_required:
  assumes wf: "wf_pool p" and m: "fmlookup (provided_markers (ready_transactions p)) m \<noteq> None"
  shows "fmlookup (required_markers (pending_transactions p)) m = None"
proof (rule ccontr)
  assume "fmlookup (required_markers (pending_transactions p)) m \<noteq> None"
  then obtain S where S: "fmlookup (required_markers (pending_transactions p)) m = Some S" by blast
  with wf_pendingD(3) [OF wf_poolD(1) [OF wf], of m] obtain h where "h \<in> S" by force
  then have "h \<in> waits_for (pending_transactions p) m" using S by (simp add: waits_for_def)
  then obtain t where "fmlookup (waiting_queue (pending_transactions p)) h = Some t" "m \<in> pp_missing_markers t"
    using wf_pendingD(2) [OF wf_poolD(1) [OF wf]] by blast
  from wf_poolD(5) [OF wf this] m show False by simp
qed

lemma underpriced_provided:
  assumes wf: "wf_ready r" and u: "underpriced tx r" and m: "m \<in> set (pt_provides tx)"
  shows "fmlookup (provided_markers r) m \<noteq> None"
proof -
  from u obtain h t where t: "fmlookup (ready_tx r) h = Some t" "rt_provides t = pt_provides tx"
    by (auto simp: underpriced_def)
  then have "refs_of (ready_tx r) h = Some (rt_transaction t)" by (simp add: refs_of_def)
  from ready_invD(4) [OF wf [unfolded wf_ready_def wf_ready_but_def] this] m t(2) show ?thesis by simp
qed

lemma ledger_start:
  assumes hs: "hasher_ok hs" and wf: "wf_pool p" and q: "queue_ok p [tx]"
    and st: "mark_and_unlock hs (pt_provides (pp_transaction tx)) (pending_transactions p) = Some (out, w')"
      "ready_add hs tx (ready_transactions p) = Some (Ok replaced, r')"
  shows "ledger (insert (pp_hash tx) (pool_hashes p)) (pp_hash tx) out
    (report_new (pp_hash tx)\<lparr>rr_removed := replaced\<rparr>) (pool_of r' w')"
proof -
  let ?h = "pp_hash tx"
  have fresh: "?h \<notin> pool_hashes p" using q by (simp add: queue_ok_def)
  have "mark_effect (set (pt_provides (pp_transaction tx))) (pending_transactions p) out w'"
    using mark_and_unlock_effect [OF hs wf_poolD(1) [OF wf], of "pt_provides (pp_transaction tx)"] st(1)
    by auto
  note w'' = mark_effect_hashes [OF wf_poolD(1) [OF wf] this]
  have D: "ready_hashes r' \<union> pt_hash ` set replaced = insert ?h (ready_hashes (ready_transactions p))"
    "pt_hash ` set replaced \<inter> ready_hashes r' = {}"
    using ready_add_effect [OF hs wf q st(2)] by auto
  have disj: "waiting_hashes (pending_transactions p) \<inter> ready_hashes (ready_transactions p) = {}"
    using wf_poolD(3) [OF wf] by (auto simp: pend_contains_lookup)
  have "?h \<notin> waiting_hashes (pending_transactions p) \<union> ready_hashes (ready_transactions p)"
    using fresh by (simp add: pool_contains_def)
  note sets = ledger_sets [OF _ _ w'' disj this _ _ D, of "insert ?h (pool_hashes p)" "{}" "{}"]
  have "?h \<notin> waiting_hashes w' \<union> set (map pp_hash out)"
    using fresh w''(1) by (simp add: pool_hashes_def)
  moreover have "?h \<in> ready_hashes r' \<union> pt_hash ` set replaced" unfolding D(1) by simp
  ultimately show ?thesis using sets
    by (simp add: ledger_def gone_def report_new_def pool_hashes_def)
qed

lemma ledger_end:
  assumes "ledger (insert h0 P) h0 [] rep p"
  shows "rr_hash rep = h0" "insert h0 P = pool_hashes p \<union> gone rep" "gone rep \<inter> pool_hashes p = {}"
    and "h0 \<notin> set (rr_discarded rep)"
    and "h0 \<in> gone rep \<Longrightarrow> h0 \<notin> pool_hashes p \<and> pool_hashes p \<subseteq> P"
    and "h0 \<notin> gone rep \<Longrightarrow> h0 \<in> pool_hashes p"
proof -
  show "rr_hash rep = h0" and C: "insert h0 P = pool_hashes p \<union> gone rep"
    and disj: "gone rep \<inter> pool_hashes p = {}" and "h0 \<notin> set (rr_discarded rep)"
    using assms unfolding ledger_def list.map list.set Un_empty_right by blast+
  have sub: "pool_hashes p \<subseteq> insert h0 P" unfolding C by (rule Un_upper1)
  have mem: "h0 \<in> pool_hashes p \<union> gone rep" unfolding C [symmetric] by (rule insertI1)
  show "h0 \<notin> pool_hashes p \<and> pool_hashes p \<subseteq> P" if "h0 \<in> gone rep"
    using that sub disj by blast
  show "h0 \<in> pool_hashes p" if "h0 \<notin> gone rep"
    using that mem by blast
qed

lemma add_ready_transaction_ok:
  assumes hs: "hasher_ok hs" and wf: "wf_pool p" and q: "queue_ok p [tx]"
  shows "\<exists>res p'. add_ready_transaction hs tx p = Some (res, p') \<and> wf_pool p' \<and> ready_outcome tx p res p'"
proof -
  let ?h = "pp_hash tx"
  obtain out w' res r' where
    st: "mark_and_unlock hs (pt_provides (pp_transaction tx)) (pending_transactions p) = Some (out, w')"
      "ready_add hs tx (ready_transactions p) = Some (res, r')"
    and wf': "wf_pool (pool_of r' w')" and q': "queue_ok (pool_of r' w') out"
    using promote_one [OF hs wf q, unfolded append_Nil] by blast
  note eff = ready_add_effect [OF hs wf q st(2)]
  show ?thesis
  proof (cases res)
    case (Err e)
    with eff have u: "underpriced (pp_transaction tx) (ready_transactions p)" "r' = ready_transactions p"
      "e = ReplacementUnderpriced (pp_transaction tx)" by simp_all
    have "mark_and_unlock hs (pt_provides (pp_transaction tx)) (pending_transactions p) =
        Some ([], pending_transactions p)"
      using underpriced_provided [OF wf_poolD(2) [OF wf] u(1)] provided_not_required [OF wf]
      by (intro mark_and_unlock_idle) blast
    then have "w' = pending_transactions p" using st(1) by simp
    then have "pool_of r' w' = p" using u(2) by simp
    with wf u show ?thesis
      by (simp add: add_ready_transaction_def add_ready_loop.simps [of hs "[tx]"] st Err ready_outcome_def)
  next
    case (Ok replaced)
    let ?rep = "report_new ?h\<lparr>rr_removed := replaced\<rparr>"
    note led = ledger_start [OF hs wf q st(1) st(2) [unfolded Ok]]
    obtain rep' p' where loop: "add_ready_loop hs out False ?rep (pool_of r' w') = Some (Ok rep', p')"
      and p': "wf_pool p'" and led': "ledger (insert ?h (pool_hashes p)) ?h [] rep' p'"
      using add_ready_loop_rule [where I = "ledger (insert ?h (pool_hashes p)) ?h", OF hs wf' q' led]
        ledger_step [OF hs] by blast
    note led' = ledger_end [OF led']
    have run: "add_ready_loop hs [tx] True (report_new ?h) p = Some (Ok rep', p')"
      using loop by (simp add: add_ready_loop.simps [of hs "[tx]"] st Ok report_new_def)
    show ?thesis
    proof (cases "?h \<in> pt_hash ` set (rr_removed rep')")
      case True
      then have ex: "list_ex (\<lambda>t. pt_hash t = ?h) (rr_removed rep')" by (auto simp: list_ex_iff image_iff)
      let ?p = "p'\<lparr>ready_transactions := snd (clear_transactions (rr_promoted rep') (ready_transactions p'))\<rparr>"
      have sub: "pool_hashes ?p \<subseteq> pool_hashes p'"
        using clear_ok(2) [OF p'] by (auto simp: clear_transactions_def)
      have "?h \<in> gone rep'" using True by (simp add: gone_def)
      from led'(5) [OF this] sub have "?h \<notin> pool_hashes ?p \<and> pool_hashes ?p \<subseteq> pool_hashes p" by blast
      with ex clear_ok(1) [OF p'] show ?thesis
        by (simp add: add_ready_transaction_def run ready_outcome_def clear_transactions_def)
    next
      case False
      then have ex: "\<not> list_ex (\<lambda>t. pt_hash t = ?h) (rr_removed rep')" by (auto simp: list_ex_iff image_iff)
      have "?h \<notin> gone rep'" using led'(4) False by (simp add: gone_def)
      from led'(6) [OF this] led'(1-3) have "ready_outcome tx p (Ok (AddedReady rep')) p'"
        by (simp add: ready_outcome_def)
      with p' ex show ?thesis by (simp add: add_ready_transaction_def run)
    qed
  qed
qed

section \<open>The other operations\<close>

text \<open>What becomes of an added transaction.\<close>

definition add_outcome :: "PoolTransaction \<Rightarrow> PoolInner \<Rightarrow> (AddedTransaction, PoolError) result \<Rightarrow> PoolInner \<Rightarrow> bool" where
  "add_outcome tx p res p' \<longleftrightarrow>
     (case res of
        Ok (AddedReady rep) \<Rightarrow> rr_hash rep = pt_hash tx \<and> pt_hash tx \<in> pool_hashes p' \<and>
          insert (pt_hash tx) (pool_hashes p) = pool_hashes p' \<union> gone rep \<and>
          gone rep \<inter> pool_hashes p' = {}
      | Ok (AddedPending h) \<Rightarrow> h = pt_hash tx \<and> pt_hash tx \<notin> pool_hashes p \<and>
          pool_hashes p' = insert (pt_hash tx) (pool_hashes p) \<and> ready_transactions p' = ready_transactions p
      | Err CyclicTransaction \<Rightarrow> pt_hash tx \<notin> pool_hashes p' \<and> pool_hashes p' \<subseteq> pool_hashes p
      | Err (ReplacementUnderpriced t) \<Rightarrow> t = tx \<and> p' = p \<and> pt_hash tx \<notin> pool_hashes p
      | Err (AlreadyImported t) \<Rightarrow> t = tx \<and> p' = p \<and> pt_hash tx \<in> pool_hashes p)"

lemma pool_add_ok:
  assumes hs: "hasher_ok hs" and wf: "wf_pool p" and tx: "tx_ok tx"
  shows "\<exists>res p'. pool_add hs now tx p = Some (res, p') \<and> wf_pool p' \<and> add_outcome tx p res p'"
proof -
  let ?t = "pp_new tx (provided_markers (ready_transactions p)) now"
  have t [simp]: "pp_transaction ?t = tx" "finite (pp_missing_markers ?t)" by (simp_all add: pp_new_def)
  consider "pool_contains (pt_hash tx) p" | "\<not> pool_contains (pt_hash tx) p" "pp_is_ready ?t"
    | "\<not> pool_contains (pt_hash tx) p" "\<not> pp_is_ready ?t" by blast
  then show ?thesis
  proof cases
    case 1
    with wf show ?thesis by (simp add: pool_add_def add_outcome_def)
  next
    case 2
    with tx have "queue_ok p [?t]" by (simp add: queue_ok_def)
    from add_ready_transaction_ok [OF hs wf this] obtain res p' where
      add: "add_ready_transaction hs ?t p = Some (res, p')" and "wf_pool p'" "ready_outcome ?t p res p'"
      by blast
    moreover from this(3) 2 have "add_outcome tx p res p'"
      by (auto simp: ready_outcome_def add_outcome_def split: result.splits PoolError.splits)
    ultimately show ?thesis using 2 by (simp add: pool_add_def)
  next
    case 3
    then obtain r w' where add: "pend_add hs ?t (pending_transactions p) = Some (r, w')"
      using pend_add_no_panic [OF 3(2), of "pending_transactions p" hs] by (auto simp: pool_contains_def)
    note w' = pend_add_wf [OF hs wf_poolD(1) [OF wf] t(2) add]
    have q: "fmlookup (waiting_queue w') h = fmlookup (waiting_queue (pending_transactions p)) h \<or>
        h = pt_hash tx \<and> fmlookup (waiting_queue w') h = Some ?t" for h
      using add by (auto simp: pend_add_def Let_def split: if_splits)
    have miss: "m \<in> pp_missing_markers ?t \<Longrightarrow> fmlookup (provided_markers (ready_transactions p)) m = None" for m
      by (simp add: pp_new_def fmdom_notD)
    have "\<not> ready_contains h (ready_transactions p) \<and> tx_ok (pp_transaction w) \<and>
        (\<forall>m \<in> pp_missing_markers w. fmlookup (provided_markers (ready_transactions p)) m = None)"
      if w: "fmlookup (waiting_queue w') h = Some w" for h w
    proof (cases "fmlookup (waiting_queue w') h = fmlookup (waiting_queue (pending_transactions p)) h")
      case True
      with w have "fmlookup (waiting_queue (pending_transactions p)) h = Some w" by simp
      from wf_poolD(3-5) [OF wf this] show ?thesis by blast
    next
      case False
      with q [of h] w have "h = pt_hash tx" "w = ?t" by auto
      with 3(1) tx miss show ?thesis by (simp add: pool_contains_def)
    qed
    with w' wf_poolD(2) [OF wf] have "wf_pool (p\<lparr>pending_transactions := w'\<rparr>)"
      by (simp add: wf_pool_def pend_get_def)
    moreover have "case r of
        Ok _ \<Rightarrow> add_outcome tx p (Ok (AddedPending (pt_hash tx))) (p\<lparr>pending_transactions := w'\<rparr>)
      | Err e \<Rightarrow> add_outcome tx p (Err e) (p\<lparr>pending_transactions := w'\<rparr>)"
      using add 3 by (auto simp: pend_add_def Let_def add_outcome_def pool_contains_def pend_contains_def
          split: if_splits)
    ultimately show ?thesis using 3 add by (cases r) (auto simp: pool_add_def)
  qed
qed

lemma shrinks_hashes: "shrinks r r' txs \<Longrightarrow> ready_hashes r' \<subseteq> ready_hashes r"
  using shrinks_contains by auto

lemma less_waiting_hashes: "less_waiting w w' \<Longrightarrow> waiting_hashes w' \<subseteq> waiting_hashes w"
  using less_waiting_Some by (auto simp: pend_contains_lookup)

lemma prune_marks_ok:
  assumes hs: "hasher_ok hs" and wf: "wf_pool p" and q: "queue_ok p imps"
  shows "\<exists>imps' pruned' p'. prune_marks hs ms imps pruned p = Some (imps', pruned', p') \<and>
    wf_pool p' \<and> queue_ok p' imps' \<and>
    waiting_hashes (pending_transactions p') \<subseteq> waiting_hashes (pending_transactions p) \<and>
    ready_hashes (ready_transactions p') \<subseteq> ready_hashes (ready_transactions p) \<and>
    set (map pp_hash imps') \<subseteq> set (map pp_hash imps) \<union> waiting_hashes (pending_transactions p) \<and>
    refs_of (ready_tx (ready_transactions p')) \<subseteq>\<^sub>m refs_of (ready_tx (ready_transactions p)) \<and>
    (\<forall>m. m \<in> set ms \<or> fmlookup (provided_markers (ready_transactions p)) m = None \<longrightarrow>
       fmlookup (provided_markers (ready_transactions p')) m = None)"
  using wf q
proof (induction ms arbitrary: imps pruned p)
  case (Cons m ms)
  let ?r = "ready_transactions p" and ?w = "pending_transactions p"
  obtain out w' where mark: "mark_and_unlock hs [m] ?w = Some (out, w')" and eff: "mark_effect {m} ?w out w'"
    using mark_and_unlock_effect [OF hs wf_poolD(1) [OF Cons.prems(1)], of "[m]"] by auto
  obtain txs r' where r': "prune_tags m ?r = Some (txs, r')" "wf_ready r'" "shrinks ?r r' txs"
    "fmlookup (provided_markers r') m = None"
    using prune_tags_inv [OF wf_poolD(2) [OF Cons.prems(1)]] .
  note less = mark_effect_less [OF eff]
  note out = mark_effect_hashes(1) [OF wf_poolD(1) [OF Cons.prems(1)] eff]
  have wf': "wf_pool (pool_of r' w')" by (rule wf_pool_less [OF Cons.prems(1) r'(3,2) less])
  have cont: "\<And>h. pool_contains h (pool_of r' w') \<Longrightarrow> pool_contains h p"
    by (rule pool_contains_less [OF r'(3) less])
  have "queue_ok (pool_of r' w') imps" by (rule queue_ok_less [OF Cons.prems(2) cont])
  moreover have "queue_ok (pool_of r' w') out"
    using wf_poolD(3) [OF Cons.prems(1)] shrinks_contains [OF r'(3)]
    by (intro unlocked_queue_ok [OF Cons.prems(1) eff]) blast
  moreover have "set (map pp_hash imps) \<inter> set (map pp_hash out) = {}"
    using Cons.prems(2) unlocked_hash_waits [OF Cons.prems(1) eff] by (auto simp: queue_ok_def)
  ultimately have q': "queue_ok (pool_of r' w') (imps @ out)" by (rule queue_ok_append)
  have refs: "refs_of (ready_tx r') \<subseteq>\<^sub>m refs_of (ready_tx ?r)" using r'(3) by (simp add: shrinks_def)
  from Cons.IH [OF wf' q', of "pruned @ txs"] obtain imps' pruned' p' where
    run: "prune_marks hs ms (imps @ out) (pruned @ txs) (pool_of r' w') = Some (imps', pruned', p')"
      "wf_pool p'" "queue_ok p' imps'"
    and sub: "waiting_hashes (pending_transactions p') \<subseteq> waiting_hashes w'"
      "ready_hashes (ready_transactions p') \<subseteq> ready_hashes r'"
      "set (map pp_hash imps') \<subseteq> set (map pp_hash (imps @ out)) \<union> waiting_hashes w'"
    and maps: "refs_of (ready_tx (ready_transactions p')) \<subseteq>\<^sub>m refs_of (ready_tx r')"
      "\<And>k. k \<in> set ms \<or> fmlookup (provided_markers r') k = None \<Longrightarrow>
         fmlookup (provided_markers (ready_transactions p')) k = None"
    unfolding PoolInner.simps by blast
  show ?case
  proof (intro exI conjI)
    show "prune_marks hs (m # ms) imps pruned p = Some (imps', pruned', p')"
      using mark r'(1) run(1) by simp
    show "set (map pp_hash imps') \<subseteq> set (map pp_hash imps) \<union> waiting_hashes ?w"
      using sub(3) unfolding out map_append set_append by blast
    show "\<forall>k. k \<in> set (m # ms) \<or> fmlookup (provided_markers ?r) k = None \<longrightarrow>
        fmlookup (provided_markers (ready_transactions p')) k = None"
      using maps(2) r'(4) shrinks_provided [OF r'(3)] by auto
    show "waiting_hashes (pending_transactions p') \<subseteq> waiting_hashes ?w"
      using sub(1) less_waiting_hashes [OF less] by blast
    show "ready_hashes (ready_transactions p') \<subseteq> ready_hashes ?r"
      using sub(2) shrinks_hashes [OF r'(3)] by blast
    show "refs_of (ready_tx (ready_transactions p')) \<subseteq>\<^sub>m refs_of (ready_tx ?r)"
      using maps(1) refs by (rule map_le_trans)
  qed (rule run)+
qed simp

lemma promote_imports_ok:
  assumes hs: "hasher_ok hs" and wf: "wf_pool p" and q: "queue_ok p txs"
  shows "\<exists>res' p'. promote_imports hs txs res p = Some (res', p') \<and> wf_pool p' \<and>
    pool_hashes p' \<subseteq> pool_hashes p \<union> set (map pp_hash txs)"
  using wf q
proof (induction txs arbitrary: res p)
  case (Cons tx txs)
  from Cons.prems(2) have "queue_ok p [tx]" by (simp add: queue_ok_def)
  from add_ready_transaction_ok [OF hs Cons.prems(1) this] obtain r p' where
    add: "add_ready_transaction hs tx p = Some (r, p')" and wf': "wf_pool p'"
    and out: "ready_outcome tx p r p'"
    by blast
  have sub: "pool_hashes p' \<subseteq> insert (pp_hash tx) (pool_hashes p)"
    using out by (auto simp: ready_outcome_def split: result.splits PoolError.splits)
  then have cont: "\<And>h. pool_contains h p' \<Longrightarrow> pool_contains h p \<or> h = pp_hash tx" by auto
  have "queue_ok p txs" "\<And>t. t \<in> set txs \<Longrightarrow> pp_hash t \<noteq> pp_hash tx"
    using Cons.prems(2) by (auto simp: queue_ok_def image_iff)
  then have q': "queue_ok p' txs" using cont by (blast intro: queue_ok_less)
  have "\<exists>res' p''. promote_imports hs txs rs p' = Some (res', p'') \<and> wf_pool p'' \<and>
      pool_hashes p'' \<subseteq> pool_hashes p \<union> set (map pp_hash (tx # txs))" for rs
  proof -
    obtain res' p'' where "promote_imports hs txs rs p' = Some (res', p'')" "wf_pool p''"
      and "pool_hashes p'' \<subseteq> pool_hashes p' \<union> set (map pp_hash txs)"
      using Cons.IH [OF wf' q'] by blast
    moreover from this(3) sub have "pool_hashes p'' \<subseteq> pool_hashes p \<union> set (map pp_hash (tx # txs))"
      unfolding list.map list.set by blast
    ultimately show ?thesis by blast
  qed
  then show ?case by (cases r) (simp_all add: add)
qed simp

lemma prune_markers_ok:
  assumes hs: "hasher_ok hs" and wf: "wf_pool p"
  shows "\<exists>res p'. prune_markers hs ms p = Some (res, p') \<and> wf_pool p' \<and> pool_hashes p' \<subseteq> pool_hashes p \<and>
    (\<forall>h x m. refs_of (ready_tx (ready_transactions p)) h = Some x \<longrightarrow>
       m \<in> set (pt_provides (rf_transaction x)) \<longrightarrow> m \<in> set ms \<longrightarrow> h \<notin> pool_hashes p')"
proof -
  let ?r = "ready_transactions p" and ?w = "pending_transactions p"
  have "queue_ok p []" by (simp add: queue_ok_def)
  from prune_marks_ok [OF hs wf this, of ms "[]"] obtain imps pruned p1 where
    marks: "prune_marks hs ms [] [] p = Some (imps, pruned, p1)" "wf_pool p1" "queue_ok p1 imps"
    and sub: "waiting_hashes (pending_transactions p1) \<subseteq> waiting_hashes ?w"
      "ready_hashes (ready_transactions p1) \<subseteq> ready_hashes ?r"
      "set (map pp_hash imps) \<subseteq> waiting_hashes ?w"
    and refs: "refs_of (ready_tx (ready_transactions p1)) \<subseteq>\<^sub>m refs_of (ready_tx ?r)"
    and none: "\<And>m. m \<in> set ms \<Longrightarrow> fmlookup (provided_markers (ready_transactions p1)) m = None"
    by auto
  obtain res p' where run: "promote_imports hs imps \<lparr>pr_promoted = [], pr_failed = [], pr_pruned = pruned\<rparr> p1 = Some (res, p')"
      "wf_pool p'" and p': "pool_hashes p' \<subseteq> pool_hashes p1 \<union> set (map pp_hash imps)"
    using promote_imports_ok [OF hs marks(2,3)] by blast
  have "h \<notin> pool_hashes p'"
    if x: "refs_of (ready_tx ?r) h = Some x" "m \<in> set (pt_provides (rf_transaction x))" "m \<in> set ms" for h x m
  proof -
    have "refs_of (ready_tx (ready_transactions p1)) h = None"
    proof (rule ccontr)
      assume "refs_of (ready_tx (ready_transactions p1)) h \<noteq> None"
      then obtain y where y: "refs_of (ready_tx (ready_transactions p1)) h = Some y" by blast
      with map_le_SomeD [OF refs y] x(1) have "y = x" by simp
      with ready_invD(4) [OF wf_poolD(2) [OF marks(2), unfolded wf_ready_def wf_ready_but_def] y, of m] x(2) none [OF x(3)]
      show False by simp
    qed
    then have "h \<notin> ready_hashes (ready_transactions p1)" by (simp add: ready_contains_refs)
    moreover have "h \<notin> waiting_hashes ?w"
      using x(1) wf_poolD(3) [OF wf, of h] unfolding in_hashes pend_contains_lookup ready_contains_refs by blast
    ultimately show ?thesis using p' sub unfolding pool_hashes_def by blast
  qed
  moreover have "pool_hashes p' \<subseteq> pool_hashes p" using p' sub unfolding pool_hashes_def by blast
  ultimately show ?thesis using run by (simp add: prune_markers_def marks(1))
qed

lemma remove_invalid_ok:
  assumes hs: "hasher_ok hs" and wf: "wf_pool p"
  shows "wf_pool (snd (remove_invalid hs hashes p))"
    and "waiting_hashes (pending_transactions (snd (remove_invalid hs hashes p))) =
      waiting_hashes (pending_transactions p) - set hashes"
    and "ready_hashes (ready_transactions (snd (remove_invalid hs hashes p))) \<subseteq>
      ready_hashes (ready_transactions p) - set hashes"
    and "refs_of (ready_tx (ready_transactions (snd (remove_invalid hs hashes p)))) \<subseteq>\<^sub>m
      refs_of (ready_tx (ready_transactions p))"
proof -
  let ?w' = "snd (pend_remove hs hashes (pending_transactions p))"
  have f: "filter_within None {}" by simp
  have "wf_ready_but {} (ready_transactions p)" using wf_poolD(2) [OF wf] by (simp add: wf_ready_def)
  then obtain txs r' where r': "remove_with_markers hashes None (ready_transactions p) = (txs, r')"
    "wf_ready_but {} r'" "shrinks (ready_transactions p) r' txs" "\<forall>h \<in> set hashes. refs_of (ready_tx r') h = None"
    using remove_with_markers_inv [OF _ f] by metis
  have p': "snd (remove_invalid hs hashes p) = (if hashes = [] then p else pool_of r' ?w')"
    by (simp add: remove_invalid_def r'(1) split_def Let_def)
  have less: "less_waiting (pending_transactions p) ?w'"
    using pend_remove_wf [OF hs wf_poolD(1) [OF wf]] by (auto simp: less_waiting_def pend_remove_queue)
  show "wf_pool (snd (remove_invalid hs hashes p))"
    using wf_pool_less [OF wf r'(3) _ less] r'(2) wf by (simp add: p' wf_ready_def)
  show "waiting_hashes (pending_transactions (snd (remove_invalid hs hashes p))) =
      waiting_hashes (pending_transactions p) - set hashes"
    by (auto simp: p' pend_contains_lookup pend_remove_queue split: if_splits)
  show "ready_hashes (ready_transactions (snd (remove_invalid hs hashes p))) \<subseteq>
      ready_hashes (ready_transactions p) - set hashes"
    using shrinks_contains [OF r'(3)] r'(4) by (auto simp: p' ready_contains_refs)
  show "refs_of (ready_tx (ready_transactions (snd (remove_invalid hs hashes p)))) \<subseteq>\<^sub>m
      refs_of (ready_tx (ready_transactions p))"
    using r'(3) by (simp add: p' shrinks_def)
qed

end
