(* ===== verification/PoolSafety.thy ===== *)
theory PoolSafety
  imports Pool "HOL-Library.List_Lexorder"
begin

text \<open>
  The properties of the pool.  The operations are the labels of a transition system that starts in
  the empty pool; each label carries its own iteration order of the hash sets, so the results hold
  whatever order the implementation happens to use.
\<close>

section \<open>The pool as a transition system\<close>

datatype pool_op =
    AddTransaction nat PoolTransaction
  | PruneMarkers "TxMarker list"
  | RemoveInvalid "TxHash list"
  | DropTransaction TxHash
  | OnMinedBlock "PoolTransaction list" "PoolTransaction list"

fun pool_exec :: "hasher \<Rightarrow> pool_op \<Rightarrow> PoolInner \<Rightarrow> PoolInner option" where
  "pool_exec hs (AddTransaction now tx) p = map_option snd (pool_add hs now tx p)"
| "pool_exec hs (PruneMarkers ms) p = map_option snd (prune_markers hs ms p)"
| "pool_exec hs (RemoveInvalid hashes) p = Some (snd (remove_invalid hs hashes p))"
| "pool_exec hs (DropTransaction h) p = Some (snd (drop_transaction h p))"
| "pool_exec hs (OnMinedBlock included invalid) p = map_option snd (on_mined_block hs included invalid p)"

text \<open>A transaction enters the pool with distinct markers, none of which it requires itself.\<close>

fun op_ok :: "pool_op \<Rightarrow> bool" where
  "op_ok (AddTransaction now tx) = tx_ok tx"
| "op_ok _ = True"

inductive pool_step :: "PoolInner \<Rightarrow> hasher \<times> pool_op \<Rightarrow> PoolInner \<Rightarrow> bool" where
  "hasher_ok hs \<Longrightarrow> op_ok op \<Longrightarrow> pool_exec hs op p = Some p' \<Longrightarrow> pool_step p (hs, op) p'"

inductive_cases pool_stepE: "pool_step p (hs, op) p'"

abbreviation reachable :: "PoolInner \<Rightarrow> bool" where
  "reachable \<equiv> reach (\<lambda>p. p = pool_empty) pool_step"

lemma pool_exec_ok:
  assumes "hasher_ok hs" "op_ok op" "wf_pool p"
  shows "\<exists>p'. pool_exec hs op p = Some p' \<and> wf_pool p'"
proof (cases op)
  case (AddTransaction now tx)
  with assms pool_add_ok [of hs p tx now] show ?thesis by auto
next
  case (PruneMarkers ms)
  with assms prune_markers_ok [of hs p ms] show ?thesis by auto
next
  case (RemoveInvalid hashes)
  with assms remove_invalid_ok(1) [of hs p hashes] show ?thesis by simp
next
  case (DropTransaction h)
  with assms(3) clear_ok(1) [of p "[h]"] show ?thesis by (simp add: drop_transaction_def split_def Let_def)
next
  case (OnMinedBlock included invalid)
  with assms prune_markers_ok [OF assms(1) remove_invalid_ok(1) [OF assms(1,3)]] show ?thesis
    by (fastforce simp: on_mined_block_def split_def Let_def)
qed

interpretation pool_machine: machine_inv "\<lambda>p. p = pool_empty" pool_step wf_pool
proof
  show "p = pool_empty \<Longrightarrow> wf_pool p" for p by (simp add: wf_pool_empty)
  show "wf_pool p \<Longrightarrow> pool_step p l p' \<Longrightarrow> wf_pool p'" for p l p'
    using pool_exec_ok by (cases l) (fastforce elim: pool_stepE)
qed

lemmas reachable_wf = pool_machine.reach_inv

fun pool_run :: "hasher \<Rightarrow> pool_op list \<Rightarrow> PoolInner \<Rightarrow> PoolInner option" where
  "pool_run hs [] p = Some p"
| "pool_run hs (op # ops) p = Option.bind (pool_exec hs op p) (pool_run hs ops)"

lemma pool_run_reachable:
  "hasher_ok hs \<Longrightarrow> \<forall>op \<in> set ops. op_ok op \<Longrightarrow> reachable p \<Longrightarrow> pool_run hs ops p = Some p' \<Longrightarrow> reachable p'"
  by (induction ops arbitrary: p)
    (auto split: bind_splits intro: reach_step pool_step.intros)

section \<open>Markers of submitted transactions\<close>

text \<open>
  The pool transaction that \<open>send_raw_transaction\<close> and \<open>add_pending_transaction\<close> build; \<open>None\<close> is
  the panic of \<open>as_u64\<close>.
\<close>

definition pool_transaction :: "TransactionOrder \<Rightarrow> U256 \<Rightarrow> PendingTransaction \<Rightarrow> PoolTransaction option" where
  "pool_transaction order on_chain_nonce pending_transaction =
     (let nonce = tx_nonce (mi_transaction (pd_transaction pending_transaction));
          from = pd_sender pending_transaction
      in case required_marker nonce on_chain_nonce from of
           None \<Rightarrow> None
         | Some requires \<Rightarrow>
             map_option (\<lambda>n. \<lparr>pt_pending_transaction = pending_transaction, pt_requires = requires,
                 pt_provides = [to_marker n from],
                 pt_priority = tx_priority order (mi_transaction (pd_transaction pending_transaction))\<rparr>)
               (as_u64 nonce))"

lemma marker_eq: "to_marker n a = to_marker m b \<longleftrightarrow> n = m \<and> a = b"
  using marker.enc_inj [of "(n, a)" "(m, b)"] by auto

lemma required_marker_eq:
  assumes "as_u64 N = Some n"
  shows "required_marker N on_chain from = Some (if on_chain < N then [to_marker (n - 1) from] else [])"
proof -
  have n: "unat N < 2 ^ 64" "unat n = unat N" using assms by (simp_all add: as_u64_Some)
  show ?thesis
  proof (cases "on_chain < N")
    case True
    then have pos: "1 \<le> N" "0 < unat N" "on_chain \<le> saturating_sub N 1"
      by (auto simp: word_le_nat_alt word_less_nat_alt unat_saturating_sub)
    then have "unat (n - 1) = unat N - 1" using n(2) by (simp add: unat_sub word_le_nat_alt)
    with n(1) have "as_u64 (saturating_sub N 1) = Some (n - 1)"
      by (simp add: as_u64_Some unat_saturating_sub)
    with True pos(3) show ?thesis by (auto simp: required_marker_def Let_def)
  next
    case False
    then have "N = on_chain \<or> \<not> on_chain \<le> saturating_sub N 1"
      by (auto simp: word_le_nat_alt word_less_nat_alt unat_saturating_sub word_unat_eq_iff)
    with False show ?thesis by (auto simp: required_marker_def Let_def)
  qed
qed

section \<open>Example transactions\<close>

definition ex_tx :: "H256 \<Rightarrow> U256 \<Rightarrow> TxMarker list \<Rightarrow> TxMarker list \<Rightarrow> PoolTransaction" where
  "ex_tx h price requires provides =
     \<lparr>pt_pending_transaction =
        \<lparr>pd_transaction = \<lparr>mi_transaction = Legacy \<lparr>lt_nonce = 0, lt_gas_price = price, lt_gas_limit = 21000,
            lt_kind = Create, lt_value = 0, lt_input = [], lt_signature = IMPERSONATED_SIGNATURE\<rparr>,
          mi_impersonated_sender = None\<rparr>,
         pd_sender = 0, pd_hash = h\<rparr>,
      pt_requires = requires, pt_provides = provides, pt_priority = price\<rparr>"

lemma ex_tx_simps [simp]:
  "pt_hash (ex_tx h price rs ps) = h" "pt_gas_price (ex_tx h price rs ps) = price"
  "pt_requires (ex_tx h price rs ps) = rs" "pt_provides (ex_tx h price rs ps) = ps"
  "pt_priority (ex_tx h price rs ps) = price"
  by (simp_all add: ex_tx_def pt_hash_def pt_gas_price_def)

definition ex_hasher :: hasher where
  "ex_hasher = \<lparr>marker_iter = sorted_list_of_set, hash_iter = sorted_list_of_set\<rparr>"

lemma ex_hasher [simp]:
  "hasher_ok ex_hasher" "marker_iter ex_hasher S = sorted_list_of_set S" "hash_iter ex_hasher H = sorted_list_of_set H"
  by (simp_all add: ex_hasher_def hasher_ok_def iter_order_sorted)

text \<open>One ready transaction and one that waits for two markers.\<close>

definition ex_ops :: "pool_op list" where
  "ex_ops = [AddTransaction 0 (ex_tx 1 5 [] [[1]]), AddTransaction 1 (ex_tx 2 7 [[1], [2]] [[3]])]"

definition ex_pool :: PoolInner where
  "ex_pool = the (pool_run ex_hasher ex_ops pool_empty)"

lemmas pool_eval = pool_add_def pool_contains_def pend_contains_def ready_contains_def pp_new_def
  pp_is_ready_def add_ready_transaction_def add_ready_loop.simps report_new_def mark_and_unlock_def
  ready_add_def replaced_transactions_def remove_hashes_def next_id_def ind_insert_def bset_insert_def
  ref_cmp_key_def pend_add_def pool_empty_def ready_empty_def pend_empty_def Let_def add_required_def
  remove_with_markers_def detach_def unlink_require_def ind_remove_def bset_remove_def
  less_ref_key_def less_eq_ref_key_def invalidated_def swap_remove_first_def
  pp_mark_def

lemma ex_pool_run: "pool_run ex_hasher ex_ops pool_empty = Some ex_pool"
  unfolding ex_pool_def ex_ops_def
  by (simp add: pool_eval)

lemma ex_pool_reachable: "reachable ex_pool"
  by (rule pool_run_reachable [OF _ _ _ ex_pool_run]) (auto simp: ex_ops_def tx_ok_def intro: reach_init)

section \<open>Properties\<close>

text \<open>
  C1: no operation of the pool panics.  In every pool reachable from the empty one by additions,
  prunings, removals, drops and mined blocks, in any order and for any iteration order of the hash
  sets, every further operation returns.
\<close>

theorem pool_never_panics:
  assumes "reachable p" "hasher_ok hs" "op_ok op"
  shows "\<exists>p'. pool_exec hs op p = Some p'"
  using pool_exec_ok [OF assms(2,3) reachable_wf [OF assms(1)]] by blast

theorem pool_never_panics_witness:
  "reachable ex_pool \<and> (\<exists>p'. pool_exec ex_hasher (OnMinedBlock [ex_tx 1 5 [] [[1]], ex_tx 9 0 [] [[2]]] []) ex_pool = Some p')"
  using pool_never_panics [OF ex_pool_reachable, of ex_hasher] ex_pool_reachable
  by (simp del: pool_exec.simps)

text \<open>The transactions an addition reports as gone.\<close>

fun reported :: "AddedTransaction \<Rightarrow> TxHash set" where
  "reported (AddedReady rep) = gone rep"
| "reported (AddedPending h) = {}"

text \<open>
  C2: an accepted transaction is in the pool afterwards, and every transaction that was in the pool
  is either still there or reported, as removed or as discarded; what is reported is gone.
\<close>

theorem add_accepted:
  assumes "reachable p" "hasher_ok hs" "tx_ok tx" "pool_add hs now tx p = Some (Ok a, p')"
  shows "added_hash a = pt_hash tx \<and> pool_contains (pt_hash tx) p' \<and>
    insert (pt_hash tx) (pool_hashes p) = pool_hashes p' \<union> reported a \<and>
    reported a \<inter> pool_hashes p' = {}"
proof -
  have "add_outcome tx p (Ok a) p'"
    using pool_add_ok [OF assms(2) reachable_wf [OF assms(1)] assms(3), of now] assms(4) by auto
  then show ?thesis by (cases a) (auto simp: add_outcome_def)
qed

lemma ex_pool_add:
  "\<exists>rep p'. pool_add ex_hasher 2 (ex_tx 3 9 [] [[2]]) ex_pool = Some (Ok (AddedReady rep), p') \<and> rr_promoted rep = [2]"
  unfolding ex_pool_def ex_ops_def by (simp add: pool_eval)

theorem add_accepted_witness:
  "\<exists>rep p'. pool_add ex_hasher 2 (ex_tx 3 9 [] [[2]]) ex_pool = Some (Ok (AddedReady rep), p') \<and>
     rr_hash rep = 3 \<and> pool_contains 3 p' \<and> gone rep \<inter> pool_hashes p' = {}"
proof -
  obtain rep p' where add: "pool_add ex_hasher 2 (ex_tx 3 9 [] [[2]]) ex_pool = Some (Ok (AddedReady rep), p')"
    using ex_pool_add by blast
  from add_accepted [OF ex_pool_reachable _ _ add] show ?thesis
    using add by (simp add: tx_ok_def)
qed

text \<open>
  C12: a transaction that is rejected as already imported or as an underpriced replacement leaves the
  pool exactly as it was, although the promotion of waiting transactions runs before the price check.
\<close>

theorem add_rejected_unchanged:
  assumes "reachable p" "hasher_ok hs" "tx_ok tx" "pool_add hs now tx p = Some (Err e, p')"
    "e \<noteq> CyclicTransaction"
  shows "p' = p"
proof -
  have "add_outcome tx p (Err e) p'"
    using pool_add_ok [OF assms(2) reachable_wf [OF assms(1)] assms(3), of now] assms(4) by auto
  with assms(5) show ?thesis by (cases e) (auto simp: add_outcome_def)
qed

lemma ex_pool_reject:
  "\<exists>p'. pool_add ex_hasher 2 (ex_tx 3 5 [] [[1]]) ex_pool =
     Some (Err (ReplacementUnderpriced (ex_tx 3 5 [] [[1]])), p')"
  unfolding ex_pool_def ex_ops_def by (simp add: pool_eval)

theorem add_rejected_unchanged_witness:
  "pool_add ex_hasher 2 (ex_tx 3 5 [] [[1]]) ex_pool =
     Some (Err (ReplacementUnderpriced (ex_tx 3 5 [] [[1]])), ex_pool)"
proof -
  obtain p' where add: "pool_add ex_hasher 2 (ex_tx 3 5 [] [[1]]) ex_pool =
      Some (Err (ReplacementUnderpriced (ex_tx 3 5 [] [[1]])), p')"
    using ex_pool_reject by blast
  from add_rejected_unchanged [OF ex_pool_reachable _ _ add] add show ?thesis by (simp add: tx_ok_def)
qed

text \<open>
  C30: a transaction whose promotion chain evicts it again is dropped: it is in neither queue after
  the error \<open>CyclicTransaction\<close>, although the comment in the code says that it is moved back to
  the pending queue.
\<close>

theorem cyclic_is_dropped:
  assumes "reachable p" "hasher_ok hs" "tx_ok tx" "pool_add hs now tx p = Some (Err CyclicTransaction, p')"
  shows "\<not> pool_contains (pt_hash tx) p' \<and> pool_hashes p' \<subseteq> pool_hashes p"
proof -
  have "add_outcome tx p (Err CyclicTransaction) p'"
    using pool_add_ok [OF assms(2) reachable_wf [OF assms(1)] assms(3), of now] assms(4) by auto
  then show ?thesis by (simp add: add_outcome_def)
qed

definition ex_cycle_ops :: "pool_op list" where
  "ex_cycle_ops = [AddTransaction 0 (ex_tx 2 5 [[1]] [[2]]), AddTransaction 1 (ex_tx 3 9 [[2]] [[1]])]"

definition ex_cycle :: PoolInner where
  "ex_cycle = the (pool_run ex_hasher ex_cycle_ops pool_empty)"

lemma ex_cycle_reachable: "reachable ex_cycle"
proof -
  have "pool_run ex_hasher ex_cycle_ops pool_empty = Some ex_cycle"
    unfolding ex_cycle_def ex_cycle_ops_def by (simp add: pool_eval)
  then show ?thesis
    by (rule pool_run_reachable [rotated 3]) (auto simp: ex_cycle_ops_def tx_ok_def intro: reach_init)
qed

lemma ex_cycle_add:
  "\<exists>p'. pool_add ex_hasher 2 (ex_tx 1 5 [] [[1]]) ex_cycle = Some (Err CyclicTransaction, p')"
  unfolding ex_cycle_def ex_cycle_ops_def
  by (simp add: pool_eval List.map_filter_def remove_loop.simps clear_transactions_def)

theorem cyclic_is_dropped_witness:
  "\<exists>p'. pool_add ex_hasher 2 (ex_tx 1 5 [] [[1]]) ex_cycle = Some (Err CyclicTransaction, p') \<and>
     \<not> pool_contains 1 p'"
proof -
  obtain p' where add: "pool_add ex_hasher 2 (ex_tx 1 5 [] [[1]]) ex_cycle = Some (Err CyclicTransaction, p')"
    using ex_cycle_add by blast
  from cyclic_is_dropped [OF ex_cycle_reachable _ _ add] add show ?thesis by (simp add: tx_ok_def)
qed

lemma underpriced_iff:
  assumes "wf_ready r"
  shows "underpriced tx r \<longleftrightarrow> pt_provides tx \<noteq> [] \<and>
    (\<exists>h t. ready_get h r = Some t \<and> rt_provides t = pt_provides tx \<and> pt_gas_price tx \<le> rt_gas_price t)"
proof -
  have "h \<in> remove_hashes tx r"
    if "ready_get h r = Some t" "rt_provides t = pt_provides tx" "pt_provides tx \<noteq> []" for h t
  proof -
    from that(3) obtain m where m: "m \<in> set (pt_provides tx)" by (cases "pt_provides tx") auto
    have "refs_of (ready_tx r) h = Some (rt_transaction t)" using that(1) by (simp add: ready_get_def refs_of_def)
    from ready_invD(4) [OF assms [unfolded wf_ready_def wf_ready_but_def] this, of m] m that(2)
    show ?thesis by (auto simp: remove_hashes_iff)
  qed
  moreover have "pt_provides tx \<noteq> []" if "h \<in> remove_hashes tx r" for h
    using that by (auto simp: remove_hashes_iff)
  ultimately show ?thesis unfolding underpriced_def ready_get_def by blast
qed

text \<open>
  C3: the replacement rule.  A new transaction whose requirements are provided is rejected as
  underpriced exactly when a ready transaction provides the same, non-empty list of markers and pays
  at least the same gas price.
\<close>

theorem replacement_rule:
  assumes "reachable p" "hasher_ok hs" "tx_ok tx" "\<not> pool_contains (pt_hash tx) p"
    and req: "\<forall>m \<in> set (pt_requires tx). m |\<in>| fmdom (provided_markers (ready_transactions p))"
  shows "pool_add hs now tx p = Some (Err (ReplacementUnderpriced tx), p) \<longleftrightarrow>
    pt_provides tx \<noteq> [] \<and> (\<exists>h t. ready_get h (ready_transactions p) = Some t \<and>
      rt_provides t = pt_provides tx \<and> pt_gas_price tx \<le> rt_gas_price t)"
proof -
  note wf = reachable_wf [OF assms(1)]
  let ?t = "pp_new tx (provided_markers (ready_transactions p)) now"
  have t: "pp_is_ready ?t" "pp_transaction ?t = tx"
    using req by (auto simp: pp_is_ready_def pp_new_def filter_empty_conv)
  have q: "queue_ok p [?t]" using t assms(3,4) by (simp add: queue_ok_def)
  have add: "pool_add hs now tx p = add_ready_transaction hs ?t p"
    using assms(4) t by (simp add: pool_add_def)
  obtain res p' where run: "add_ready_transaction hs ?t p = Some (res, p')" and out: "ready_outcome ?t p res p'"
    using add_ready_transaction_ok [OF assms(2) wf q] by blast
  have "(Some (res, p') = Some (Err (ReplacementUnderpriced tx), p)) = underpriced tx (ready_transactions p)"
  proof (cases "underpriced tx (ready_transactions p)")
    case False
    with out t(2) have "res \<noteq> Err (ReplacementUnderpriced tx)" by (auto simp: ready_outcome_def)
    with False show ?thesis by blast
  next
    case True
    obtain ul w res' r' where
      st: "mark_and_unlock hs (pt_provides (pp_transaction ?t)) (pending_transactions p) = Some (ul, w)"
        "ready_add hs ?t (ready_transactions p) = Some (res', r')"
      by (rule promote_one [OF assms(2) wf q])
    have "res' = Err (ReplacementUnderpriced tx)"
      using ready_add_effect [OF assms(2) wf q st(2)] True t(2) by (cases res') simp_all
    then have res: "res = Err (ReplacementUnderpriced tx)"
      using run st by (auto simp: add_ready_transaction_def add_ready_loop.simps [of hs "[?t]"])
    with out have "p' = p" by (simp add: ready_outcome_def)
    with res True show ?thesis by blast
  qed
  then show ?thesis by (simp only: add run underpriced_iff [OF wf_poolD(2) [OF wf]])
qed

theorem replacement_rule_witness:
  "pool_add ex_hasher 2 (ex_tx 3 5 [] [[1]]) ex_pool = Some (Err (ReplacementUnderpriced (ex_tx 3 5 [] [[1]])), ex_pool)"
proof -
  have "\<exists>h t. ready_get h (ready_transactions ex_pool) = Some t \<and> rt_provides t = [[1]] \<and> 5 \<le> rt_gas_price t"
    unfolding ex_pool_def ex_ops_def
    by (rule exI [of _ 1]) (simp add: pool_eval ready_get_def)
  moreover have "\<not> pool_contains 3 ex_pool"
    unfolding ex_pool_def ex_ops_def by (simp add: pool_eval)
  ultimately show ?thesis
    using replacement_rule [OF ex_pool_reachable, of ex_hasher "ex_tx 3 5 [] [[1]]" 2]
    by (simp add: tx_ok_def)
qed

text \<open>What the report of a mined block does to a well-formed pool.\<close>

lemma on_mined_block_ok:
  assumes wf: "wf_pool p" and hs: "hasher_ok hs"
    and ready: "\<forall>tx \<in> set included. pt_provides tx \<noteq> [] \<and>
        (\<exists>t. ready_get (pt_hash tx) (ready_transactions p) = Some t \<and> rf_transaction (rt_transaction t) = tx)"
  shows "\<exists>res p'. on_mined_block hs included invalid p = Some (res, p') \<and> wf_pool p' \<and>
    pool_hashes p' \<subseteq> pool_hashes p - pt_hash ` (set included \<union> set invalid)"
proof -
  let ?p1 = "snd (remove_invalid hs (map pt_hash invalid) p)"
  note inv = remove_invalid_ok [OF hs wf, of "map pt_hash invalid"]
  have p1: "pool_hashes ?p1 \<subseteq> pool_hashes p - pt_hash ` set invalid"
    using inv(2,3) unfolding pool_hashes_def set_map by blast
  obtain res p' where run: "prune_markers hs (concat (map pt_provides included)) ?p1 = Some (res, p')" "wf_pool p'"
    and sub: "pool_hashes p' \<subseteq> pool_hashes ?p1"
    and gone: "\<And>h x m. refs_of (ready_tx (ready_transactions ?p1)) h = Some x \<Longrightarrow>
       m \<in> set (pt_provides (rf_transaction x)) \<Longrightarrow> m \<in> set (concat (map pt_provides included)) \<Longrightarrow>
       h \<notin> pool_hashes p'"
    using prune_markers_ok [OF hs inv(1), of "concat (map pt_provides included)"] by blast
  have "pt_hash tx \<notin> pool_hashes p'" if tx: "tx \<in> set included" for tx
  proof (cases "refs_of (ready_tx (ready_transactions ?p1)) (pt_hash tx)")
    case None
    from ready tx have "ready_contains (pt_hash tx) (ready_transactions p)"
      by (auto simp: ready_get_def ready_contains_def fmlookup_dom_iff)
    then have "pt_hash tx \<notin> waiting_hashes (pending_transactions p)"
      using wf_poolD(3) [OF wf] unfolding in_hashes pend_contains_lookup by blast
    then have "pt_hash tx \<notin> pool_hashes ?p1"
      using None inv(2) unfolding pool_hashes_def by (simp add: ready_contains_refs)
    with sub show ?thesis by blast
  next
    case (Some x)
    from ready tx obtain t m where t: "ready_get (pt_hash tx) (ready_transactions p) = Some t"
      "rf_transaction (rt_transaction t) = tx" "m \<in> set (pt_provides tx)"
      by (metis list.set_intros(1) neq_Nil_conv)
    have "x = rt_transaction t"
      using map_le_SomeD [OF inv(4) Some] t(1) by (simp add: ready_get_def refs_of_def)
    with gone [OF Some, of m] t(2,3) tx show ?thesis by auto
  qed
  with sub p1 have "pool_hashes p' \<subseteq> pool_hashes p - pt_hash ` (set included \<union> set invalid)" by blast
  with run show ?thesis by (simp add: on_mined_block_def split_def Let_def)
qed

text \<open>
  C4: after a mined block none of its transactions is left in the pool, neither the included ones
  that were ready with at least one marker nor the invalid ones, and no transaction appears that was
  not in the pool before.
\<close>

theorem on_mined_block_removes:
  assumes "reachable p" "hasher_ok hs"
    and ready: "\<forall>tx \<in> set included. pt_provides tx \<noteq> [] \<and>
        (\<exists>t. ready_get (pt_hash tx) (ready_transactions p) = Some t \<and> rf_transaction (rt_transaction t) = tx)"
  shows "\<exists>res p'. on_mined_block hs included invalid p = Some (res, p') \<and>
    pool_hashes p' \<subseteq> pool_hashes p - pt_hash ` (set included \<union> set invalid)"
proof -
  obtain res p' where "on_mined_block hs included invalid p = Some (res, p')"
    "pool_hashes p' \<subseteq> pool_hashes p - pt_hash ` (set included \<union> set invalid)"
    using on_mined_block_ok [OF reachable_wf [OF assms(1)] assms(2) ready] by blast
  then show ?thesis by blast
qed

theorem on_mined_block_removes_witness:
  "\<exists>res p'. on_mined_block ex_hasher [ex_tx 1 5 [] [[1]]] [] ex_pool = Some (res, p') \<and> \<not> pool_contains 1 p'"
proof -
  have "\<exists>t. ready_get 1 (ready_transactions ex_pool) = Some t \<and> rf_transaction (rt_transaction t) = ex_tx 1 5 [] [[1]]"
    unfolding ex_pool_def ex_ops_def by (simp add: pool_eval ready_get_def)
  then show ?thesis
    using on_mined_block_removes [OF ex_pool_reachable, of ex_hasher "[ex_tx 1 5 [] [[1]]]" "[]"] by force
qed




text \<open>
  The markers of a submitted transaction.  A transaction whose nonce fits 64 bits is pooled
  without a panic and with well-formed markers; it waits exactly when its nonce is ahead of the
  account's, and then for the marker that the account's transaction with the previous nonce provides.
\<close>

theorem submitted_markers:
  assumes "as_u64 (tx_nonce (mi_transaction (pd_transaction t))) = Some n"
  shows "\<exists>tx. pool_transaction order on_chain t = Some tx \<and> tx_ok tx \<and>
    pt_provides tx = [to_marker n (pd_sender t)] \<and>
    pt_requires tx = (if on_chain < tx_nonce (mi_transaction (pd_transaction t))
                      then [to_marker (n - 1) (pd_sender t)] else [])"
proof -
  have "to_marker (n - 1) (pd_sender t) \<noteq> to_marker n (pd_sender t)" by (simp add: marker_eq)
  with assms show ?thesis by (simp add: pool_transaction_def required_marker_eq Let_def tx_ok_def)
qed

theorem submitted_markers_witness:
  "pool_transaction Fifo 6 (pt_pending_transaction (ex_tx 1 5 [] [])) \<noteq> None"
  using submitted_markers [of "pt_pending_transaction (ex_tx 1 5 [] [])" 0 Fifo 6]
  by (simp add: as_u64_def ex_tx_def) force

end
