(* ===== verification/TransactionRlp.thy ===== *)
theory TransactionRlp
  imports Transaction "HOL-Library.Countable"
begin

text \<open>
  The encodings of \<open>anvil/core/src/eth/transaction/mod.rs\<close>: the \<open>Encodable\<close> and \<open>Decodable\<close>
  implementations for requests and transactions, the hashes taken from them, and signature recovery.
  The \<open>rlp\<close> crate is a parameter: a record of what its stream writes for each type of value and of
  what its views read back; \<open>rlp_ok\<close> states that reading undoes writing.  Keccak and the signature
  primitives are parameters as well.
\<close>

section \<open>The rlp crate\<close>

datatype DecoderError =
    RlpExpectedToBeData
  | RlpIncorrectListLen
  | DecoderCustom string
  | DecoderOther nat

text \<open>
  A view (\<open>Rlp\<close>) is the bytes it looks at.  \<open>rlp_list\<close> is \<open>begin_list(n)\<close> followed by \<open>n\<close>
  appends; \<open>rlp_items\<close> gives \<open>item_count\<close> and \<open>at\<close>.
\<close>

record rlp_lib =
  rlp_u256 :: "U256 \<Rightarrow> bytes"
  rlp_u64 :: "u64 \<Rightarrow> bytes"
  rlp_u8 :: "u8 \<Rightarrow> bytes"
  rlp_bool :: "bool \<Rightarrow> bytes"
  rlp_value :: "bytes \<Rightarrow> bytes"
  rlp_access_list :: "AccessList \<Rightarrow> bytes"
  rlp_list :: "bytes list \<Rightarrow> bytes"
  val_u256 :: "bytes \<Rightarrow> (U256, DecoderError) result"
  val_u64 :: "bytes \<Rightarrow> (u64, DecoderError) result"
  val_u8 :: "bytes \<Rightarrow> (u8, DecoderError) result"
  val_bool :: "bytes \<Rightarrow> (bool, DecoderError) result"
  val_bytes :: "bytes \<Rightarrow> (bytes, DecoderError) result"
  val_address :: "bytes \<Rightarrow> (Address, DecoderError) result"
  val_h256 :: "bytes \<Rightarrow> (H256, DecoderError) result"
  val_h64 :: "bytes \<Rightarrow> (u64, DecoderError) result"
  val_bloom :: "bytes \<Rightarrow> (2048 word, DecoderError) result"
  val_access_list :: "bytes \<Rightarrow> (AccessList, DecoderError) result"
  rlp_items :: "bytes \<Rightarrow> (bytes list, DecoderError) result"
  rlp_data :: "bytes \<Rightarrow> (bytes, DecoderError) result"
  rlp_is_list :: "bytes \<Rightarrow> bool"
  rlp_is_data :: "bytes \<Rightarrow> bool"
  rlp_is_empty :: "bytes \<Rightarrow> bool"

text \<open>The bytes of a fixed-size hash, \<open>hash[..]\<close>; the 20 bytes of an address, \<open>address[..]\<close>.\<close>

definition be_bytes :: "nat \<Rightarrow> 'a::len word \<Rightarrow> bytes" where
  "be_bytes n x = rev (le_bytes n x)"

definition address_bytes :: "Address \<Rightarrow> bytes" where
  "address_bytes a = be_bytes 20 a"

text \<open>What the encoders write as one item of a list.\<close>

inductive is_item :: "rlp_lib \<Rightarrow> bytes \<Rightarrow> bool" for lib where
  "is_item lib (rlp_u256 lib x)"
| "is_item lib (rlp_u64 lib n)"
| "is_item lib (rlp_u8 lib k)"
| "is_item lib (rlp_bool lib b)"
| "is_item lib (rlp_value lib bs)"
| "is_item lib (rlp_access_list lib al)"
| "(\<forall>x \<in> set xs. is_item lib x) \<Longrightarrow> is_item lib (rlp_list lib xs)"

text \<open>
  The crate's contract: each value is read back, a list gives its items, a string its bytes; the
  payload of a non-empty list is not empty; strings and lists are told apart.
\<close>

definition rlp_ok :: "rlp_lib \<Rightarrow> bool" where
  "rlp_ok lib \<longleftrightarrow>
     (\<forall>x. val_u256 lib (rlp_u256 lib x) = Ok x) \<and> (\<forall>x. val_u64 lib (rlp_u64 lib x) = Ok x) \<and>
     (\<forall>x. val_u8 lib (rlp_u8 lib x) = Ok x) \<and>
     (\<forall>x. val_bool lib (rlp_bool lib x) = Ok x) \<and> (\<forall>x. val_bytes lib (rlp_value lib x) = Ok x) \<and>
     (\<forall>x. val_address lib (rlp_value lib (address_bytes x)) = Ok x) \<and>
     (\<forall>x. val_h256 lib (rlp_value lib (be_bytes 32 x)) = Ok x) \<and>
     (\<forall>x. val_h64 lib (rlp_value lib (be_bytes 8 x)) = Ok x) \<and>
     (\<forall>x. val_bloom lib (rlp_value lib (be_bytes 256 x)) = Ok x) \<and>
     (\<forall>x. val_access_list lib (rlp_access_list lib x) = Ok x) \<and>
     (\<forall>xs. (\<forall>x \<in> set xs. is_item lib x) \<longrightarrow> rlp_items lib (rlp_list lib xs) = Ok xs) \<and>
     (\<forall>xs. xs \<noteq> [] \<longrightarrow> (\<exists>d. d \<noteq> [] \<and> rlp_data lib (rlp_list lib xs) = Ok d)) \<and>
     (\<forall>x. rlp_data lib (rlp_value lib x) = Ok x) \<and>
     (\<forall>xs. rlp_is_list lib (rlp_list lib xs)) \<and> (\<forall>x. \<not> rlp_is_list lib (rlp_value lib x)) \<and>
     (\<forall>x. rlp_is_data lib (rlp_value lib x)) \<and>
     (\<forall>x. rlp_is_empty lib (rlp_value lib x) \<longleftrightarrow> x = [])"

section \<open>Encodable\<close>

fun kind_rlp :: "rlp_lib \<Rightarrow> TransactionKind \<Rightarrow> bytes" where
  "kind_rlp lib (Call address) = rlp_value lib (address_bytes address)"
| "kind_rlp lib Create = rlp_value lib []"

definition legacy_request_rlp :: "rlp_lib \<Rightarrow> LegacyTransactionRequest \<Rightarrow> bytes" where
  "legacy_request_rlp lib r =
     (case lr_chain_id r of
        Some chain_id \<Rightarrow> rlp_list lib
          [rlp_u256 lib (lr_nonce r), rlp_u256 lib (lr_gas_price r), rlp_u256 lib (lr_gas_limit r),
           kind_rlp lib (lr_kind r), rlp_u256 lib (lr_value r), rlp_value lib (lr_input r),
           rlp_u64 lib chain_id, rlp_u8 lib 0, rlp_u8 lib 0]
      | None \<Rightarrow> rlp_list lib
          [rlp_u256 lib (lr_nonce r), rlp_u256 lib (lr_gas_price r), rlp_u256 lib (lr_gas_limit r),
           kind_rlp lib (lr_kind r), rlp_u256 lib (lr_value r), rlp_value lib (lr_input r)])"

definition eip2930_request_rlp :: "rlp_lib \<Rightarrow> EIP2930TransactionRequest \<Rightarrow> bytes" where
  "eip2930_request_rlp lib r = rlp_list lib
     [rlp_u64 lib (ar_chain_id r), rlp_u256 lib (ar_nonce r), rlp_u256 lib (ar_gas_price r),
      rlp_u256 lib (ar_gas_limit r), kind_rlp lib (ar_kind r), rlp_u256 lib (ar_value r),
      rlp_value lib (ar_input r), rlp_access_list lib (ar_access_list r)]"

definition eip1559_request_rlp :: "rlp_lib \<Rightarrow> EIP1559TransactionRequest \<Rightarrow> bytes" where
  "eip1559_request_rlp lib r = rlp_list lib
     [rlp_u64 lib (dr_chain_id r), rlp_u256 lib (dr_nonce r),
      rlp_u256 lib (dr_max_priority_fee_per_gas r), rlp_u256 lib (dr_max_fee_per_gas r),
      rlp_u256 lib (dr_gas_limit r), kind_rlp lib (dr_kind r), rlp_u256 lib (dr_value r),
      rlp_value lib (dr_input r), rlp_access_list lib (dr_access_list r)]"

definition legacy_rlp :: "rlp_lib \<Rightarrow> LegacyTransaction \<Rightarrow> bytes" where
  "legacy_rlp lib t = rlp_list lib
     [rlp_u256 lib (lt_nonce t), rlp_u256 lib (lt_gas_price t), rlp_u256 lib (lt_gas_limit t),
      kind_rlp lib (lt_kind t), rlp_u256 lib (lt_value t), rlp_value lib (lt_input t),
      rlp_u64 lib (sig_v (lt_signature t)), rlp_u256 lib (sig_r (lt_signature t)),
      rlp_u256 lib (sig_s (lt_signature t))]"

definition eip2930_rlp :: "rlp_lib \<Rightarrow> EIP2930Transaction \<Rightarrow> bytes" where
  "eip2930_rlp lib t = rlp_list lib
     [rlp_u64 lib (at_chain_id t), rlp_u256 lib (at_nonce t), rlp_u256 lib (at_gas_price t),
      rlp_u256 lib (at_gas_limit t), kind_rlp lib (at_kind t), rlp_u256 lib (at_value t),
      rlp_value lib (at_input t), rlp_access_list lib (at_access_list t),
      rlp_bool lib (at_odd_y_parity t), rlp_u256 lib (at_r t), rlp_u256 lib (at_s t)]"

definition eip1559_rlp :: "rlp_lib \<Rightarrow> EIP1559Transaction \<Rightarrow> bytes" where
  "eip1559_rlp lib t = rlp_list lib
     [rlp_u64 lib (dt_chain_id t), rlp_u256 lib (dt_nonce t),
      rlp_u256 lib (dt_max_priority_fee_per_gas t), rlp_u256 lib (dt_max_fee_per_gas t),
      rlp_u256 lib (dt_gas_limit t), kind_rlp lib (dt_kind t), rlp_u256 lib (dt_value t),
      rlp_value lib (dt_input t), rlp_access_list lib (dt_access_list t),
      rlp_bool lib (dt_odd_y_parity t), rlp_u256 lib (dt_r t), rlp_u256 lib (dt_s t)]"

text \<open>\<open>utils::enveloped\<close>: the type byte and the encoding, as one string.\<close>

definition enveloped :: "rlp_lib \<Rightarrow> u8 \<Rightarrow> bytes \<Rightarrow> bytes" where
  "enveloped lib ty encoded = rlp_value lib (ty # encoded)"

fun typed_rlp :: "rlp_lib \<Rightarrow> TypedTransaction \<Rightarrow> bytes" where
  "typed_rlp lib (Legacy tx) = legacy_rlp lib tx"
| "typed_rlp lib (EIP2930 tx) = enveloped lib 1 (eip2930_rlp lib tx)"
| "typed_rlp lib (EIP1559 tx) = enveloped lib 2 (eip1559_rlp lib tx)"

definition mi_rlp :: "rlp_lib \<Rightarrow> MaybeImpersonatedTransaction \<Rightarrow> bytes" where
  "mi_rlp lib t = typed_rlp lib (mi_transaction t)"

section \<open>Decodable\<close>

definition kind_decode :: "rlp_lib \<Rightarrow> bytes \<Rightarrow> (TransactionKind, DecoderError) result" where
  "kind_decode lib b =
     (if rlp_is_empty lib b then if rlp_is_data lib b then Ok Create else Err RlpExpectedToBeData
      else map_ok Call (val_address lib b))"

definition legacy_decode :: "rlp_lib \<Rightarrow> bytes \<Rightarrow> (LegacyTransaction, DecoderError) result" where
  "legacy_decode lib b =
     and_then (rlp_items lib b) (\<lambda>xs.
       if length xs \<noteq> 9 then Err RlpIncorrectListLen
       else
         and_then (val_u64 lib (xs ! 6)) (\<lambda>v.
         and_then (val_u256 lib (xs ! 7)) (\<lambda>r.
         and_then (val_u256 lib (xs ! 8)) (\<lambda>s.
         and_then (val_u256 lib (xs ! 0)) (\<lambda>nonce.
         and_then (val_u256 lib (xs ! 1)) (\<lambda>gas_price.
         and_then (val_u256 lib (xs ! 2)) (\<lambda>gas_limit.
         and_then (kind_decode lib (xs ! 3)) (\<lambda>kind.
         and_then (val_u256 lib (xs ! 4)) (\<lambda>value.
         and_then (val_bytes lib (xs ! 5)) (\<lambda>input.
           Ok \<lparr>lt_nonce = nonce, lt_gas_price = gas_price, lt_gas_limit = gas_limit, lt_kind = kind,
               lt_value = value, lt_input = input,
               lt_signature = \<lparr>sig_r = r, sig_s = s, sig_v = v\<rparr>\<rparr>))))))))))"

definition eip2930_decode :: "rlp_lib \<Rightarrow> bytes \<Rightarrow> (EIP2930Transaction, DecoderError) result" where
  "eip2930_decode lib b =
     and_then (rlp_items lib b) (\<lambda>xs.
       if length xs \<noteq> 11 then Err RlpIncorrectListLen
       else
         and_then (val_u64 lib (xs ! 0)) (\<lambda>chain_id.
         and_then (val_u256 lib (xs ! 1)) (\<lambda>nonce.
         and_then (val_u256 lib (xs ! 2)) (\<lambda>gas_price.
         and_then (val_u256 lib (xs ! 3)) (\<lambda>gas_limit.
         and_then (kind_decode lib (xs ! 4)) (\<lambda>kind.
         and_then (val_u256 lib (xs ! 5)) (\<lambda>value.
         and_then (val_bytes lib (xs ! 6)) (\<lambda>input.
         and_then (val_access_list lib (xs ! 7)) (\<lambda>access_list.
         and_then (val_bool lib (xs ! 8)) (\<lambda>odd_y_parity.
         and_then (val_u256 lib (xs ! 9)) (\<lambda>r.
         and_then (val_u256 lib (xs ! 10)) (\<lambda>s.
           Ok \<lparr>at_chain_id = chain_id, at_nonce = nonce, at_gas_price = gas_price,
               at_gas_limit = gas_limit, at_kind = kind, at_value = value, at_input = input,
               at_access_list = access_list, at_odd_y_parity = odd_y_parity, at_r = r,
               at_s = s\<rparr>))))))))))))"

definition eip1559_decode :: "rlp_lib \<Rightarrow> bytes \<Rightarrow> (EIP1559Transaction, DecoderError) result" where
  "eip1559_decode lib b =
     and_then (rlp_items lib b) (\<lambda>xs.
       if length xs \<noteq> 12 then Err RlpIncorrectListLen
       else
         and_then (val_u64 lib (xs ! 0)) (\<lambda>chain_id.
         and_then (val_u256 lib (xs ! 1)) (\<lambda>nonce.
         and_then (val_u256 lib (xs ! 2)) (\<lambda>max_priority_fee_per_gas.
         and_then (val_u256 lib (xs ! 3)) (\<lambda>max_fee_per_gas.
         and_then (val_u256 lib (xs ! 4)) (\<lambda>gas_limit.
         and_then (kind_decode lib (xs ! 5)) (\<lambda>kind.
         and_then (val_u256 lib (xs ! 6)) (\<lambda>value.
         and_then (val_bytes lib (xs ! 7)) (\<lambda>input.
         and_then (val_access_list lib (xs ! 8)) (\<lambda>access_list.
         and_then (val_bool lib (xs ! 9)) (\<lambda>odd_y_parity.
         and_then (val_u256 lib (xs ! 10)) (\<lambda>r.
         and_then (val_u256 lib (xs ! 11)) (\<lambda>s.
           Ok \<lparr>dt_chain_id = chain_id, dt_nonce = nonce,
               dt_max_priority_fee_per_gas = max_priority_fee_per_gas,
               dt_max_fee_per_gas = max_fee_per_gas, dt_gas_limit = gas_limit, dt_kind = kind,
               dt_value = value, dt_input = input, dt_access_list = access_list,
               dt_odd_y_parity = odd_y_parity, dt_r = r, dt_s = s\<rparr>)))))))))))))"

definition typed_decode :: "rlp_lib \<Rightarrow> bytes \<Rightarrow> (TypedTransaction, DecoderError) result" where
  "typed_decode lib b =
     and_then (rlp_data lib b) (\<lambda>data.
       case data of
         [] \<Rightarrow> Err (DecoderCustom ''empty slice'')
       | first # s \<Rightarrow>
           if rlp_is_list lib b then map_ok Legacy (legacy_decode lib b)
           else if first = 1 then map_ok EIP2930 (eip2930_decode lib s)
           else if first = 2 then map_ok EIP1559 (eip1559_decode lib s)
           else Err (DecoderCustom ''invalid tx type''))"

definition mi_decode :: "rlp_lib \<Rightarrow> bytes \<Rightarrow> (MaybeImpersonatedTransaction, DecoderError) result" where
  "mi_decode lib b = and_then (typed_decode lib b)
     (\<lambda>t. Ok \<lparr>mi_transaction = t, mi_impersonated_sender = None\<rparr>)"

section \<open>Hashes and signatures\<close>

text \<open>Keccak, \<open>Signature::recover\<close> and \<open>Signature::try_from\<close> of 65 bytes.\<close>

record crypto =
  keccak256 :: "bytes \<Rightarrow> H256"
  sig_recover :: "Signature \<Rightarrow> H256 \<Rightarrow> (Address, nat) result"
  sig_try_from :: "bytes \<Rightarrow> (Signature, nat) result"

definition legacy_request_hash :: "crypto \<Rightarrow> rlp_lib \<Rightarrow> LegacyTransactionRequest \<Rightarrow> H256" where
  "legacy_request_hash cr lib r = keccak256 cr (legacy_request_rlp lib r)"

definition eip2930_request_hash :: "crypto \<Rightarrow> rlp_lib \<Rightarrow> EIP2930TransactionRequest \<Rightarrow> H256" where
  "eip2930_request_hash cr lib r = keccak256 cr (1 # eip2930_request_rlp lib r)"

definition eip1559_request_hash :: "crypto \<Rightarrow> rlp_lib \<Rightarrow> EIP1559TransactionRequest \<Rightarrow> H256" where
  "eip1559_request_hash cr lib r = keccak256 cr (2 # eip1559_request_rlp lib r)"

definition legacy_hash :: "crypto \<Rightarrow> rlp_lib \<Rightarrow> LegacyTransaction \<Rightarrow> H256" where
  "legacy_hash cr lib t = keccak256 cr (legacy_rlp lib t)"

definition eip2930_hash :: "crypto \<Rightarrow> rlp_lib \<Rightarrow> EIP2930Transaction \<Rightarrow> H256" where
  "eip2930_hash cr lib t = keccak256 cr (1 # eip2930_rlp lib t)"

definition eip1559_hash :: "crypto \<Rightarrow> rlp_lib \<Rightarrow> EIP1559Transaction \<Rightarrow> H256" where
  "eip1559_hash cr lib t = keccak256 cr (2 # eip1559_rlp lib t)"

fun tx_hash :: "crypto \<Rightarrow> rlp_lib \<Rightarrow> TypedTransaction \<Rightarrow> H256" where
  "tx_hash cr lib (Legacy t) = legacy_hash cr lib t"
| "tx_hash cr lib (EIP2930 t) = eip2930_hash cr lib t"
| "tx_hash cr lib (EIP1559 t) = eip1559_hash cr lib t"

definition impersonated_hash :: "crypto \<Rightarrow> rlp_lib \<Rightarrow> TypedTransaction \<Rightarrow> Address \<Rightarrow> H256" where
  "impersonated_hash cr lib t sender = keccak256 cr (typed_rlp lib t @ address_bytes sender)"

text \<open>The 65 bytes of a signature: the two words big-endian and the parity.\<close>

definition sig_bytes :: "H256 \<Rightarrow> H256 \<Rightarrow> bool \<Rightarrow> bytes" where
  "sig_bytes r s parity = be_bytes 32 r @ be_bytes 32 s @ [if parity then 1 else 0]"

definition legacy_recover :: "crypto \<Rightarrow> rlp_lib \<Rightarrow> LegacyTransaction \<Rightarrow> (Address, nat) result" where
  "legacy_recover cr lib t =
     sig_recover cr (lt_signature t) (legacy_request_hash cr lib (legacy_request t))"

definition eip2930_recover :: "crypto \<Rightarrow> rlp_lib \<Rightarrow> EIP2930Transaction \<Rightarrow> (Address, nat) result" where
  "eip2930_recover cr lib t =
     and_then (sig_try_from cr (sig_bytes (at_r t) (at_s t) (at_odd_y_parity t)))
       (\<lambda>sig. sig_recover cr sig (eip2930_request_hash cr lib (eip2930_request t)))"

definition eip1559_recover :: "crypto \<Rightarrow> rlp_lib \<Rightarrow> EIP1559Transaction \<Rightarrow> (Address, nat) result" where
  "eip1559_recover cr lib t =
     and_then (sig_try_from cr (sig_bytes (dt_r t) (dt_s t) (dt_odd_y_parity t)))
       (\<lambda>sig. sig_recover cr sig (eip1559_request_hash cr lib (eip1559_request t)))"

fun tx_recover :: "crypto \<Rightarrow> rlp_lib \<Rightarrow> TypedTransaction \<Rightarrow> (Address, nat) result" where
  "tx_recover cr lib (Legacy tx) = legacy_recover cr lib tx"
| "tx_recover cr lib (EIP2930 tx) = eip2930_recover cr lib tx"
| "tx_recover cr lib (EIP1559 tx) = eip1559_recover cr lib tx"

section \<open>Queued transactions\<close>

definition mi_new :: "TypedTransaction \<Rightarrow> MaybeImpersonatedTransaction" where
  "mi_new tx = \<lparr>mi_transaction = tx, mi_impersonated_sender = None\<rparr>"

definition mi_impersonated :: "TypedTransaction \<Rightarrow> Address \<Rightarrow> MaybeImpersonatedTransaction" where
  "mi_impersonated tx sender = \<lparr>mi_transaction = tx, mi_impersonated_sender = Some sender\<rparr>"

definition mi_recover :: "crypto \<Rightarrow> rlp_lib \<Rightarrow> MaybeImpersonatedTransaction \<Rightarrow> (Address, nat) result" where
  "mi_recover cr lib t =
     (case mi_impersonated_sender t of
        Some sender \<Rightarrow> Ok sender
      | None \<Rightarrow> tx_recover cr lib (mi_transaction t))"

definition mi_hash :: "crypto \<Rightarrow> rlp_lib \<Rightarrow> MaybeImpersonatedTransaction \<Rightarrow> H256" where
  "mi_hash cr lib t =
     (if is_impersonated_tx (mi_transaction t) then
        (case mi_impersonated_sender t of
           Some sender \<Rightarrow> impersonated_hash cr lib (mi_transaction t) sender
         | None \<Rightarrow> tx_hash cr lib (mi_transaction t))
      else tx_hash cr lib (mi_transaction t))"

definition pd_new :: "crypto \<Rightarrow> rlp_lib \<Rightarrow> TypedTransaction \<Rightarrow> (PendingTransaction, nat) result" where
  "pd_new cr lib tx =
     and_then (tx_recover cr lib tx) (\<lambda>sender.
       Ok \<lparr>pd_transaction = mi_new tx, pd_sender = sender, pd_hash = tx_hash cr lib tx\<rparr>)"

definition pd_with_impersonated :: "crypto \<Rightarrow> rlp_lib \<Rightarrow> TypedTransaction \<Rightarrow> Address \<Rightarrow> PendingTransaction" where
  "pd_with_impersonated cr lib tx sender =
     \<lparr>pd_transaction = mi_impersonated tx sender, pd_sender = sender,
      pd_hash = impersonated_hash cr lib tx sender\<rparr>"

section \<open>Round trips\<close>

lemma rlp_okD:
  assumes "rlp_ok lib"
  shows "val_u256 lib (rlp_u256 lib x) = Ok x" "val_u64 lib (rlp_u64 lib n) = Ok n"
    "val_bool lib (rlp_bool lib b) = Ok b" "val_bytes lib (rlp_value lib bs) = Ok bs"
    "val_address lib (rlp_value lib (address_bytes a)) = Ok a"
    "val_access_list lib (rlp_access_list lib al) = Ok al"
    "\<forall>i \<in> set xs. is_item lib i \<Longrightarrow> rlp_items lib (rlp_list lib xs) = Ok xs"
    "xs \<noteq> [] \<Longrightarrow> \<exists>d. d \<noteq> [] \<and> rlp_data lib (rlp_list lib xs) = Ok d"
    "rlp_data lib (rlp_value lib bs) = Ok bs" "rlp_is_list lib (rlp_list lib xs)"
    "\<not> rlp_is_list lib (rlp_value lib bs)" "rlp_is_data lib (rlp_value lib bs)"
    "rlp_is_empty lib (rlp_value lib bs) \<longleftrightarrow> bs = []"
    "val_u8 lib (rlp_u8 lib k) = Ok k" "val_h256 lib (rlp_value lib (be_bytes 32 x)) = Ok x"
    "val_h64 lib (rlp_value lib (be_bytes 8 n)) = Ok n"
    "val_bloom lib (rlp_value lib (be_bytes 256 bl)) = Ok bl"
  using assms by (simp_all add: rlp_ok_def)

lemma is_item_kind: "is_item lib (kind_rlp lib k)"
  by (cases k) (simp_all add: is_item.intros)

lemmas is_item_simps [simp] = is_item.intros(1-6) is_item_kind

lemma is_item_list [simp]: "\<forall>x \<in> set xs. is_item lib x \<Longrightarrow> is_item lib (rlp_list lib xs)"
  by (rule is_item.intros(7))

lemma length_be_bytes [simp]: "length (be_bytes n x) = n"
  by (simp add: be_bytes_def length_le_bytes)

lemma address_bytes_neq [simp]: "address_bytes a \<noteq> []"
  using length_be_bytes [of 20 a] unfolding address_bytes_def by (metis list.size(3) zero_neq_numeral)

lemma kind_roundtrip: "rlp_ok lib \<Longrightarrow> kind_decode lib (kind_rlp lib k) = Ok k"
  by (cases k) (simp_all add: kind_decode_def rlp_okD)

lemmas rlp_simps = rlp_okD kind_roundtrip

lemma legacy_roundtrip: "rlp_ok lib \<Longrightarrow> legacy_decode lib (legacy_rlp lib t) = Ok t"
  by (simp add: legacy_decode_def legacy_rlp_def rlp_simps)

lemma eip2930_roundtrip: "rlp_ok lib \<Longrightarrow> eip2930_decode lib (eip2930_rlp lib t) = Ok t"
  by (simp add: eip2930_decode_def eip2930_rlp_def rlp_simps)

lemma eip1559_roundtrip: "rlp_ok lib \<Longrightarrow> eip1559_decode lib (eip1559_rlp lib t) = Ok t"
  by (simp add: eip1559_decode_def eip1559_rlp_def rlp_simps)

lemma typed_roundtrip:
  assumes "rlp_ok lib"
  shows "typed_decode lib (typed_rlp lib tx) = Ok tx"
proof (cases tx)
  case (Legacy t)
  obtain d where "d \<noteq> []" "rlp_data lib (legacy_rlp lib t) = Ok d"
    unfolding legacy_rlp_def using rlp_okD(8) [OF assms] by blast
  moreover have "rlp_is_list lib (legacy_rlp lib t)" by (simp add: legacy_rlp_def rlp_simps assms)
  ultimately show ?thesis
    using Legacy by (cases d) (simp_all add: typed_decode_def legacy_roundtrip assms)
qed (simp_all add: typed_decode_def enveloped_def rlp_simps eip2930_roundtrip eip1559_roundtrip assms)

section \<open>open-fastrlp\<close>

text \<open>
  The second encoding, with the derived encoders of the three transaction structs and the string
  header as parameters.  A decoder returns the value and the rest of the buffer.
\<close>

datatype FastError = FastCustom string | FastOther nat

record fast_lib =
  fl_legacy :: "LegacyTransaction \<Rightarrow> bytes"
  fl_eip2930 :: "EIP2930Transaction \<Rightarrow> bytes"
  fl_eip1559 :: "EIP1559Transaction \<Rightarrow> bytes"
  fl_legacy_len :: "LegacyTransaction \<Rightarrow> nat"
  fl_eip2930_len :: "EIP2930Transaction \<Rightarrow> nat"
  fl_eip1559_len :: "EIP1559Transaction \<Rightarrow> nat"
  fl_header :: "nat \<Rightarrow> bytes"
  fl_length_of_length :: "nat \<Rightarrow> nat"
  fl_header_decode :: "bytes \<Rightarrow> (bytes, FastError) result"
  fl_legacy_decode :: "bytes \<Rightarrow> (LegacyTransaction \<times> bytes, FastError) result"
  fl_eip2930_decode :: "bytes \<Rightarrow> (EIP2930Transaction \<times> bytes, FastError) result"
  fl_eip1559_decode :: "bytes \<Rightarrow> (EIP1559Transaction \<times> bytes, FastError) result"

fun fast_encode :: "fast_lib \<Rightarrow> TypedTransaction \<Rightarrow> bytes" where
  "fast_encode fl (Legacy tx) = fl_legacy fl tx"
| "fast_encode fl (EIP2930 tx) = fl_header fl (fl_eip2930_len fl tx + 1) @ 1 # fl_eip2930 fl tx"
| "fast_encode fl (EIP1559 tx) = fl_header fl (fl_eip1559_len fl tx + 1) @ 2 # fl_eip1559 fl tx"

fun fast_length :: "fast_lib \<Rightarrow> TypedTransaction \<Rightarrow> nat" where
  "fast_length fl (Legacy tx) = fl_legacy_len fl tx"
| "fast_length fl (EIP2930 tx) =
     (let payload_len = fl_eip2930_len fl tx + 1 in payload_len + fl_length_of_length fl payload_len)"
| "fast_length fl (EIP1559 tx) =
     (let payload_len = fl_eip1559_len fl tx + 1 in payload_len + fl_length_of_length fl payload_len)"

text \<open>\<open>EMPTY_LIST_CODE\<close> is \<open>0xc0\<close>.\<close>

definition fast_decode :: "fast_lib \<Rightarrow> bytes \<Rightarrow> (TypedTransaction \<times> bytes, FastError) result" where
  "fast_decode fl buf =
     (case buf of
        [] \<Rightarrow> Err (FastCustom ''empty slice'')
      | first # _ \<Rightarrow>
          if first < 0xc0 then
            and_then (fl_header_decode fl buf) (\<lambda>buf.
              case buf of
                [] \<Rightarrow> Err (FastCustom ''typed tx cannot be decoded from an empty slice'')
              | ty # rest \<Rightarrow>
                  if ty = 1 then map_ok (\<lambda>(t, b). (EIP2930 t, b)) (fl_eip2930_decode fl rest)
                  else if ty = 2 then map_ok (\<lambda>(t, b). (EIP1559 t, b)) (fl_eip1559_decode fl rest)
                  else Err (FastCustom ''invalid tx type''))
          else if first = 0xc0 then
            Err (FastCustom ''an empty list is not a valid transaction encoding'')
          else map_ok (\<lambda>(t, b). (Legacy t, b)) (fl_legacy_decode fl buf))"

text \<open>
  What the derived encoders and the header promise: lengths are exact, decoding undoes encoding and
  leaves the rest of the buffer, a list starts above \<open>0xc0\<close> and a string header below it.
\<close>

definition fast_ok :: "fast_lib \<Rightarrow> bool" where
  "fast_ok fl \<longleftrightarrow>
     (\<forall>t. fl_legacy_len fl t = length (fl_legacy fl t)) \<and>
     (\<forall>t. fl_eip2930_len fl t = length (fl_eip2930 fl t)) \<and>
     (\<forall>t. fl_eip1559_len fl t = length (fl_eip1559 fl t)) \<and>
     (\<forall>n. length (fl_header fl n) = fl_length_of_length fl n) \<and>
     (\<forall>t. \<exists>b bs. fl_legacy fl t = b # bs \<and> 0xc0 < b) \<and>
     (\<forall>t. fl_eip2930 fl t \<noteq> []) \<and> (\<forall>t. fl_eip1559 fl t \<noteq> []) \<and>
     (\<forall>n. \<exists>b bs. fl_header fl n = b # bs \<and> b < 0xc0) \<and>
     (\<forall>n rest. 2 \<le> n \<longrightarrow> n \<le> length rest \<longrightarrow> fl_header_decode fl (fl_header fl n @ rest) = Ok rest) \<and>
     (\<forall>t rest. fl_legacy_decode fl (fl_legacy fl t @ rest) = Ok (t, rest)) \<and>
     (\<forall>t rest. fl_eip2930_decode fl (fl_eip2930 fl t @ rest) = Ok (t, rest)) \<and>
     (\<forall>t rest. fl_eip1559_decode fl (fl_eip1559 fl t @ rest) = Ok (t, rest))"

lemma fast_decode_typed:
  assumes "fl_header fl n = b # bs" "b < 0xc0"
    and "fl_header_decode fl (fl_header fl n @ ty # body @ rest) = Ok (ty # body @ rest)"
  shows "fast_decode fl (fl_header fl n @ ty # body @ rest) =
    (if ty = 1 then map_ok (\<lambda>(t, b). (EIP2930 t, b)) (fl_eip2930_decode fl (body @ rest))
     else if ty = 2 then map_ok (\<lambda>(t, b). (EIP1559 t, b)) (fl_eip1559_decode fl (body @ rest))
     else Err (FastCustom ''invalid tx type''))"
  using assms by (simp add: fast_decode_def)

lemma fast_roundtrip:
  assumes ok: "fast_ok fl"
  shows "fast_decode fl (fast_encode fl tx @ rest) = Ok (tx, rest)"
proof -
  have header: "\<exists>b bs. fl_header fl n = b # bs \<and> b < 0xc0" for n
    using ok by (simp add: fast_ok_def)
  have strip: "2 \<le> n \<Longrightarrow> n \<le> length xs \<Longrightarrow> fl_header_decode fl (fl_header fl n @ xs) = Ok xs" for n xs
    using ok by (simp add: fast_ok_def)
  show ?thesis
  proof (cases tx)
    case (Legacy t)
    have "\<exists>b bs. fl_legacy fl t = b # bs \<and> 0xc0 < b" using ok by (simp add: fast_ok_def)
    then obtain b bs where b: "fl_legacy fl t = b # bs" "0xc0 < b" by blast
    moreover from b(2) have "b \<noteq> 0xc0" "\<not> b < 0xc0" by auto
    moreover have "fl_legacy_decode fl (fl_legacy fl t @ rest) = Ok (t, rest)"
      using ok by (simp add: fast_ok_def)
    ultimately show ?thesis using Legacy by (simp add: fast_decode_def)
  next
    case (EIP2930 t)
    let ?n = "fl_eip2930_len fl t + 1"
    have len: "fl_eip2930_len fl t = length (fl_eip2930 fl t)" "fl_eip2930 fl t \<noteq> []"
      "fl_eip2930_decode fl (fl_eip2930 fl t @ rest) = Ok (t, rest)"
      using ok by (simp_all add: fast_ok_def)
    obtain b bs where b: "fl_header fl ?n = b # bs" "b < 0xc0" using header by blast
    have "fl_header_decode fl (fl_header fl ?n @ 1 # fl_eip2930 fl t @ rest) = Ok (1 # fl_eip2930 fl t @ rest)"
      using len(1,2) by (intro strip) (simp_all add: Suc_le_eq)
    from fast_decode_typed [OF b this] len(3) EIP2930 show ?thesis by simp
  next
    case (EIP1559 t)
    let ?n = "fl_eip1559_len fl t + 1"
    have len: "fl_eip1559_len fl t = length (fl_eip1559 fl t)" "fl_eip1559 fl t \<noteq> []"
      "fl_eip1559_decode fl (fl_eip1559 fl t @ rest) = Ok (t, rest)"
      using ok by (simp_all add: fast_ok_def)
    obtain b bs where b: "fl_header fl ?n = b # bs" "b < 0xc0" using header by blast
    have "fl_header_decode fl (fl_header fl ?n @ 2 # fl_eip1559 fl t @ rest) = Ok (2 # fl_eip1559 fl t @ rest)"
      using len(1,2) by (intro strip) (simp_all add: Suc_le_eq)
    from fast_decode_typed [OF b this] len(3) EIP1559 show ?thesis by simp
  qed
qed

lemma fast_length_exact: "fast_ok fl \<Longrightarrow> fast_length fl tx = length (fast_encode fl tx)"
  by (cases tx) (auto simp: fast_ok_def Let_def)

section \<open>A crate that keeps the contract\<close>

text \<open>
  A unary code of tagged numbers shows that \<open>rlp_ok\<close> and \<open>fast_ok\<close> can hold.
\<close>

definition ex_enc :: "nat \<times> nat list list \<Rightarrow> bytes" where
  "ex_enc x = replicate (Suc (to_nat x)) 0xC0"

definition ex_dec :: "bytes \<Rightarrow> nat \<times> nat list list" where
  "ex_dec b = from_nat (length b - 1)"

lemma ex_dec_enc [simp]: "ex_dec (ex_enc x) = x"
  by (simp add: ex_dec_def ex_enc_def)

definition ex_hash :: "bytes \<Rightarrow> 'a::len word" where
  "ex_hash b = of_nat (le_nat (rev (map of_nat (hd (snd (ex_dec b))))))"

definition ex_rlp :: rlp_lib where
  "ex_rlp = \<lparr>rlp_u256 = \<lambda>x. ex_enc (0, [[unat x]]), rlp_u64 = \<lambda>x. ex_enc (0, [[unat x]]),
     rlp_u8 = \<lambda>x. ex_enc (0, [[unat x]]), rlp_bool = \<lambda>b. ex_enc (0, [[if b then 1 else 0]]),
     rlp_value = \<lambda>b. ex_enc (1, [map unat b]),
     rlp_access_list = \<lambda>l. ex_enc (0, [[to_nat (map (\<lambda>(a, ks). (unat a, map unat ks)) l)]]),
     rlp_list = \<lambda>xs. ex_enc (2, map (map unat) xs),
     val_u256 = \<lambda>b. Ok (of_nat (hd (hd (snd (ex_dec b))))),
     val_u64 = \<lambda>b. Ok (of_nat (hd (hd (snd (ex_dec b))))),
     val_u8 = \<lambda>b. Ok (of_nat (hd (hd (snd (ex_dec b))))),
     val_bool = \<lambda>b. Ok (hd (hd (snd (ex_dec b))) = 1),
     val_bytes = \<lambda>b. Ok (map of_nat (hd (snd (ex_dec b)))),
     val_address = \<lambda>b. Ok (ex_hash b), val_h256 = \<lambda>b. Ok (ex_hash b), val_h64 = \<lambda>b. Ok (ex_hash b),
     val_bloom = \<lambda>b. Ok (ex_hash b),
     val_access_list = \<lambda>b. Ok (map (\<lambda>(a, ks). (of_nat a, map of_nat ks))
        (from_nat (hd (hd (snd (ex_dec b)))) :: (nat \<times> nat list) list)),
     rlp_items = \<lambda>b. Ok (map (map of_nat) (snd (ex_dec b))),
     rlp_data = \<lambda>b. Ok (if fst (ex_dec b) = 2 then [0] else map of_nat (hd (snd (ex_dec b)))),
     rlp_is_list = \<lambda>b. fst (ex_dec b) = 2, rlp_is_data = \<lambda>b. fst (ex_dec b) \<noteq> 2,
     rlp_is_empty = \<lambda>b. snd (ex_dec b) = [[]]\<rparr>"

lemma of_nat_unat_id [simp]: "(of_nat \<circ> unat) = (id :: 'a::len word \<Rightarrow> 'a word)"
  by (simp add: comp_def id_def)

lemma ex_hash_bytes:
  fixes x :: "'a::len word"
  assumes "LENGTH('a) \<le> 8 * n"
  shows "ex_hash (ex_enc (Suc 0, [map unat (be_bytes n x)])) = x"
proof -
  have "unat x < 2 ^ (8 * n)"
    using assms by (intro order_less_le_trans [OF unat_word_less]) simp
  then have "unat x mod 256 ^ n = unat x"
    by (simp add: power_mult)
  then show ?thesis by (simp add: ex_hash_def be_bytes_def le_nat_le_bytes)
qed

lemma ex_rlp_ok: "rlp_ok ex_rlp"
proof -
  have "map ((\<lambda>(a, ks). (of_nat a, map of_nat ks)) \<circ> (\<lambda>(a, ks). (unat a, map unat ks))) l = l"
    for l :: AccessList
    by (induction l) (auto simp: comp_def)
  then show ?thesis by (simp add: rlp_ok_def ex_rlp_def ex_hash_bytes address_bytes_def)
qed

definition ex_delim :: "bytes \<Rightarrow> bytes" where
  "ex_delim b = 255 # b @ [1]"

definition ex_undelim :: "(bytes \<Rightarrow> ('a, DecoderError) result) \<Rightarrow> bytes \<Rightarrow> ('a \<times> bytes, FastError) result" where
  "ex_undelim dec b = (let zs = takeWhile (\<lambda>x. x = 0xC0) (tl b) in
     case dec zs of Ok t \<Rightarrow> Ok (t, drop (length zs + 2) b) | Err _ \<Rightarrow> Err (FastOther 0))"

definition ex_fast :: fast_lib where
  "ex_fast = \<lparr>fl_legacy = \<lambda>t. ex_delim (legacy_rlp ex_rlp t), fl_eip2930 = \<lambda>t. ex_delim (eip2930_rlp ex_rlp t),
     fl_eip1559 = \<lambda>t. ex_delim (eip1559_rlp ex_rlp t),
     fl_legacy_len = \<lambda>t. length (ex_delim (legacy_rlp ex_rlp t)),
     fl_eip2930_len = \<lambda>t. length (ex_delim (eip2930_rlp ex_rlp t)),
     fl_eip1559_len = \<lambda>t. length (ex_delim (eip1559_rlp ex_rlp t)),
     fl_header = \<lambda>n. [128], fl_length_of_length = \<lambda>n. 1, fl_header_decode = \<lambda>b. Ok (tl b),
     fl_legacy_decode = ex_undelim (legacy_decode ex_rlp),
     fl_eip2930_decode = ex_undelim (eip2930_decode ex_rlp),
     fl_eip1559_decode = ex_undelim (eip1559_decode ex_rlp)\<rparr>"

lemma ex_undelim_delim:
  assumes "dec b = Ok t" "\<forall>x \<in> set b. x = 0xC0"
  shows "ex_undelim dec (ex_delim b @ rest) = Ok (t, rest)"
proof -
  have "takeWhile (\<lambda>x. x = 0xC0) (b @ 1 # rest) = b"
    using assms(2) by (subst takeWhile_append2) auto
  with assms(1) show ?thesis by (simp add: ex_undelim_def ex_delim_def Let_def)
qed

lemma ex_rlp_byte: "x \<in> set (rlp_list ex_rlp xs) \<Longrightarrow> x = 0xC0"
  by (auto simp: ex_rlp_def ex_enc_def)

lemma ex_fast_ok: "fast_ok ex_fast"
proof -
  have "ex_undelim (legacy_decode ex_rlp) (ex_delim (legacy_rlp ex_rlp t) @ rest) = Ok (t, rest)" for t rest
    by (intro ex_undelim_delim legacy_roundtrip ex_rlp_ok) (auto simp: legacy_rlp_def dest: ex_rlp_byte)
  moreover have "ex_undelim (eip2930_decode ex_rlp) (ex_delim (eip2930_rlp ex_rlp t) @ rest) = Ok (t, rest)" for t rest
    by (intro ex_undelim_delim eip2930_roundtrip ex_rlp_ok) (auto simp: eip2930_rlp_def dest: ex_rlp_byte)
  moreover have "ex_undelim (eip1559_decode ex_rlp) (ex_delim (eip1559_rlp ex_rlp t) @ rest) = Ok (t, rest)" for t rest
    by (intro ex_undelim_delim eip1559_roundtrip ex_rlp_ok) (auto simp: eip1559_rlp_def dest: ex_rlp_byte)
  ultimately show ?thesis by (simp add: fast_ok_def ex_fast_def) (simp add: ex_delim_def)
qed

section \<open>Properties\<close>

lemma typed_codec: "rlp_ok lib \<Longrightarrow> codec (typed_rlp lib) (\<lambda>b. ok_opt (typed_decode lib b)) (\<lambda>_. True)"
  by unfold_locales (simp add: typed_roundtrip)

text \<open>
  C14: decoding undoes encoding.  A transaction of any of the three kinds, encoded as RLP, decodes to
  itself, so that two transactions with the same encoding are equal; a wrapped transaction decodes
  to the same transaction without its impersonated sender.
\<close>

theorem typed_tx_roundtrip:
  assumes "rlp_ok lib"
  shows "typed_decode lib (typed_rlp lib tx) = Ok tx \<and>
    mi_decode lib (mi_rlp lib t) = Ok (mi_new (mi_transaction t)) \<and>
    (typed_rlp lib tx = typed_rlp lib tx' \<longrightarrow> tx = tx')"
  using codec.enc_inj [OF typed_codec [OF assms], of tx tx']
  by (simp add: typed_roundtrip assms mi_decode_def mi_rlp_def mi_new_def)

definition ex_1559 :: TypedTransaction where
  "ex_1559 = EIP1559 \<lparr>dt_chain_id = 1, dt_nonce = 7, dt_max_priority_fee_per_gas = 2,
     dt_max_fee_per_gas = 9, dt_gas_limit = 21000, dt_kind = Call 5, dt_value = 3, dt_input = [1, 2],
     dt_access_list = [(4, [8, 9])], dt_odd_y_parity = True, dt_r = 11, dt_s = 12\<rparr>"

theorem typed_tx_roundtrip_witness:
  "rlp_ok ex_rlp \<and> typed_decode ex_rlp (typed_rlp ex_rlp ex_1559) = Ok ex_1559"
  using typed_tx_roundtrip [OF ex_rlp_ok, of ex_1559] ex_rlp_ok by simp

text \<open>
  The second encoding.  The announced length is the length of the encoding, and decoding a buffer
  that starts with an encoded transaction returns the transaction and leaves the rest of the buffer.
\<close>

theorem fast_tx_roundtrip:
  assumes "fast_ok fl"
  shows "fast_decode fl (fast_encode fl tx @ rest) = Ok (tx, rest) \<and>
    fast_length fl tx = length (fast_encode fl tx)"
  using fast_roundtrip [OF assms] fast_length_exact [OF assms] by blast

theorem fast_tx_roundtrip_witness:
  "fast_ok ex_fast \<and> fast_decode ex_fast (fast_encode ex_fast ex_1559 @ [3, 4]) = Ok (ex_1559, [3, 4])"
  using fast_tx_roundtrip [OF ex_fast_ok, of ex_1559 "[3, 4]"] ex_fast_ok by simp

text \<open>
  The sender and the hash that a queued transaction stores are the ones its wrapped transaction
  reports, for a recovered transaction and for an impersonated one that carries the impersonation
  signature.
\<close>

theorem queued_tx_consistent:
  "(case pd_new cr lib tx of
      Ok p \<Rightarrow> mi_recover cr lib (pd_transaction p) = Ok (pd_sender p) \<and>
        mi_hash cr lib (pd_transaction p) = pd_hash p
    | Err e \<Rightarrow> tx_recover cr lib tx = Err e) \<and>
   mi_recover cr lib (pd_transaction (pd_with_impersonated cr lib tx sender)) = Ok sender \<and>
   (mi_hash cr lib (pd_transaction (pd_with_impersonated cr lib tx sender)) =
      (if tx_signature tx = IMPERSONATED_SIGNATURE
       then pd_hash (pd_with_impersonated cr lib tx sender) else tx_hash cr lib tx))"
  by (cases "tx_recover cr lib tx")
    (simp_all add: pd_new_def pd_with_impersonated_def mi_recover_def mi_hash_def mi_new_def
      mi_impersonated_def is_impersonated_tx_def)

end
