(* ===== verification/Fees.thy ===== *)
theory Fees
  imports Transaction "HOL-Library.Sublist"
begin

text \<open>
  \<open>anvil/src/eth/fees.rs\<close>: the fee manager, the base fee of the next block (EIP-1559), the cache of
  fee history entries with its reward percentiles, and the fee fields of a request.  Floating point is
  not modelled: the gas that a percentile of a block stands for is a parameter.
\<close>

section \<open>The fee manager\<close>

definition MAX_FEE_HISTORY_CACHE_SIZE :: u64 where "MAX_FEE_HISTORY_CACHE_SIZE = 2048"
definition INITIAL_BASE_FEE :: u64 where "INITIAL_BASE_FEE = 1000000000"
definition INITIAL_GAS_PRICE :: u64 where "INITIAL_GAS_PRICE = 1875000000"
definition BASE_FEE_CHANGE_DENOMINATOR :: u64 where "BASE_FEE_CHANGE_DENOMINATOR = 8"
definition EIP1559_ELASTICITY_MULTIPLIER :: u64 where "EIP1559_ELASTICITY_MULTIPLIER = 2"

text \<open>
  The state of a \<open>FeeManager\<close>.  \<open>SpecId\<close> is an enum of revm; the manager compares its number
  with that of London, which is the parameter \<open>london\<close>.
\<close>

record FeeManager =
  fm_spec_id :: u8
  fm_base_fee :: U256
  fm_gas_price :: U256

definition fm_new :: "u8 \<Rightarrow> U256 \<Rightarrow> U256 \<Rightarrow> FeeManager" where
  "fm_new spec_id base_fee gas_price =
     \<lparr>fm_spec_id = spec_id, fm_base_fee = base_fee, fm_gas_price = gas_price\<rparr>"

definition is_eip1559 :: "u8 \<Rightarrow> FeeManager \<Rightarrow> bool" where
  "is_eip1559 london fm \<longleftrightarrow> london \<le> fm_spec_id fm"

definition suggested_priority_fee :: U256 where
  "suggested_priority_fee = 1000000000"

definition base_fee_of :: "u8 \<Rightarrow> FeeManager \<Rightarrow> U256" where
  "base_fee_of london fm = (if is_eip1559 london fm then fm_base_fee fm else 0)"

definition gas_price_of :: "u8 \<Rightarrow> FeeManager \<Rightarrow> U256" where
  "gas_price_of london fm =
     (if is_eip1559 london fm then saturating_add (base_fee_of london fm) suggested_priority_fee
      else fm_gas_price fm)"

text \<open>The plain operators of \<open>U256\<close> panic on overflow.\<close>

definition max_priority_fee :: "FeeManager \<Rightarrow> U256 option" where
  "max_priority_fee fm = do {
     d \<leftarrow> mul_chk (fm_base_fee fm) 2;
     add_chk suggested_priority_fee d
   }"

definition set_gas_price :: "U256 \<Rightarrow> FeeManager \<Rightarrow> FeeManager" where
  "set_gas_price price fm = fm\<lparr>fm_gas_price := price\<rparr>"

definition set_base_fee :: "U256 \<Rightarrow> FeeManager \<Rightarrow> FeeManager" where
  "set_base_fee fee fm = fm\<lparr>fm_base_fee := fee\<rparr>"

text \<open>
  \<open>calculate_next_block_base_fee\<close>: the products are taken in 128 bits; \<open>None\<close> is a panic, of the
  division by a zero gas target or of the final addition.
\<close>

definition fee_delta :: "u64 \<Rightarrow> u64 \<Rightarrow> u64 \<Rightarrow> u128 option" where
  "fee_delta base_fee gas_used_delta gas_target = do {
     p \<leftarrow> mul_chk (ucast base_fee) (ucast gas_used_delta);
     q \<leftarrow> div_chk p (ucast gas_target);
     div_chk q (ucast BASE_FEE_CHANGE_DENOMINATOR)
   }"

definition calculate_next_block_base_fee :: "u64 \<Rightarrow> u64 \<Rightarrow> u64 \<Rightarrow> u64 option" where
  "calculate_next_block_base_fee gas_used gas_limit base_fee = do {
     gas_target \<leftarrow> div_chk gas_limit EIP1559_ELASTICITY_MULTIPLIER;
     if gas_used = gas_target then Some base_fee
     else if gas_target < gas_used then do {
       gas_used_delta \<leftarrow> sub_chk gas_used gas_target;
       d \<leftarrow> fee_delta base_fee gas_used_delta gas_target;
       add_chk base_fee (ucast (max 1 d))
     } else do {
       gas_used_delta \<leftarrow> sub_chk gas_target gas_used;
       d \<leftarrow> fee_delta base_fee gas_used_delta gas_target;
       Some (saturating_sub base_fee (ucast d))
     }
   }"

definition get_next_block_base_fee_per_gas :: "u8 \<Rightarrow> FeeManager \<Rightarrow> U256 \<Rightarrow> U256 \<Rightarrow> U256 \<Rightarrow> u64 option" where
  "get_next_block_base_fee_per_gas london fm gas_used gas_limit last_fee_per_gas =
     (if base_fee_of london fm = 0 then Some 0
      else do {
        u \<leftarrow> as_u64 gas_used;
        l \<leftarrow> as_u64 gas_limit;
        f \<leftarrow> as_u64 last_fee_per_gas;
        calculate_next_block_base_fee u l f
      })"

section \<open>The fee history\<close>

record 'r FeeHistoryCacheItem =
  fi_base_fee :: u64
  fi_gas_used_ratio :: 'r
  fi_rewards :: "u64 list"

type_synonym 'r FeeHistoryCache = "(u64, 'r FeeHistoryCacheItem) fmap"

text \<open>
  \<open>create_cache_entry\<close>: the effective reward of a transaction (\<open>None\<close> is the panic of
  \<open>as_u64\<close>), the transactions of a block sorted by it, and the reward at a target gas.
\<close>

fun effective_reward :: "U256 \<Rightarrow> TypedTransaction option \<Rightarrow> u64 option" where
  "effective_reward base_fee (Some (Legacy t)) = as_u64 (saturating_sub (lt_gas_price t) base_fee)"
| "effective_reward base_fee (Some (EIP2930 t)) = as_u64 (saturating_sub (at_gas_price t) base_fee)"
| "effective_reward base_fee (Some (EIP1559 t)) =
     as_u64 (min (dt_max_priority_fee_per_gas t) (saturating_sub (dt_max_fee_per_gas t) base_fee))"
| "effective_reward base_fee None = Some 0"

fun tx_rewards :: "U256 \<Rightarrow> U256 list \<Rightarrow> TypedTransaction list \<Rightarrow> (u64 \<times> u64) list option" where
  "tx_rewards base_fee [] txs = Some []"
| "tx_rewards base_fee (gas_used # receipts) txs = do {
     g \<leftarrow> as_u64 gas_used;
     r \<leftarrow> effective_reward base_fee (case txs of [] \<Rightarrow> None | t # _ \<Rightarrow> Some t);
     rest \<leftarrow> tx_rewards base_fee receipts (tl txs);
     Some ((g, r) # rest)
   }"

text \<open>The closure of the \<open>filter_map\<close>; its sum can overflow.\<close>

fun reward_at :: "u64 \<Rightarrow> u64 \<Rightarrow> (u64 \<times> u64) list \<Rightarrow> u64 option option" where
  "reward_at target_gas sum_gas [] = Some None"
| "reward_at target_gas sum_gas ((gas_used, reward) # txs) = do {
     s \<leftarrow> add_chk sum_gas gas_used;
     if target_gas \<le> s then Some (Some reward) else reward_at target_gas s txs
   }"

fun rewards_at :: "u64 list \<Rightarrow> (u64 \<times> u64) list \<Rightarrow> u64 list option" where
  "rewards_at [] txs = Some []"
| "rewards_at (t # ts) txs = do {
     r \<leftarrow> reward_at t 0 txs;
     rs \<leftarrow> rewards_at ts txs;
     Some (case r of Some x \<Rightarrow> x # rs | None \<Rightarrow> rs)
   }"

text \<open>
  \<open>target_gas i gas_used\<close> is the gas of the percentile \<open>i / 2\<close>, a product of floats cast to
  \<open>u64\<close>, and \<open>ratio\<close> the float that \<open>gas_used_ratio\<close> stores.
\<close>

definition create_cache_entry :: "(nat \<Rightarrow> u64 \<Rightarrow> u64) \<Rightarrow> (u64 \<Rightarrow> u64 \<Rightarrow> 'r) \<Rightarrow> 'r \<Rightarrow> U256 \<Rightarrow>
    (U256 \<times> U256 \<times> U256 \<times> TypedTransaction list) option \<Rightarrow> U256 list option \<Rightarrow>
    ('r FeeHistoryCacheItem \<times> u64 option) option" where
  "create_cache_entry target_gas ratio zero base_fee block receipts = do {
     b \<leftarrow> as_u64 base_fee;
     (case (block, receipts) of
        (Some (number, gas_used, gas_limit, txs), Some receipt_gas) \<Rightarrow> do {
          n \<leftarrow> as_u64 number;
          u \<leftarrow> as_u64 gas_used;
          l \<leftarrow> as_u64 gas_limit;
          transactions \<leftarrow> tx_rewards base_fee receipt_gas txs;
          rewards \<leftarrow> rewards_at (map (\<lambda>i. target_gas i u) [0..<201]) (sort_key snd transactions);
          Some (\<lparr>fi_base_fee = b, fi_gas_used_ratio = ratio u l, fi_rewards = rewards\<rparr>, Some n)
        }
      | _ \<Rightarrow> Some (\<lparr>fi_base_fee = b, fi_gas_used_ratio = zero, fi_rewards = replicate 201 0\<rparr>, None))
   }"

text \<open>\<open>insert_cache_entry\<close>; \<open>pop_next - num\<close> can underflow.\<close>

fun remove_old :: "u64 \<Rightarrow> nat \<Rightarrow> nat \<Rightarrow> 'r FeeHistoryCache \<Rightarrow> 'r FeeHistoryCache option" where
  "remove_old pop_next num 0 cache = Some cache"
| "remove_old pop_next num (Suc n) cache =
     (if num \<le> unat pop_next then remove_old pop_next (Suc num) n (fmdrop (pop_next - of_nat num) cache)
      else None)"

definition insert_cache_entry :: "u64 \<Rightarrow> 'r FeeHistoryCacheItem \<Rightarrow> u64 option \<Rightarrow> 'r FeeHistoryCache \<Rightarrow>
    'r FeeHistoryCache option" where
  "insert_cache_entry fee_history_limit item block_number cache =
     (case block_number of
        None \<Rightarrow> Some cache
      | Some n \<Rightarrow>
          (let cache' = fmupd n item cache;
               pop_next = saturating_sub n fee_history_limit;
               num_remove = card (fmdom' cache') - unat fee_history_limit
           in remove_old pop_next 0 num_remove cache'))"

section \<open>Fee fields of a request\<close>

record FeeDetails =
  fd_gas_price :: "U256 option"
  fd_max_fee_per_gas :: "U256 option"
  fd_max_priority_fee_per_gas :: "U256 option"

definition fd_zero :: FeeDetails where
  "fd_zero = \<lparr>fd_gas_price = Some 0, fd_max_fee_per_gas = Some 0, fd_max_priority_fee_per_gas = Some 0\<rparr>"

definition or_zero_fees :: "FeeDetails \<Rightarrow> FeeDetails" where
  "or_zero_fees fd =
     (let no_fees = fd_gas_price fd = None \<and> fd_max_fee_per_gas fd = None in
      \<lparr>fd_gas_price = (if no_fees then Some 0 else fd_gas_price fd),
       fd_max_fee_per_gas = (if no_fees then Some 0 else fd_max_fee_per_gas fd),
       fd_max_priority_fee_per_gas = fd_max_priority_fee_per_gas fd\<rparr>)"

definition fd_split :: "FeeDetails \<Rightarrow> U256 option \<times> U256 option \<times> U256 option" where
  "fd_split fd = (fd_gas_price fd, fd_max_fee_per_gas fd, fd_max_priority_fee_per_gas fd)"

datatype FeeError = InvalidFeeInput

definition fd_new :: "U256 option \<Rightarrow> U256 option \<Rightarrow> U256 option \<Rightarrow> (FeeDetails, FeeError) result" where
  "fd_new request_gas_price request_max_fee request_priority =
     (if request_max_fee = None \<and> request_priority = None then
        Ok \<lparr>fd_gas_price = request_gas_price, fd_max_fee_per_gas = request_gas_price,
            fd_max_priority_fee_per_gas = request_gas_price\<rparr>
      else if (case request_priority of
                 Some p \<Rightarrow> unwrap_or request_max_fee 0 < p | None \<Rightarrow> False)
      then Err InvalidFeeInput
      else Ok \<lparr>fd_gas_price = request_max_fee, fd_max_fee_per_gas = request_max_fee,
               fd_max_priority_fee_per_gas = request_priority\<rparr>)"

section \<open>The base fee\<close>

lemma unat_ucast_u128: "unat (ucast (x :: u64) :: u128) = unat x"
  using unat_u64 [of x] by (simp add: unsigned_ucast_eq take_bit_nat_eq_self)

lemma fee_delta_spec:
  assumes "t \<noteq> 0"
  shows "\<exists>d. fee_delta b g t = Some d \<and> unat d = unat b * unat g div unat t div 8"
proof -
  have lt: "unat b * unat g < 2 ^ 128"
  proof -
    have "unat b * unat g \<le> (2 ^ 64 - 1) * (2 ^ 64 - 1)"
      using unat_u64 [of b] unat_u64 [of g] by (intro mult_mono) simp_all
    also have "\<dots> < (2::nat) ^ 128" by simp
    finally show ?thesis .
  qed
  then obtain m where m: "mul_chk (ucast b :: u128) (ucast g) = Some m"
    by (simp add: mul_chk_def unat_ucast_u128)
  have um: "unat m = unat b * unat g" using unat_mul_chk [OF m] by (simp add: unat_ucast_u128)
  have "(ucast t :: u128) \<noteq> 0"
    using assms by (metis unat_ucast_u128 unat_eq_zero unsigned_0)
  then have "fee_delta b g t = Some (m div ucast t div 8)"
    by (simp add: fee_delta_def m div_chk_def BASE_FEE_CHANGE_DENOMINATOR_def)
  moreover have "unat (m div ucast t div 8) = unat b * unat g div unat t div 8"
    by (simp add: unat_div um unat_ucast_u128)
  ultimately show ?thesis by blast
qed

text \<open>The formula of EIP-1559 over the naturals.\<close>

definition eip1559_base_fee :: "nat \<Rightarrow> nat \<Rightarrow> nat \<Rightarrow> nat" where
  "eip1559_base_fee gas_used gas_limit base_fee =
     (let target = gas_limit div 2 in
      if gas_used = target then base_fee
      else if target < gas_used
      then base_fee + max 1 (base_fee * (gas_used - target) div target div 8)
      else base_fee - base_fee * (target - gas_used) div target div 8)"

lemma delta_le:
  fixes b g t :: nat
  assumes "g \<le> t" "0 < t"
  shows "b * g div t div 8 \<le> b div 8"
proof -
  have "b * g div t \<le> b * t div t" using assms(1) by (intro div_le_mono mult_le_mono2)
  then show ?thesis using assms(2) by (simp add: div_le_mono)
qed

lemma delta_le_odd:
  fixes b g t :: nat
  assumes "g \<le> Suc t" "0 < t"
  shows "b * g div t div 8 \<le> b div 4"
proof -
  have "b * g \<le> b * (2 * t)" using assms by (intro mult_le_mono2) simp
  then have "b * g div t \<le> 2 * b" using assms(2)
    by (metis (no_types, lifting) div_le_mono mult.assoc mult.commute nonzero_mult_div_cancel_right not_less_zero)
  then have "b * g div t div 8 \<le> 2 * b div 8" by (rule div_le_mono)
  also have "\<dots> = b div 4" by presburger
  finally show ?thesis .
qed

lemma next_base_fee_spec:
  assumes "2 \<le> unat l" "u \<le> l"
  shows "calculate_next_block_base_fee u l b =
    (let r = eip1559_base_fee (unat u) (unat l) (unat b) in if r < 2 ^ 64 then Some (of_nat r) else None)"
proof -
  let ?t = "l div 2"
  have t: "div_chk l EIP1559_ELASTICITY_MULTIPLIER = Some ?t" "unat ?t = unat l div 2"
    by (simp_all add: div_chk_def EIP1559_ELASTICITY_MULTIPLIER_def unat_div)
  then have pos: "?t \<noteq> 0" "0 < unat ?t" using assms(1) by (auto simp: unat_gt_0)
  have b64: "unat b < 2 ^ 64" by (rule unat_u64)
  consider "u = ?t" | "?t < u" | "u < ?t" by fastforce
  then show ?thesis
  proof cases
    case 1
    then show ?thesis
      using b64 by (simp add: calculate_next_block_base_fee_def t eip1559_base_fee_def unat_div)
  next
    case 2
    then have lt: "unat l div 2 < unat u" "unat u \<noteq> unat l div 2" using t(2) by (simp_all add: word_less_nat_alt)
    obtain d where d: "fee_delta b (u - ?t) ?t = Some d" "unat d = unat b * unat (u - ?t) div unat ?t div 8"
      using fee_delta_spec [OF pos(1)] by blast
    have g: "unat (u - ?t) = unat u - unat l div 2" using 2 t(2) by (simp add: unat_sub)
    have "unat u - unat l div 2 \<le> Suc (unat l div 2)"
      using assms(2) by (simp add: word_le_nat_alt)
    from delta_le_odd [OF this, of "unat b"] pos(2) t(2) d(2) g have "unat d \<le> unat b div 4" by simp
    then have "unat (max 1 d) = max 1 (unat d)" "unat (max 1 d) < 2 ^ 64"
      using b64 by (auto simp: max_def word_le_nat_alt)
    then have c: "unat (ucast (max 1 d) :: u64) = max 1 (unat d)"
      by (simp add: unsigned_ucast_eq take_bit_nat_eq_self)
    have n: "eip1559_base_fee (unat u) (unat l) (unat b) = unat b + max 1 (unat d)"
      using lt d(2) g t(2) by (simp add: eip1559_base_fee_def Let_def)
    have "u \<noteq> ?t" "?t \<le> u" using 2 by auto
    then have "calculate_next_block_base_fee u l b = add_chk b (ucast (max 1 d))"
      using 2 d(1) by (simp add: calculate_next_block_base_fee_def t sub_chk_def)
    moreover have "b + ucast (max 1 d) = of_nat (unat b + max 1 (unat d))"
      unfolding c [symmetric] by simp
    ultimately show ?thesis unfolding n Let_def using c by (simp add: add_chk_def)
  next
    case 3
    then have lt: "unat u < unat l div 2" using t(2) by (simp add: word_less_nat_alt)
    obtain d where d: "fee_delta b (?t - u) ?t = Some d" "unat d = unat b * unat (?t - u) div unat ?t div 8"
      using fee_delta_spec [OF pos(1)] by blast
    have g: "unat (?t - u) = unat l div 2 - unat u" using 3 t(2) by (simp add: unat_sub)
    have "unat d \<le> unat b div 8"
      using delta_le [of "unat l div 2 - unat u" "unat l div 2" "unat b"] d(2) g t(2) pos(2) by simp
    then have c: "unat (ucast d :: u64) = unat d"
      using b64 by (simp add: unsigned_ucast_eq take_bit_nat_eq_self)
    have n: "eip1559_base_fee (unat u) (unat l) (unat b) = unat b - unat d"
      using lt d(2) g t(2) by (simp add: eip1559_base_fee_def Let_def)
    have "calculate_next_block_base_fee u l b = Some (saturating_sub b (ucast d))"
      using 3 d(1) by (auto simp: calculate_next_block_base_fee_def t sub_chk_def)
    then show ?thesis
      unfolding n Let_def using b64 c
      by (auto simp: word_unat_eq_iff unat_saturating_sub unat_of_nat_u64)
  qed
qed

section \<open>The cache of the fee history\<close>

text \<open>The cache after the blocks from \<open>a\<close> to \<open>n\<close>: the last \<open>limit\<close> of them.\<close>

definition window :: "u64 \<Rightarrow> nat \<Rightarrow> nat \<Rightarrow> u64 set" where
  "window limit a n = {k. a \<le> unat k \<and> unat k \<le> n \<and> n < unat k + unat limit}"

lemma window_image:
  assumes "n < 2 ^ 64" "0 < unat limit"
  shows "unat ` window limit a n = {i. a \<le> i \<and> i \<le> n \<and> n < i + unat limit}"
proof -
  have "i \<in> unat ` window limit a n" if "a \<le> i" "i \<le> n" "n < i + unat limit" for i
  proof (rule image_eqI)
    show eq: "i = unat (of_nat i :: u64)" using that assms(1) by (simp add: unat_of_nat_u64)
    show "(of_nat i :: u64) \<in> window limit a n" unfolding window_def using that eq by simp
  qed
  then show ?thesis by (auto simp: window_def)
qed

lemma card_window:
  assumes "n < 2 ^ 64" "0 < unat limit" "a \<le> n"
  shows "card (window limit a n) = min (n + 1 - a) (unat limit)"
proof -
  have "card (window limit a n) = card (unat ` window limit a n)"
    by (rule card_image [symmetric]) (simp add: inj_on_def word_unat_eq_iff)
  also have "unat ` window limit a n = {max a (n + 1 - unat limit)..n}"
    unfolding window_image [OF assms(1,2)] using assms(2) by auto
  finally have "card (window limit a n) = Suc n - max a (Suc n - unat limit)" by simp
  then show ?thesis using assms(2,3) by linarith
qed

lemma finite_window [simp]: "finite (window limit a n)"
  by simp

lemma insert_window:
  assumes dom: "fmdom' cache = window limit a n" and n: "Suc n < 2 ^ 64" "a \<le> n" and l: "0 < unat limit"
    and k: "unat k = Suc n"
  shows "\<exists>cache'. insert_cache_entry limit item (Some k) cache = Some cache' \<and>
    fmdom' cache' = window limit a (Suc n) \<and> fmlookup cache' k = Some item \<and>
    (\<forall>j \<in> window limit a (Suc n). j \<noteq> k \<longrightarrow> fmlookup cache' j = fmlookup cache j)"
proof -
  let ?c = "fmupd k item cache" and ?pop = "saturating_sub k limit"
  have knew: "k \<notin> window limit a n" using k by (simp add: window_def)
  have card: "card (fmdom' ?c) = Suc (min (n + 1 - a) (unat limit))"
    using card_window [of n limit a] n l knew by (simp add: dom)
  show ?thesis
  proof (cases "unat limit \<le> n + 1 - a")
    case False
    then have "insert_cache_entry limit item (Some k) cache = Some ?c"
      using card by (simp add: insert_cache_entry_def Let_def)
    moreover have "insert k (window limit a n) = window limit a (Suc n)"
      using False n k l by (auto simp: window_def word_unat_eq_iff)
    ultimately show ?thesis using dom by simp
  next
    case True
    have pop: "unat ?pop = Suc n - unat limit" using k by (simp add: unat_saturating_sub)
    have run: "insert_cache_entry limit item (Some k) cache = Some (fmdrop ?pop ?c)"
      using True card by (simp add: insert_cache_entry_def Let_def)
    have "insert k (window limit a n) - {?pop} = window limit a (Suc n)"
      using True n k l pop by (auto simp: window_def word_unat_eq_iff)
    moreover have "?pop \<noteq> k" using pop k l by (auto simp: word_unat_eq_iff)
    moreover have "?pop \<notin> window limit a (Suc n)" using pop True n l by (simp add: window_def)
    ultimately show ?thesis using run dom by auto
  qed
qed

section \<open>Rewards\<close>

lemma reward_at_in: "reward_at t s txs = Some (Some r) \<Longrightarrow> r \<in> snd ` set txs"
  by (induction t s txs rule: reward_at.induct) (auto split: bind_splits if_splits)

lemma reward_at_mono:
  "sorted (map snd txs) \<Longrightarrow> t \<le> t' \<Longrightarrow> reward_at t s txs = Some (Some r) \<Longrightarrow>
   reward_at t' s txs = Some (Some r') \<Longrightarrow> r \<le> r'"
proof (induction t s txs rule: reward_at.induct)
  case (2 t s g w txs)
  from "2.prems"(4) obtain s' where s': "add_chk s g = Some s'" by (auto split: bind_splits)
  show ?case
  proof (cases "t \<le> s'")
    case True
    with "2.prems"(3) s' have r: "r = w" by simp
    have "w \<le> r'"
    proof (cases "t' \<le> s'")
      case True
      with "2.prems"(4) s' show ?thesis by simp
    next
      case False
      with "2.prems"(4) s' have "reward_at t' s' txs = Some (Some r')" by simp
      from reward_at_in [OF this] "2.prems"(1) show ?thesis by auto
    qed
    with r show ?thesis by simp
  next
    case False
    then have "\<not> t' \<le> s'" using "2.prems"(2) by simp
    with False s' "2.prems" show ?thesis using "2.IH" [OF s' False] by simp
  qed
qed simp

lemma rewards_at_in:
  "rewards_at ts txs = Some rs \<Longrightarrow> r \<in> set rs \<Longrightarrow> \<exists>t \<in> set ts. reward_at t 0 txs = Some (Some r)"
  by (induction ts arbitrary: rs) (fastforce split: bind_splits option.splits)+

lemma rewards_sorted:
  "sorted ts \<Longrightarrow> sorted (map snd txs) \<Longrightarrow> rewards_at ts txs = Some rs \<Longrightarrow> sorted rs"
proof (induction ts arbitrary: rs)
  case (Cons t ts)
  then obtain r rs' where r: "reward_at t 0 txs = Some r" and rs': "rewards_at ts txs = Some rs'"
    and rs: "rs = (case r of Some x \<Rightarrow> x # rs' | None \<Rightarrow> rs')"
    by (auto split: bind_splits)
  have "sorted rs'" using Cons rs' by simp
  moreover have "x \<le> y" if "r = Some x" "y \<in> set rs'" for x y
  proof -
    from rewards_at_in [OF rs' that(2)] obtain t' where "t' \<in> set ts" "reward_at t' 0 txs = Some (Some y)" by blast
    with Cons.prems r that(1) show ?thesis using reward_at_mono [of txs t t' 0 x y] by simp
  qed
  ultimately show ?case by (auto simp: rs split: option.split)
qed simp

section \<open>Properties\<close>

text \<open>
  C16: the base fee of the next block is the one EIP-1559 defines.  For a block that keeps to its gas
  limit (of at least 2) the 64-bit computation gives the formula over the naturals, and panics only
  when the new fee does not fit 64 bits; the detour over 128 bits and the casts back lose nothing.
\<close>

theorem next_base_fee_eip1559:
  assumes "2 \<le> unat l" "u \<le> l"
  shows "calculate_next_block_base_fee u l b =
    (if eip1559_base_fee (unat u) (unat l) (unat b) < 2 ^ 64
     then Some (of_nat (eip1559_base_fee (unat u) (unat l) (unat b))) else None)"
  using next_base_fee_spec [OF assms] by (simp add: Let_def)

theorem next_base_fee_eip1559_witness:
  "calculate_next_block_base_fee 30000000 30000000 1000000000 = Some 1125000000"
  using next_base_fee_eip1559 [of 30000000 30000000 1000000000] by (simp add: eip1559_base_fee_def)

text \<open>
  The base fee moves by at most an eighth.  For an even gas limit of at least 2 the next base fee
  is within an eighth of the current one (by at least 1 upwards); it rises exactly when the block used
  more than half of its limit, and a positive base fee never drops to 0.
\<close>

theorem base_fee_moves_an_eighth:
  assumes "2 \<le> unat l" "even (unat l)" "u \<le> l" "calculate_next_block_base_fee u l b = Some r"
  shows "unat b - unat b div 8 \<le> unat r \<and> unat r \<le> unat b + max 1 (unat b div 8) \<and>
    (b < r \<longleftrightarrow> unat l div 2 < unat u) \<and> (0 < b \<longrightarrow> 0 < r)"
proof -
  let ?n = "eip1559_base_fee (unat u) (unat l) (unat b)"
  have n: "?n < 2 ^ 64" "r = of_nat ?n"
    using next_base_fee_spec [OF assms(1,3), of b] assms(4) by (auto simp: Let_def split: if_splits)
  then have r: "unat r = ?n" by (simp add: unat_of_nat_u64)
  have half: "unat u \<le> 2 * (unat l div 2)" "0 < unat l div 2"
    using assms(1-3) by (auto simp: word_le_nat_alt)
  define up where "up = unat b * (unat u - unat l div 2) div (unat l div 2) div 8"
  define down where "down = unat b * (unat l div 2 - unat u) div (unat l div 2) div 8"
  have le: "up \<le> unat b div 8" "down \<le> unat b div 8"
    unfolding up_def down_def using half by (intro delta_le; simp)+
  have "?n = (if unat u = unat l div 2 then unat b
      else if unat l div 2 < unat u then unat b + max 1 up else unat b - down)"
    by (simp add: eip1559_base_fee_def Let_def up_def down_def)
  with le have "unat b - unat b div 8 \<le> ?n" "?n \<le> unat b + max 1 (unat b div 8)"
    "unat b < ?n \<longleftrightarrow> unat l div 2 < unat u"
    by (auto simp: max_def)
  moreover have "0 < unat b - unat b div 8" if "0 < unat b" using that by simp
  ultimately show ?thesis by (auto simp: word_less_nat_alt r)
qed

theorem base_fee_moves_an_eighth_witness:
  "calculate_next_block_base_fee 0 30000000 7 = Some 7 \<and> unat (7 :: u64) - unat (7 :: u64) div 8 \<le> unat (7 :: u64)"
proof -
  have c: "calculate_next_block_base_fee 0 30000000 7 = Some 7"
    using next_base_fee_spec [of 30000000 0 7] by (simp add: eip1559_base_fee_def)
  from base_fee_moves_an_eighth [OF _ _ _ c] c show ?thesis by simp
qed

text \<open>
  The fee history cache.  When the next block's entry is inserted into a cache that holds the last
  \<open>limit\<close> blocks from \<open>a\<close> to \<open>n\<close>, the insertion does not panic and the cache holds the last
  \<open>limit\<close> blocks from \<open>a\<close> to \<open>n + 1\<close>, hence never more than \<open>limit\<close> entries, with
  the other entries unchanged.
\<close>

theorem fee_history_window:
  assumes "fmdom' cache = window limit a n" "Suc n < 2 ^ 64" "a \<le> n" "0 < unat limit" "unat k = Suc n"
  shows "\<exists>cache'. insert_cache_entry limit item (Some k) cache = Some cache' \<and>
    fmdom' cache' = window limit a (Suc n) \<and> card (fmdom' cache') \<le> unat limit \<and>
    fmlookup cache' k = Some item \<and>
    (\<forall>j \<in> window limit a (Suc n). j \<noteq> k \<longrightarrow> fmlookup cache' j = fmlookup cache j)"
  using insert_window [OF assms, of item] card_window [of "Suc n" limit a] assms(2-4) by fastforce

theorem fee_history_window_witness:
  "\<exists>cache'. insert_cache_entry 1 (\<lparr>fi_base_fee = 8, fi_gas_used_ratio = (), fi_rewards = []\<rparr>) (Some 6)
      (fmupd 5 \<lparr>fi_base_fee = 7, fi_gas_used_ratio = (), fi_rewards = []\<rparr> fmempty) = Some cache' \<and>
     card (fmdom' cache') \<le> 1"
proof -
  have "fmdom' (fmupd 5 \<lparr>fi_base_fee = 7, fi_gas_used_ratio = (), fi_rewards = []\<rparr> fmempty) = window 1 5 5"
    by (auto simp: window_def word_unat_eq_iff)
  from fee_history_window [OF this, of 6 "\<lparr>fi_base_fee = 8, fi_gas_used_ratio = (), fi_rewards = []\<rparr>"]
  show ?thesis by auto
qed

text \<open>
  The rewards of a fee history entry.  When the percentile gas targets do not decrease, the rewards
  of an entry do not decrease either, and each is the effective reward of a transaction of the block.
\<close>

theorem rewards_monotone:
  assumes "sorted targets" "rewards_at targets (sort_key snd transactions) = Some rs"
  shows "sorted rs \<and> set rs \<subseteq> snd ` set transactions"
proof -
  have "sorted rs" using rewards_sorted [OF assms(1) sorted_sort_key assms(2)] .
  moreover have "set rs \<subseteq> snd ` set transactions"
    using rewards_at_in [OF assms(2)] reward_at_in by fastforce
  ultimately show ?thesis by blast
qed

theorem rewards_monotone_witness:
  "rewards_at [0, 21000, 30000] (sort_key snd [(21000, 9), (21000, 4)]) = Some [4, 4, 9] \<and> sorted [4, 4, 9 :: u64]"
proof -
  have e: "rewards_at [0, 21000, 30000] (sort_key snd [(21000, 9), (21000, 4)]) = Some [4, 4, 9]"
    by (simp add: add_chk_def)
  from rewards_monotone [OF _ e] e show ?thesis by simp
qed

text \<open>
  The fee fields of a request.  They are rejected exactly when a priority fee exceeds the fee cap,
  a missing cap counting as 0; accepted fields never have a priority fee above their cap, and a legacy
  request gets its gas price for all three.
\<close>

theorem fee_details_valid:
  "(fd_new gp mf mp = Err InvalidFeeInput \<longleftrightarrow> (\<exists>p. mp = Some p \<and> unwrap_or mf 0 < p)) \<and>
   (case fd_new gp mf mp of
      Ok fd \<Rightarrow> (case (fd_max_priority_fee_per_gas fd, fd_max_fee_per_gas fd) of
                  (Some p, Some m) \<Rightarrow> p \<le> m | _ \<Rightarrow> True) \<and>
        fd_gas_price fd = fd_max_fee_per_gas fd \<and> (mf = None \<and> mp = None \<longrightarrow> fd_gas_price fd = gp)
    | Err _ \<Rightarrow> True)"
  by (cases gp; cases mf; cases mp) (auto simp: fd_new_def)

theorem fee_details_valid_witness:
  "fd_new None (Some 1) (Some 2) = Err InvalidFeeInput"
  using fee_details_valid [of None "Some 1" "Some 2"] by auto

end
