(* ===== verification/NodeTime.thy ===== *)
theory NodeTime
  imports Prelude
begin

text \<open>
  \<open>anvil/src/eth/backend/time.rs\<close>: the time manager that gives every block its timestamp.  The
  wall clock (\<open>duration_since_unix_epoch\<close>) is the argument \<open>now\<close> of the operations that read
  it; a 128-bit signed offset is an integer with the saturation written out.
\<close>

section \<open>Operations\<close>

record TimeManager =
  tm_offset :: int
  tm_last_timestamp :: u64
  tm_next_exact_timestamp :: "u64 option"
  tm_interval :: "u64 option"

definition i128_saturating_add :: "int \<Rightarrow> int \<Rightarrow> int" where
  "i128_saturating_add a b = max (- (2 ^ 127)) (min (2 ^ 127 - 1) (a + b))"

definition tm_reset :: "u64 \<Rightarrow> u64 \<Rightarrow> TimeManager \<Rightarrow> TimeManager" where
  "tm_reset now start_timestamp tm =
     tm\<lparr>tm_last_timestamp := start_timestamp, tm_offset := uint start_timestamp - uint now,
        tm_next_exact_timestamp := None\<rparr>"

definition tm_new :: "u64 \<Rightarrow> u64 \<Rightarrow> TimeManager" where
  "tm_new now start_timestamp = tm_reset now start_timestamp
     \<lparr>tm_offset = 0, tm_last_timestamp = 0, tm_next_exact_timestamp = None, tm_interval = None\<rparr>"

definition add_offset :: "int \<Rightarrow> TimeManager \<Rightarrow> int \<times> TimeManager" where
  "add_offset offset tm = (let next = i128_saturating_add (tm_offset tm) offset in (next, tm\<lparr>tm_offset := next\<rparr>))"

definition increase_time :: "u64 \<Rightarrow> TimeManager \<Rightarrow> int \<times> TimeManager" where
  "increase_time seconds tm = add_offset (uint seconds) tm"

datatype TimeError = TimestampError

definition set_next_block_timestamp :: "u64 \<Rightarrow> TimeManager \<Rightarrow> (unit, TimeError) result \<times> TimeManager" where
  "set_next_block_timestamp timestamp tm =
     (if timestamp \<le> tm_last_timestamp tm then (Err TimestampError, tm)
      else (Ok (), tm\<lparr>tm_next_exact_timestamp := Some timestamp\<rparr>))"

definition set_block_timestamp_interval :: "u64 \<Rightarrow> TimeManager \<Rightarrow> TimeManager" where
  "set_block_timestamp_interval interval tm = tm\<lparr>tm_interval := Some interval\<rparr>"

definition remove_block_timestamp_interval :: "TimeManager \<Rightarrow> bool \<times> TimeManager" where
  "remove_block_timestamp_interval tm = (tm_interval tm \<noteq> None, tm\<lparr>tm_interval := None\<rparr>)"

text \<open>\<open>compute_next_timestamp\<close>: \<open>None\<close> is the overflow of \<open>last_timestamp + 1\<close>.\<close>

definition compute_next_timestamp :: "u64 \<Rightarrow> TimeManager \<Rightarrow> (u64 \<times> int option) option" where
  "compute_next_timestamp now tm =
     (let current = uint now;
          (next, update_offset) =
            (case tm_next_exact_timestamp tm of
               Some n \<Rightarrow> (n, True)
             | None \<Rightarrow>
                 (case tm_interval tm of
                    Some interval \<Rightarrow> (saturating_add (tm_last_timestamp tm) interval, False)
                  | None \<Rightarrow> (of_int (i128_saturating_add current (tm_offset tm)), False)))
      in map_option (\<lambda>n. (n, if update_offset then Some (uint n - current) else None))
           (if next \<le> tm_last_timestamp tm then add_chk (tm_last_timestamp tm) 1 else Some next))"

definition next_timestamp :: "u64 \<Rightarrow> TimeManager \<Rightarrow> (u64 \<times> TimeManager) option" where
  "next_timestamp now tm =
     (case compute_next_timestamp now tm of
        None \<Rightarrow> None
      | Some (n, next_offset) \<Rightarrow>
          Some (n, tm\<lparr>tm_next_exact_timestamp := None,
                      tm_offset := (case next_offset of Some d \<Rightarrow> d | None \<Rightarrow> tm_offset tm),
                      tm_last_timestamp := n\<rparr>))"

definition current_call_timestamp :: "u64 \<Rightarrow> TimeManager \<Rightarrow> u64 option" where
  "current_call_timestamp now tm = map_option fst (compute_next_timestamp now tm)"

section \<open>Blocks of a running node\<close>

datatype time_op =
    IncreaseTime u64
  | SetNextBlockTimestamp u64
  | SetInterval u64
  | RemoveInterval
  | NextBlock u64

text \<open>The timestamps of the blocks mined by a sequence of operations, and the final state.\<close>

fun time_run :: "time_op list \<Rightarrow> TimeManager \<Rightarrow> (u64 list \<times> TimeManager) option" where
  "time_run [] tm = Some ([], tm)"
| "time_run (IncreaseTime s # ops) tm = time_run ops (snd (increase_time s tm))"
| "time_run (SetNextBlockTimestamp t # ops) tm = time_run ops (snd (set_next_block_timestamp t tm))"
| "time_run (SetInterval i # ops) tm = time_run ops (set_block_timestamp_interval i tm)"
| "time_run (RemoveInterval # ops) tm = time_run ops (snd (remove_block_timestamp_interval tm))"
| "time_run (NextBlock now # ops) tm = do {
     (t, tm') \<leftarrow> next_timestamp now tm;
     (ts, tm'') \<leftarrow> time_run ops tm';
     Some (t # ts, tm'')
   }"

section \<open>Lemmas\<close>

lemma i128_saturating_add_small:
  "0 \<le> a + b \<Longrightarrow> a + b < 2 ^ 64 \<Longrightarrow> i128_saturating_add a b = a + b"
  by (simp add: i128_saturating_add_def)

lemma add_chk_one_None: "add_chk x 1 = None \<longleftrightarrow> x = - 1" for x :: u64
proof -
  have "add_chk x 1 = None \<longleftrightarrow> \<not> unat x + 1 < 2 ^ 64" by (simp add: add_chk_def)
  also have "\<dots> \<longleftrightarrow> unat x = 2 ^ 64 - 1" using unat_u64 [of x] by auto
  finally show ?thesis by (simp add: word_unat_eq_iff unat_max_word)
qed

lemma next_timestamp_None: "next_timestamp now tm = None \<longleftrightarrow> tm_last_timestamp tm = - 1"
proof -
  have "add_chk (tm_last_timestamp tm) 1 = None \<longleftrightarrow> tm_last_timestamp tm = - 1"
    "add_chk (- 1 :: u64) 1 = None" using add_chk_one_None by blast+
  then show ?thesis
    by (auto simp: next_timestamp_def compute_next_timestamp_def Let_def split: option.splits prod.splits)
qed

lemma next_timestamp_later:
  assumes "next_timestamp now tm = Some (t, tm')"
  shows "tm_last_timestamp tm < t" "tm_last_timestamp tm' = t" "tm_next_exact_timestamp tm' = None"
    "tm_interval tm' = tm_interval tm"
proof -
  have "x < y" if "add_chk x 1 = Some y" for x y :: u64
    using unat_add_chk [OF that] by (simp add: word_less_nat_alt)
  with assms show "tm_last_timestamp tm < t" "tm_last_timestamp tm' = t" "tm_next_exact_timestamp tm' = None"
    "tm_interval tm' = tm_interval tm"
    by (auto simp: next_timestamp_def compute_next_timestamp_def Let_def split: option.splits prod.splits if_splits)
qed

lemma ops_keep_last [simp]:
  "tm_last_timestamp (snd (increase_time s tm)) = tm_last_timestamp tm"
  "tm_last_timestamp (snd (set_next_block_timestamp t tm)) = tm_last_timestamp tm"
  "tm_last_timestamp (set_block_timestamp_interval i tm) = tm_last_timestamp tm"
  "tm_last_timestamp (snd (remove_block_timestamp_interval tm)) = tm_last_timestamp tm"
  by (simp_all add: increase_time_def add_offset_def set_next_block_timestamp_def
      set_block_timestamp_interval_def remove_block_timestamp_interval_def Let_def)

lemma time_run_increasing:
  "time_run ops tm = Some (ts, tm') \<Longrightarrow>
     sorted_wrt (<) (tm_last_timestamp tm # ts) \<and> tm_last_timestamp tm' = last (tm_last_timestamp tm # ts)"
proof (induction ops tm arbitrary: ts rule: time_run.induct)
  case (6 now ops tm)
  from "6.prems" obtain t tm1 ts' where step: "next_timestamp now tm = Some (t, tm1)"
    "time_run ops tm1 = Some (ts', tm')" "ts = t # ts'"
    by (auto split: bind_splits)
  note t = next_timestamp_later [OF step(1)]
  from "6.IH" [OF step(1) refl step(2)] t(2)
  have "sorted_wrt (<) (t # ts')" "tm_last_timestamp tm' = last (t # ts')" by simp_all
  with t(1) step(3) show ?case by (auto intro: less_trans)
qed simp_all

section \<open>Properties\<close>



text \<open>
  An exact timestamp is taken once, and time goes on from it.  A timestamp is accepted exactly when
  it is later than the last block; the next block has it, and without an interval the block mined
  \<open>d\<close> seconds later has that timestamp plus \<open>d\<close>, or plus one when no time has passed.
\<close>

theorem exact_timestamp:
  assumes "tm_interval tm = None" "uint t + uint d < 2 ^ 64" "uint now + uint d < 2 ^ 64" "t \<noteq> - 1"
  shows "(fst (set_next_block_timestamp t tm) = Ok () \<longleftrightarrow> tm_last_timestamp tm < t) \<and>
    (tm_last_timestamp tm < t \<longrightarrow>
      (\<exists>tm1. next_timestamp now (snd (set_next_block_timestamp t tm)) = Some (t, tm1) \<and>
         (\<exists>tm2. next_timestamp (now + d) tm1 = Some (if d = 0 then t + 1 else t + d, tm2))))"
proof (intro conjI impI)
  show "fst (set_next_block_timestamp t tm) = Ok () \<longleftrightarrow> tm_last_timestamp tm < t"
    by (auto simp: set_next_block_timestamp_def)
next
  assume later: "tm_last_timestamp tm < t"
  let ?tm = "tm\<lparr>tm_next_exact_timestamp := None, tm_offset := uint t - uint now, tm_last_timestamp := t\<rparr>"
  have first: "next_timestamp now (snd (set_next_block_timestamp t tm)) = Some (t, ?tm)"
    using later by (simp add: set_next_block_timestamp_def next_timestamp_def compute_next_timestamp_def
        linorder_not_le [symmetric])
  have nd: "uint (now + d) = uint now + uint d" using assms(3) by (simp add: uint_word_ariths)
  have td: "uint (t + d) = uint t + uint d" using assms(2) by (simp add: uint_word_ariths)
  have "i128_saturating_add (uint (now + d)) (uint t - uint now) = uint t + uint d"
    using i128_saturating_add_small [of "uint (now + d)" "uint t - uint now"] assms(2)
    by (simp add: nd)
  then have c: "of_int (i128_saturating_add (uint (now + d)) (uint t - uint now)) = t + d" by simp
  have "uint d \<le> 0 \<longleftrightarrow> d = 0"
    using order_antisym [OF _ uint_ge_0 [of d]] by (auto simp: uint_0_iff)
  moreover have "uint t + uint d \<le> uint t \<longleftrightarrow> uint d \<le> 0" by (rule add_le_same_cancel1)
  ultimately have le: "t + d \<le> t \<longleftrightarrow> d = 0" unfolding word_le_def td by (rule trans [rotated])
  have one: "add_chk t 1 = Some (t + 1)"
    using assms(4) add_chk_one_None [of t] by (auto simp: add_chk_def split: if_splits)
  have "next_timestamp (now + d) ?tm = Some (if d = 0 then t + 1 else t + d,
      ?tm\<lparr>tm_last_timestamp := if d = 0 then t + 1 else t + d\<rparr>)"
    using assms(1) le one c by (simp add: next_timestamp_def compute_next_timestamp_def)
  with first show "\<exists>tm1. next_timestamp now (snd (set_next_block_timestamp t tm)) = Some (t, tm1) \<and>
         (\<exists>tm2. next_timestamp (now + d) tm1 = Some (if d = 0 then t + 1 else t + d, tm2))"
    by blast
qed

theorem exact_timestamp_witness:
  "\<exists>tm1. next_timestamp 100 (snd (set_next_block_timestamp 500 (tm_new 100 90))) = Some (500, tm1) \<and>
     (\<exists>tm2. next_timestamp (100 + 7) tm1 = Some (507, tm2))"
  using exact_timestamp [of "tm_new 100 90" 500 7 100] by (simp add: tm_new_def tm_reset_def)

text \<open>
  The only panic of the time manager.  A block timestamp is produced unless the last block already
  has the largest 64-bit timestamp.
\<close>

theorem next_timestamp_total:
  "next_timestamp now tm = None \<longleftrightarrow> tm_last_timestamp tm = - 1"
  by (rule next_timestamp_None)

end
