(* ===== verification/Cheats.thy ===== *)
theory Cheats
  imports Transaction
begin

text \<open>
  \<open>anvil/src/eth/backend/cheats.rs\<close>: which accounts the node impersonates.
\<close>

record CheatsState =
  impersonated_accounts :: "Address set"
  cs_bypass_signature :: Signature
  auto_impersonate_accounts :: bool

definition cheats_default :: CheatsState where
  "cheats_default = \<lparr>impersonated_accounts = {}, cs_bypass_signature = IMPERSONATED_SIGNATURE,
     auto_impersonate_accounts = False\<rparr>"

text \<open>\<open>HashSet::insert\<close> returns whether the value was new.\<close>

definition impersonate :: "Address \<Rightarrow> CheatsState \<Rightarrow> bool \<times> CheatsState" where
  "impersonate addr st =
     (if addr \<in> impersonated_accounts st then (True, st)
      else (addr \<notin> impersonated_accounts st,
            st\<lparr>impersonated_accounts := insert addr (impersonated_accounts st)\<rparr>))"

definition stop_impersonating :: "Address \<Rightarrow> CheatsState \<Rightarrow> CheatsState" where
  "stop_impersonating addr st = st\<lparr>impersonated_accounts := impersonated_accounts st - {addr}\<rparr>"

definition is_impersonated :: "Address \<Rightarrow> CheatsState \<Rightarrow> bool" where
  "is_impersonated addr st \<longleftrightarrow>
     (if auto_impersonate_accounts st then True else addr \<in> impersonated_accounts st)"

definition bypass_signature :: "CheatsState \<Rightarrow> Signature" where
  "bypass_signature st = cs_bypass_signature st"

definition set_auto_impersonate_account :: "bool \<Rightarrow> CheatsState \<Rightarrow> CheatsState" where
  "set_auto_impersonate_account enabled st = st\<lparr>auto_impersonate_accounts := enabled\<rparr>"

text \<open>
  Impersonation.  An account is impersonated after it was asked for, no longer after it was
  stopped unless all accounts are, and other accounts are not affected; the answer of \<open>impersonate\<close>
  is always true, also for an account that was not impersonated before, whereas its documentation
  says that it tells whether the account already was.
\<close>

theorem impersonation_state:
  "fst (impersonate a st) \<and>
   (is_impersonated b (snd (impersonate a st)) \<longleftrightarrow> a = b \<or> is_impersonated b st) \<and>
   (is_impersonated b (stop_impersonating a st) \<longleftrightarrow>
      auto_impersonate_accounts st \<or> a \<noteq> b \<and> is_impersonated b st) \<and>
   is_impersonated b (set_auto_impersonate_account True st) \<and>
   bypass_signature (snd (impersonate a st)) = bypass_signature st"
  by (auto simp: impersonate_def is_impersonated_def stop_impersonating_def
      set_auto_impersonate_account_def bypass_signature_def)

end
