(* ===== verification/Snapshots.thy ===== *)
theory Snapshots
  imports Prelude
begin

text \<open>
  \<open>evm/src/executor/snapshot.rs\<close>: numbered snapshots of a state.  The snapshots refine a list with
  holes: its length is the next id, taking a snapshot appends, and removing one empties its place and
  every later one.
\<close>

section \<open>Operations\<close>

record 'a Snapshots =
  sn_id :: U256
  sn_snapshots :: "(U256, 'a) fmap"

definition sn_default :: "'a Snapshots" where
  "sn_default = \<lparr>sn_id = 0, sn_snapshots = fmempty\<rparr>"

definition sn_next_id :: "'a Snapshots \<Rightarrow> U256 \<times> 'a Snapshots" where
  "sn_next_id s = (sn_id s, s\<lparr>sn_id := saturating_add (sn_id s) 1\<rparr>)"

definition sn_get :: "U256 \<Rightarrow> 'a Snapshots \<Rightarrow> 'a option" where
  "sn_get n s = fmlookup (sn_snapshots s) n"

text \<open>The loop of \<open>remove\<close>; its additions do not overflow, since \<open>to_revert\<close> is below an id.\<close>

function revert_after :: "U256 \<Rightarrow> U256 \<Rightarrow> (U256, 'a) fmap \<Rightarrow> (U256, 'a) fmap" where
  "revert_after to_revert next m =
     (if to_revert < next then revert_after (to_revert + 1) next (fmdrop to_revert m) else m)"
  by pat_completeness auto
termination
proof (relation "measure (\<lambda>(t, n, m). unat n - unat t)", goal_cases)
  case (2 t n m)
  then have "unat (t + 1) = Suc (unat t)" by (simp add: unat_plus_one)
  with 2 show ?case by (simp add: word_less_nat_alt)
qed simp

declare revert_after.simps [simp del]

text \<open>\<open>remove\<close>: \<open>None\<close> is the overflow of \<open>id + 1\<close>.\<close>

definition sn_remove :: "U256 \<Rightarrow> 'a Snapshots \<Rightarrow> ('a option \<times> 'a Snapshots) option" where
  "sn_remove n s = do {
     to_revert \<leftarrow> add_chk n 1;
     Some (fmlookup (sn_snapshots s) n,
       s\<lparr>sn_snapshots := revert_after to_revert (sn_id s) (fmdrop n (sn_snapshots s))\<rparr>)
   }"

definition sn_remove_at :: "U256 \<Rightarrow> 'a Snapshots \<Rightarrow> 'a option \<times> 'a Snapshots" where
  "sn_remove_at n s = (fmlookup (sn_snapshots s) n, s\<lparr>sn_snapshots := fmdrop n (sn_snapshots s)\<rparr>)"

definition sn_insert :: "'a \<Rightarrow> 'a Snapshots \<Rightarrow> U256 \<times> 'a Snapshots" where
  "sn_insert x s = (let (n, s') = sn_next_id s in (n, s'\<lparr>sn_snapshots := fmupd n x (sn_snapshots s')\<rparr>))"

definition sn_insert_at :: "'a \<Rightarrow> U256 \<Rightarrow> 'a Snapshots \<Rightarrow> U256 \<times> 'a Snapshots" where
  "sn_insert_at x n s = (n, s\<lparr>sn_snapshots := fmupd n x (sn_snapshots s)\<rparr>)"

section \<open>The list of snapshots\<close>

lemma lookup_revert_after:
  "fmlookup (revert_after t n m) k = (if t \<le> k \<and> k < n then None else fmlookup m k)"
proof (induction t n m rule: revert_after.induct)
  case (1 t n m)
  show ?case
  proof (cases "t < n")
    case True
    then have "unat (t + 1) = Suc (unat t)" by (rule unat_plus_one)
    then have "t + 1 \<le> k \<longleftrightarrow> t \<le> k \<and> k \<noteq> t"
      by (auto simp: word_le_nat_alt word_unat_eq_iff)
    with True 1 show ?thesis by (auto simp: revert_after.simps [of t n m])
  next
    case False
    then have "\<not> (t \<le> k \<and> k < n)" by auto
    with False show ?thesis by (auto simp: revert_after.simps [of t n m])
  qed
qed

text \<open>
  \<open>snap_list s\<close>: the snapshots in the order of their ids, with a hole for each that was removed;
  \<open>sn_ok\<close>: every stored id was given out.
\<close>

definition snap_list :: "'a Snapshots \<Rightarrow> 'a option list" where
  "snap_list s = map (\<lambda>i. sn_get (of_nat i) s) [0..<unat (sn_id s)]"

definition sn_ok :: "'a Snapshots \<Rightarrow> bool" where
  "sn_ok s \<longleftrightarrow> (\<forall>k. sn_get k s \<noteq> None \<longrightarrow> k < sn_id s)"

lemma of_nat_id: "i < unat (n :: U256) \<Longrightarrow> unat (of_nat i :: U256) = i"
  using unat_word_less [of n] by (simp add: unsigned_of_nat take_bit_nat_eq_self)

lemma sn_insert_list:
  assumes "sn_id s \<noteq> - 1"
  shows "snap_list (snd (sn_insert x s)) = snap_list s @ [Some x]"
    and "unat (fst (sn_insert x s)) = length (snap_list s)"
    and "sn_ok s \<Longrightarrow> sn_ok (snd (sn_insert x s))"
proof -
  have "sn_id s < - 1" using assms by (metis max_word_max order_neq_le_trans)
  then have up: "unat (sn_id s + 1) = Suc (unat (sn_id s))" by (rule unat_plus_one)
  then have next_id: "saturating_add (sn_id s) 1 = sn_id s + 1"
    using unat_word_less [of "sn_id s + 1"] by (simp add: saturating_add_def)
  have old: "(of_nat i :: U256) \<noteq> sn_id s" if "i < unat (sn_id s)" for i
    using of_nat_id [OF that] that by auto
  show "snap_list (snd (sn_insert x s)) = snap_list s @ [Some x]"
    using old by (force simp add: snap_list_def sn_insert_def sn_next_id_def sn_get_def next_id up)
  show "unat (fst (sn_insert x s)) = length (snap_list s)"
    by (simp add: snap_list_def sn_insert_def sn_next_id_def)
  show "sn_ok (snd (sn_insert x s))" if ok: "sn_ok s"
  proof -
    have lt: "sn_id s < sn_id s + 1" using up by (simp add: word_less_nat_alt)
    then have "k < sn_id s + 1" if "k < sn_id s" for k using that by (rule less_trans [rotated])
    with ok lt show ?thesis
      by (auto simp: sn_ok_def sn_insert_def sn_next_id_def sn_get_def next_id)
  qed
qed

lemma sn_remove_get:
  assumes "sn_remove n s = Some (r, s')"
  shows "r = sn_get n s" "sn_id s' = sn_id s"
    "sn_get k s' = (if k = n \<or> n < k \<and> k < sn_id s then None else sn_get k s)"
proof -
  obtain t where t: "add_chk n 1 = Some t" using assms by (auto simp: sn_remove_def split: bind_splits)
  have "unat t = Suc (unat n)" using unat_add_chk [OF t] by simp
  then have le: "t \<le> k \<longleftrightarrow> n < k" by (simp add: word_le_nat_alt word_less_nat_alt Suc_le_eq)
  have eq: "r = fmlookup (sn_snapshots s) n"
    "s' = s\<lparr>sn_snapshots := revert_after t (sn_id s) (fmdrop n (sn_snapshots s))\<rparr>"
    using assms t by (simp_all add: sn_remove_def)
  show "r = sn_get n s" "sn_id s' = sn_id s" by (simp_all add: eq sn_get_def)
  show "sn_get k s' = (if k = n \<or> n < k \<and> k < sn_id s then None else sn_get k s)"
    by (simp add: eq sn_get_def lookup_revert_after le)
qed

lemma sn_remove_list:
  assumes "sn_remove n s = Some (r, s')" "n < sn_id s"
  shows "snap_list s' = take (unat n) (snap_list s) @ replicate (length (snap_list s) - unat n) None"
    and "sn_ok s \<Longrightarrow> sn_ok s'"
proof -
  note get = sn_remove_get [OF assms(1)]
  have n: "unat n < unat (sn_id s)" using assms(2) by (simp add: word_less_nat_alt)
  show "snap_list s' = take (unat n) (snap_list s) @ replicate (length (snap_list s) - unat n) None"
  proof (rule nth_equalityI)
    show "length (snap_list s') = length (take (unat n) (snap_list s) @ replicate (length (snap_list s) - unat n) None)"
      using n by (simp add: snap_list_def get(2))
  next
    fix i assume "i < length (snap_list s')"
    then have i: "i < unat (sn_id s)" by (simp add: snap_list_def get(2))
    note u = of_nat_id [OF i]
    then have "n = of_nat i \<longleftrightarrow> unat n = i" by (auto simp: word_unat_eq_iff)
    moreover have "n < of_nat i \<longleftrightarrow> unat n < i" "of_nat i < sn_id s"
      using u i by (simp_all add: word_less_nat_alt)
    ultimately show "snap_list s' ! i = (take (unat n) (snap_list s) @ replicate (length (snap_list s) - unat n) None) ! i"
      using i n by (auto simp: snap_list_def get(2,3) nth_append)
  qed
  show "sn_ok s'" if "sn_ok s" using that by (auto simp: sn_ok_def get(2,3) split: if_splits)
qed

section \<open>Properties\<close>

text \<open>
  Snapshots refine a list with holes.  While ids are left, taking a snapshot appends it and returns
  its position; reverting to an id that was given out returns the snapshot stored there, keeps every
  earlier one, and empties its place and every later one.
\<close>

theorem snapshots_refine_list:
  assumes "sn_ok s" "sn_id s \<noteq> - 1" "n < sn_id s"
  shows "(let (i, s') = sn_insert x s in
            sn_ok s' \<and> unat i = length (snap_list s) \<and> snap_list s' = snap_list s @ [Some x]) \<and>
    (\<exists>s'. sn_remove n s = Some (snap_list s ! unat n, s') \<and> sn_ok s' \<and>
       snap_list s' = take (unat n) (snap_list s) @ replicate (length (snap_list s) - unat n) None)"
proof -
  have n: "unat n < unat (sn_id s)" using assms(3) by (simp add: word_less_nat_alt)
  then have "add_chk n 1 \<noteq> None"
    using unat_plus_one [OF assms(3)] unat_word_less [of "n + 1"] by (simp add: add_chk_def)
  then obtain r s' where rem: "sn_remove n s = Some (r, s')" by (auto simp: sn_remove_def)
  have "r = snap_list s ! unat n"
    using sn_remove_get(1) [OF rem] n by (simp add: snap_list_def)
  with rem sn_remove_list [OF rem assms(3)] assms(1) sn_insert_list [OF assms(2), of x] show ?thesis
    by (auto simp: split_def)
qed

theorem snapshots_refine_list_witness:
  "\<exists>s'. sn_remove 0 (snd (sn_insert True (snd (sn_insert False sn_default)))) = Some (Some False, s') \<and>
     snap_list s' = [None, None]"
proof -
  let ?s = "snd (sn_insert True (snd (sn_insert False sn_default)))"
  have l: "snap_list (snd (sn_insert False sn_default)) = [Some False]"
    by (simp add: snap_list_def sn_insert_def sn_next_id_def sn_get_def sn_default_def saturating_add_def)
  have d: "sn_id (snd (sn_insert False (sn_default :: bool Snapshots))) = 1"
    "sn_id ?s = 2" by (simp_all add: sn_insert_def sn_next_id_def sn_default_def saturating_add_def)
  have "sn_ok (snd (sn_insert False sn_default))"
    by (simp add: sn_ok_def sn_insert_def sn_next_id_def sn_get_def sn_default_def saturating_add_def)
  then have ok: "sn_ok ?s" by (rule sn_insert_list(3) [rotated]) (simp add: d)
  have ls: "snap_list ?s = [Some False, Some True]"
    using sn_insert_list(1) [of "snd (sn_insert False sn_default)" True] l d(1) by simp
  from snapshots_refine_list [OF ok, of 0 True] d(2) ls show ?thesis by auto
qed

end
