(* ===== verification/EvmTypes.thy ===== *)
theory EvmTypes
  imports Prelude
begin

text \<open>
  The types of the EVM (crate \<open>revm\<close>) that the node and the cheatcode inspector share: the result of an
  instruction, the outcome of a transaction, an account and the environment of a block, with the
  conversions of \<open>evm/src/utils.rs\<close> and the node's error for a transaction
  (\<open>anvil/src/eth/error.rs\<close>).
\<close>

section \<open>Results of execution\<close>

text \<open>\<open>InstructionResult\<close>, in the order of its discriminants.\<close>

datatype (plugins only: code) InstructionResult = Continue | Stop | Return | SelfDestruct
  | Revert | CallTooDeep | OutOfFund
  | OutOfGas | MemoryOOG | MemoryLimitOOG | PrecompileOOG | InvalidOperandOOG | OpcodeNotFound
  | CallNotAllowedInsideStatic | StateChangeDuringStaticCall | InvalidFEOpcode | InvalidJump
  | NotActivated | StackUnderflow | StackOverflow | OutOfOffset | CreateCollision | OverflowPayment
  | PrecompileError | NonceOverflow | CreateContractSizeLimit | CreateContractStartingWithEF
  | CreateInitcodeSizeLimit | FatalExternalError

text \<open>The patterns \<open>return_ok!()\<close> and \<open>return_revert!()\<close>.\<close>

fun return_ok :: "InstructionResult \<Rightarrow> bool" where
  "return_ok Continue = True"
| "return_ok Stop = True"
| "return_ok Return = True"
| "return_ok SelfDestruct = True"
| "return_ok _ = False"

fun return_revert :: "InstructionResult \<Rightarrow> bool" where
  "return_revert Revert = True"
| "return_revert CallTooDeep = True"
| "return_revert OutOfFund = True"
| "return_revert _ = False"

datatype Output = OutputCall bytes | OutputCreate bytes "Address option"

datatype Eval = EvalStop | EvalReturn | EvalSelfDestruct

datatype (plugins only: code) Halt = HaltOutOfGas | HaltOpcodeNotFound | HaltInvalidFEOpcode | HaltInvalidJump
  | HaltNotActivated | HaltStackUnderflow | HaltStackOverflow | HaltOutOfOffset | HaltCreateCollision
  | HaltPrecompileError | HaltNonceOverflow | HaltCreateContractSizeLimit
  | HaltCreateContractStartingWithEF | HaltCreateInitcodeSizeLimit | HaltOverflowPayment
  | HaltStateChangeDuringStaticCall | HaltCallNotAllowedInsideStatic | HaltOutOfFund | HaltCallTooDeep

fun eval_to_instruction_result :: "Eval \<Rightarrow> InstructionResult" where
  "eval_to_instruction_result EvalReturn = Return"
| "eval_to_instruction_result EvalStop = Stop"
| "eval_to_instruction_result EvalSelfDestruct = SelfDestruct"

fun halt_to_instruction_result :: "Halt \<Rightarrow> InstructionResult" where
  "halt_to_instruction_result HaltOutOfGas = OutOfGas"
| "halt_to_instruction_result HaltOpcodeNotFound = OpcodeNotFound"
| "halt_to_instruction_result HaltInvalidFEOpcode = InvalidFEOpcode"
| "halt_to_instruction_result HaltInvalidJump = InvalidJump"
| "halt_to_instruction_result HaltNotActivated = NotActivated"
| "halt_to_instruction_result HaltStackOverflow = StackOverflow"
| "halt_to_instruction_result HaltStackUnderflow = StackUnderflow"
| "halt_to_instruction_result HaltOutOfOffset = OutOfOffset"
| "halt_to_instruction_result HaltCreateCollision = CreateCollision"
| "halt_to_instruction_result HaltPrecompileError = PrecompileError"
| "halt_to_instruction_result HaltNonceOverflow = NonceOverflow"
| "halt_to_instruction_result HaltCreateContractSizeLimit = CreateContractSizeLimit"
| "halt_to_instruction_result HaltCreateContractStartingWithEF = CreateContractStartingWithEF"
| "halt_to_instruction_result HaltCreateInitcodeSizeLimit = CreateInitcodeSizeLimit"
| "halt_to_instruction_result HaltOverflowPayment = OverflowPayment"
| "halt_to_instruction_result HaltStateChangeDuringStaticCall = StateChangeDuringStaticCall"
| "halt_to_instruction_result HaltCallNotAllowedInsideStatic = CallNotAllowedInsideStatic"
| "halt_to_instruction_result HaltOutOfFund = OutOfFund"
| "halt_to_instruction_result HaltCallTooDeep = CallTooDeep"

text \<open>\<open>ExecutionResult\<close>; the logs are a type variable.\<close>

datatype 'l ExecutionResult =
    Success Eval u64 "'l list" Output
  | Reverted u64 bytes
  | Halted Halt u64

text \<open>
  The match on an \<open>ExecutionResult\<close> with which \<open>call_with_state\<close> and the executor end: the result of
  the last instruction, the gas used, the output and the logs.
\<close>

fun exec_outcome :: "'l ExecutionResult \<Rightarrow> InstructionResult \<times> u64 \<times> Output option \<times> 'l list" where
  "exec_outcome (Success reason gas_used logs output) =
     (eval_to_instruction_result reason, gas_used, Some output, logs)"
| "exec_outcome (Reverted gas_used output) = (Revert, gas_used, Some (OutputCall output), [])"
| "exec_outcome (Halted reason gas_used) = (halt_to_instruction_result reason, gas_used, None, [])"

lemma halt_not_ok [simp]: "\<not> return_ok (halt_to_instruction_result h)"
  by (cases h) simp_all

lemma eval_ok [simp]: "return_ok (eval_to_instruction_result e)"
  by (cases e) simp_all

section \<open>State and environment\<close>

record AccountInfo =
  ac_balance :: U256
  ac_nonce :: u64
  ac_code_hash :: H256
  ac_code :: "bytes option"

record BlockEnv =
  be_number :: U256
  be_coinbase :: Address
  be_timestamp :: U256
  be_difficulty :: U256
  be_prevrandao :: "H256 option"
  be_basefee :: U256
  be_gas_limit :: U256

section \<open>Errors\<close>

text \<open>\<open>revm\<close>'s \<open>InvalidTransaction\<close> and \<open>EVMError\<close>; the error of the database is a type variable.\<close>

datatype (plugins only: code) InvalidTransaction = RvInvalidChainId | RvGasMaxFeeGreaterThanPriorityFee
  | RvGasPriceLessThanBasefee | RvCallerGasLimitMoreThanBlock | RvCallGasCostMoreThanGasLimit
  | RvRejectCallerWithCode | RvLackOfFundForGasLimit | RvOverflowPaymentInTransaction
  | RvNonceOverflowInTransaction | RvCreateInitcodeSizeLimit | RvNonceTooHigh | RvNonceTooLow

datatype 'e EVMError = EvTransaction InvalidTransaction | EvPrevrandaoNotSet | EvDatabase 'e

datatype (plugins only: code) InvalidTransactionError = NonceTooLow | NonceTooHigh | NonceMaxValue
  | InsufficientFundsForTransfer | MaxInitCodeSizeExceeded | InsufficientFunds | GasUintOverflow
  | GasTooLow | GasTooHigh string | TipAboveFeeCap | FeeCapTooLow | BasicOutOfGas U256
  | RevertError "bytes option" | SenderNoEOA | InvalidChainId | IncompatibleEIP155

fun from_invalid_transaction :: "InvalidTransaction \<Rightarrow> InvalidTransactionError" where
  "from_invalid_transaction RvInvalidChainId = InvalidChainId"
| "from_invalid_transaction RvGasMaxFeeGreaterThanPriorityFee = TipAboveFeeCap"
| "from_invalid_transaction RvGasPriceLessThanBasefee = FeeCapTooLow"
| "from_invalid_transaction RvCallerGasLimitMoreThanBlock = GasTooHigh ''CallerGasLimitMoreThanBlock''"
| "from_invalid_transaction RvCallGasCostMoreThanGasLimit = GasTooHigh ''CallGasCostMoreThanGasLimit''"
| "from_invalid_transaction RvRejectCallerWithCode = SenderNoEOA"
| "from_invalid_transaction RvLackOfFundForGasLimit = InsufficientFunds"
| "from_invalid_transaction RvOverflowPaymentInTransaction = GasUintOverflow"
| "from_invalid_transaction RvNonceOverflowInTransaction = NonceMaxValue"
| "from_invalid_transaction RvCreateInitcodeSizeLimit = MaxInitCodeSizeExceeded"
| "from_invalid_transaction RvNonceTooHigh = NonceTooHigh"
| "from_invalid_transaction RvNonceTooLow = NonceTooLow"

end
