(* ===== verification/CheatState.thy ===== *)
theory CheatState
  imports EvmTypes "HOL-Library.List_Lexorder" "HOL-Library.Option_ord"
begin

text \<open>
  The state of the cheatcode inspector (\<open>evm/src/executor/inspector/cheatcodes\<close>) and of the parts of
  the EVM that it reads and changes.

  The EVM itself is the crate \<open>revm\<close>; its shared types are in \<open>EvmTypes\<close>.  \<open>JournaledState\<close> has the fields the inspector uses and
  \<open>js_rest\<close> for the others, and the methods it calls are the fields of \<open>journal_lib\<close>.  \<open>Gas\<close>,
  wallets and revert diagnostics are type variables.  \<open>abi_lib\<close> holds the encodings of \<open>ethers\<close>.
\<close>

section \<open>The EVM\<close>

record 'x JournaledState =
  js_depth :: u64
  js_state :: "(Address, AccountInfo) fmap"
  js_rest :: 'x

record Env =
  env_block :: BlockEnv
  tx_caller :: Address
  tx_gas_price :: U256
  tx_gas_limit :: u64
  tx_transact_to :: "Address option"
  cfg_chain_id :: U256
  cfg_spec_id :: nat

text \<open>\<open>EVMData\<close>, with what the inspector asks the database for.\<close>

record 'x EVMData =
  ed_env :: Env
  ed_journal :: "'x JournaledState"
  ed_fork_url :: "string option"
  ed_forked :: bool
  ed_access :: "Address set"

definition depth :: "'x EVMData \<Rightarrow> u64" where
  "depth data = js_depth (ed_journal data)"

definition set_tx_caller :: "Address \<Rightarrow> 'x EVMData \<Rightarrow> 'x EVMData" where
  "set_tx_caller a data = data\<lparr>ed_env := (ed_env data)\<lparr>tx_caller := a\<rparr>\<rparr>"

record ('x, 'e) journal_lib =
  jl_load_account :: "Address \<Rightarrow> 'x JournaledState \<Rightarrow> (unit, 'e) result \<times> 'x JournaledState"
  jl_touch :: "Address \<Rightarrow> 'x JournaledState \<Rightarrow> 'x JournaledState"
  jl_set_code :: "Address \<Rightarrow> bytes \<Rightarrow> 'x JournaledState \<Rightarrow> 'x JournaledState"
  jl_sstore :: "Address \<Rightarrow> U256 \<Rightarrow> U256 \<Rightarrow> 'x JournaledState \<Rightarrow> (unit, 'e) result \<times> 'x JournaledState"
  jl_sload :: "Address \<Rightarrow> U256 \<Rightarrow> 'x JournaledState \<Rightarrow> (U256, 'e) result \<times> 'x JournaledState"
  jl_merge :: nat
  jl_keccak_empty :: H256

text \<open>
  What the inspector relies on: a loaded account is in the state, loading and touching change neither
  the depth nor the accounts that are loaded already.
\<close>

definition journal_ok :: "('x, 'e) journal_lib \<Rightarrow> bool" where
  "journal_ok jl \<longleftrightarrow>
     (\<forall>a j r j'. jl_load_account jl a j = (r, j') \<longrightarrow>
        js_depth j' = js_depth j \<and> (r = Ok () \<longrightarrow> fmlookup (js_state j') a \<noteq> None) \<and>
        (\<forall>b. fmlookup (js_state j) b \<noteq> None \<longrightarrow> fmlookup (js_state j') b = fmlookup (js_state j) b)) \<and>
     (\<forall>a j. js_depth (jl_touch jl a j) = js_depth j \<and> js_state (jl_touch jl a j) = js_state j)"

datatype Token = TUint U256 | TAddress Address | TBytes bytes | TFixedBytes bytes | TBool bool
  | TString string | TArray "Token list" | TTuple "Token list"

section \<open>Errors\<close>

text \<open>One constructor per message of the handlers.\<close>

datatype (plugins only: code) 'e cheat_error = SecondRevertExpected | CallDidNotRevert | RevertedWithoutData
  | UnexpectedRevert bytes bytes | CountedCallTwice | CountedCallOverwritten | InvalidMemoryRange u64 u64
  | ActivePrank | ActiveBroadcast | PrankNotApplied | PrankOverridden | PrankDuringBroadcast
  | BreakpointEmpty | BreakpointTooLong | BreakpointNotAlphabetic | DifficultyAfterMerge
  | PrevrandaoBeforeMerge | PrecompileAddress | NoPrankToStop | NonceTooLow u64 u64 | ChainIdTooLarge
  | NoBroadcastToStop | PrivateKeyZero | PrivateKeyTooLarge | PrivateKeyInvalid | SkipTooDeep | SkipMagic
  | NoCheatcodeAccess Address | MissingCreate2Deployer | DbError 'e | Undecodable | OtherError bytes

section \<open>The inspector's state\<close>

record Prank =
  prank_caller :: Address
  prank_origin :: Address
  pr_new_caller :: Address
  pr_new_origin :: "Address option"
  pr_depth :: u64
  pr_single_call :: bool
  pr_used :: bool

record Broadcast =
  bc_new_origin :: Address
  bc_original_caller :: Address
  bc_original_origin :: Address
  bc_depth :: u64
  bc_single_call :: bool

record ExpectedRevert =
  er_reason :: "bytes option"
  er_depth :: u64

record RawLog =
  log_topics :: "H256 list"
  log_data :: bytes

record ExpectedEmit =
  ee_depth :: u64
  ee_log :: "RawLog option"
  ee_checks :: "bool list"
  ee_address :: "Address option"
  ee_found :: bool

datatype ExpectedCallType = Count | NonCount

record ExpectedCallData =
  ec_value :: "U256 option"
  ec_gas :: "u64 option"
  ec_min_gas :: "u64 option"
  ec_count :: u64
  ec_call_type :: ExpectedCallType

type_synonym ExpectedCallTracker = "(Address, (bytes, ExpectedCallData \<times> u64) fmap) fmap"

datatype MockCallDataContext = MockCallDataContext (mock_calldata: bytes) (mock_value: "U256 option")

record MockCallReturnData =
  mr_ret_type :: InstructionResult
  mr_data :: bytes

record RecordAccess =
  ra_reads :: "(Address, U256 list) fmap"
  ra_writes :: "(Address, U256 list) fmap"

record Log =
  log_emitter :: Address
  log_inner :: RawLog

record MappingSlots =
  ms_parent_slots :: "(U256, U256) fmap"
  ms_keys :: "(U256, U256) fmap"
  ms_children :: "(U256, U256 list) fmap"
  ms_seen_sha3 :: "(U256, U256 \<times> U256) fmap"

record DealRecord =
  dr_address :: Address
  dr_old_balance :: U256
  dr_new_balance :: U256

record BroadcastableTransaction =
  bt_rpc :: "string option"
  bt_from :: Address
  bt_to :: "Address option"
  bt_value :: U256
  bt_data :: bytes
  bt_nonce :: u64
  bt_gas :: "u64 option"

record ('g, 'w, 'd) Cheatcodes =
  cc_block :: "BlockEnv option"
  cc_gas_price :: "U256 option"
  cc_labels :: "(Address, string) fmap"
  cc_script_wallets :: "'w list"
  cc_skip :: bool
  cc_prank :: "Prank option"
  cc_expected_revert :: "ExpectedRevert option"
  cc_fork_revert_diagnostic :: "'d option"
  cc_accesses :: "RecordAccess option"
  cc_recorded_logs :: "Log list option"
  cc_mocked_calls :: "(Address, (MockCallDataContext, MockCallReturnData) fmap) fmap"
  cc_expected_calls :: ExpectedCallTracker
  cc_expected_emits :: "ExpectedEmit list"
  cc_allowed_mem_writes :: "(u64, (u64 \<times> u64) list) fmap"
  cc_broadcast :: "Broadcast option"
  cc_corrected_nonce :: bool
  cc_broadcastable_transactions :: "BroadcastableTransaction list"
  cc_eth_deals :: "DealRecord list"
  cc_gas_metering :: "'g option option"
  cc_gas_metering_create :: "'g option option"
  cc_mapping_slots :: "(Address, MappingSlots) fmap option"
  cc_pc :: nat
  cc_breakpoints :: "(char, Address \<times> nat) fmap"

text \<open>\<open>Default\<close>, and \<open>Cheatcodes::new\<close>; the configuration and the file commit flag are not modelled.\<close>

definition cc_default :: "('g, 'w, 'd) Cheatcodes" where
  "cc_default = \<lparr>cc_block = None, cc_gas_price = None, cc_labels = fmempty, cc_script_wallets = [],
     cc_skip = False, cc_prank = None, cc_expected_revert = None, cc_fork_revert_diagnostic = None,
     cc_accesses = None, cc_recorded_logs = None, cc_mocked_calls = fmempty, cc_expected_calls = fmempty,
     cc_expected_emits = [], cc_allowed_mem_writes = fmempty, cc_broadcast = None,
     cc_corrected_nonce = False, cc_broadcastable_transactions = [], cc_eth_deals = [],
     cc_gas_metering = None, cc_gas_metering_create = None, cc_mapping_slots = None, cc_pc = 0,
     cc_breakpoints = fmempty\<rparr>"

definition cc_new :: "BlockEnv \<Rightarrow> U256 \<Rightarrow> ('g, 'w, 'd) Cheatcodes" where
  "cc_new block gas_price =
     cc_default\<lparr>cc_corrected_nonce := False, cc_block := Some block, cc_gas_price := Some gas_price\<rparr>"

section \<open>The order of mocked calls\<close>

text \<open>
  \<open>Ord for MockCallDataContext\<close>: the order of the call data, reversed, then the order of the values,
  reversed.
\<close>

definition mock_le :: "MockCallDataContext \<Rightarrow> MockCallDataContext \<Rightarrow> bool" where
  "mock_le a b \<longleftrightarrow> mock_calldata b < mock_calldata a \<or>
     mock_calldata a = mock_calldata b \<and> mock_value b \<le> mock_value a"

instantiation MockCallDataContext :: linorder
begin

definition less_eq_MockCallDataContext :: "MockCallDataContext \<Rightarrow> MockCallDataContext \<Rightarrow> bool" where
  "less_eq_MockCallDataContext = mock_le"

definition less_MockCallDataContext :: "MockCallDataContext \<Rightarrow> MockCallDataContext \<Rightarrow> bool" where
  "less_MockCallDataContext a b \<longleftrightarrow> a \<le> b \<and> \<not> b \<le> (a :: MockCallDataContext)"

instance
proof
  fix a b c :: MockCallDataContext
  show "(a < b) = (a \<le> b \<and> \<not> b \<le> a)" by (rule less_MockCallDataContext_def)
  show "a \<le> a" by (simp add: less_eq_MockCallDataContext_def mock_le_def)
  show "a \<le> b \<Longrightarrow> b \<le> c \<Longrightarrow> a \<le> c" by (auto simp: less_eq_MockCallDataContext_def mock_le_def)
  show "a \<le> b \<Longrightarrow> b \<le> a \<Longrightarrow> a = b"
    by (auto simp: less_eq_MockCallDataContext_def mock_le_def MockCallDataContext.expand)
  show "a \<le> b \<or> b \<le> a" by (auto simp: less_eq_MockCallDataContext_def mock_le_def)
qed

end

end
