(* ===== verification/CheatMapping.thy ===== *)
theory CheatMapping
  imports CheatState
begin

text \<open>
  The recording of mapping slots (\<open>cheatcodes/mapping.rs\<close>): which storage slots belong to a mapping,
  with their key and the slot of the mapping.
\<close>

section \<open>The interpreter\<close>

text \<open>
  What the inspector reads of the interpreter of \<open>revm\<close>.  The stack is listed from its top, \<open>peek\<close>
  fails below its bottom; \<open>None\<close> of \<open>op_at\<close> and \<open>get_slice\<close> is an access out of bounds.
\<close>

record 'g Interpreter =
  in_pc :: nat
  in_bytecode :: bytes
  in_stack :: "U256 list"
  in_memory :: bytes
  in_gas :: 'g
  in_address :: Address
  in_return_range :: "nat \<times> nat"

definition op_at :: "'g Interpreter \<Rightarrow> u8 option" where
  "op_at i = (if in_pc i < length (in_bytecode i) then Some (in_bytecode i ! in_pc i) else None)"

definition peek :: "nat \<Rightarrow> 'g Interpreter \<Rightarrow> U256 option" where
  "peek n i = (if n < length (in_stack i) then Some (in_stack i ! n) else None)"

definition get_slice :: "nat \<Rightarrow> nat \<Rightarrow> 'g Interpreter \<Rightarrow> bytes option" where
  "get_slice offset len i =
     (if offset + len \<le> length (in_memory i) then Some (take len (drop offset (in_memory i))) else None)"

definition as_usize :: "U256 \<Rightarrow> nat option" where
  "as_usize x = (if unat x < 2 ^ 64 then Some (unat x) else None)"

definition u256_be :: "bytes \<Rightarrow> U256" where
  "u256_be bs = of_nat (le_nat (rev bs))"

abbreviation SHA3 :: u8 where "SHA3 \<equiv> 0x20"
abbreviation SSTORE :: u8 where "SSTORE \<equiv> 0x55"

section \<open>Slots\<close>

definition ms_default :: MappingSlots where
  "ms_default = \<lparr>ms_parent_slots = fmempty, ms_keys = fmempty, ms_children = fmempty, ms_seen_sha3 = fmempty\<rparr>"

definition children_of :: "MappingSlots \<Rightarrow> U256 \<Rightarrow> U256 list" where
  "children_of m slot = (case fmlookup (ms_children m) slot of Some cs \<Rightarrow> cs | None \<Rightarrow> [])"

definition record_slot :: "U256 \<Rightarrow> U256 \<Rightarrow> U256 \<Rightarrow> MappingSlots \<Rightarrow> MappingSlots" where
  "record_slot slot key parent m =
     m\<lparr>ms_keys := fmupd slot key (ms_keys m),
       ms_parent_slots := fmupd slot parent (ms_parent_slots m),
       ms_children := fmupd parent (children_of m parent @ [slot]) (ms_children m)\<rparr>"

text \<open>\<open>MappingSlots::insert\<close>, which follows the parents.\<close>

function ms_insert :: "U256 \<Rightarrow> MappingSlots \<Rightarrow> bool \<times> MappingSlots" where
  "ms_insert slot m =
     (case fmlookup (ms_seen_sha3 m) slot of
        Some (key, parent) \<Rightarrow>
          if fmlookup (ms_keys m) slot \<noteq> None then (False, m)
          else (True, snd (ms_insert parent (record_slot slot key parent m)))
      | None \<Rightarrow> (False, m))"
  by pat_completeness auto
termination
proof (relation "measure (\<lambda>(s, m). card (fset (fmdom (ms_seen_sha3 m)) - fset (fmdom (ms_keys m))))", goal_cases)
  case (2 slot m p key parent)
  then have "slot \<in> fset (fmdom (ms_seen_sha3 m)) - fset (fmdom (ms_keys m))"
    by (auto simp: fmdomI fmdom_notD)
  moreover have "fset (fmdom (ms_keys (record_slot slot key parent m))) = insert slot (fset (fmdom (ms_keys m)))"
    by (simp add: record_slot_def)
  ultimately have "fset (fmdom (ms_seen_sha3 m)) - fset (fmdom (ms_keys (record_slot slot key parent m))) \<subset>
      fset (fmdom (ms_seen_sha3 m)) - fset (fmdom (ms_keys m))" by blast
  then show ?case by (simp add: record_slot_def psubset_card_mono)
qed simp

declare ms_insert.simps [simp del]

definition mapping_of :: "(Address, MappingSlots) fmap option \<Rightarrow> Address \<Rightarrow> MappingSlots option" where
  "mapping_of ms address = (case ms of Some dict \<Rightarrow> fmlookup dict address | None \<Rightarrow> None)"

definition get_mapping_length :: "('g, 'w, 'd) Cheatcodes \<Rightarrow> Address \<Rightarrow> U256 \<Rightarrow> Token list" where
  "get_mapping_length st address slot =
     [TUint (case mapping_of (cc_mapping_slots st) address of
        Some m \<Rightarrow> of_nat (case fmlookup (ms_children m) slot of Some cs \<Rightarrow> length cs | None \<Rightarrow> 0)
      | None \<Rightarrow> 0)]"

definition get_mapping_slot_at :: "('g, 'w, 'd) Cheatcodes \<Rightarrow> Address \<Rightarrow> U256 \<Rightarrow> U256 \<Rightarrow> Token list option" where
  "get_mapping_slot_at st address slot index = do {
     r \<leftarrow> (case mapping_of (cc_mapping_slots st) address of
        Some m \<Rightarrow> (case fmlookup (ms_children m) slot of
            Some cs \<Rightarrow> do {
              i \<leftarrow> as_usize index;
              Some (if i < length cs then cs ! i else 0)
            }
          | None \<Rightarrow> Some 0)
      | None \<Rightarrow> Some 0);
     Some [TUint r]
   }"

text \<open>\<open>parent_slots[&slot]\<close> panics when the slot has no entry.\<close>

definition get_mapping_key_and_parent :: "('g, 'w, 'd) Cheatcodes \<Rightarrow> Address \<Rightarrow> U256 \<Rightarrow> Token list option" where
  "get_mapping_key_and_parent st address slot = do {
     (found, key, parent) \<leftarrow>
       (case mapping_of (cc_mapping_slots st) address of
          Some m \<Rightarrow> (case fmlookup (ms_keys m) slot of
              Some key \<Rightarrow> do { parent \<leftarrow> fmlookup (ms_parent_slots m) slot; Some (True, key, parent) }
            | None \<Rightarrow> (case fmlookup (ms_seen_sha3 m) slot of
                Some (key, parent) \<Rightarrow> Some (True, key, parent)
              | None \<Rightarrow> Some (False, 0, 0)))
        | None \<Rightarrow> Some (False, 0, 0));
     Some [TBool found, TUint key, TUint parent]
   }"

text \<open>\<open>on_evm_step\<close>, with \<open>keccak256\<close> as an argument.\<close>

definition on_sha3 :: "(bytes \<Rightarrow> bytes) \<Rightarrow> 'g Interpreter \<Rightarrow> (Address, MappingSlots) fmap \<Rightarrow>
    (Address, MappingSlots) fmap option" where
  "on_sha3 keccak256 i ms =
     (if peek 1 i = Some 0x40 then do {
        top \<leftarrow> peek 0 i;
        offset \<leftarrow> as_usize top;
        low \<leftarrow> get_slice offset 0x20 i;
        high \<leftarrow> get_slice (offset + 0x20) 0x20 i;
        all \<leftarrow> get_slice offset 0x40 i;
        let m = (case fmlookup ms (in_address i) of Some m \<Rightarrow> m | None \<Rightarrow> ms_default);
        Some (fmupd (in_address i)
          (m\<lparr>ms_seen_sha3 := fmupd (u256_be (keccak256 all)) (u256_be low, u256_be high) (ms_seen_sha3 m)\<rparr>) ms)
      } else Some ms)"

definition on_sstore :: "'g Interpreter \<Rightarrow> (Address, MappingSlots) fmap \<Rightarrow> (Address, MappingSlots) fmap" where
  "on_sstore i ms =
     (case fmlookup ms (in_address i) of
        Some m \<Rightarrow> (case peek 0 i of
            Some slot \<Rightarrow> fmupd (in_address i) (snd (ms_insert slot m)) ms
          | None \<Rightarrow> ms)
      | None \<Rightarrow> ms)"

definition on_evm_step :: "(bytes \<Rightarrow> bytes) \<Rightarrow> 'g Interpreter \<Rightarrow> (Address, MappingSlots) fmap \<Rightarrow>
    (Address, MappingSlots) fmap option" where
  "on_evm_step keccak256 i ms = do {
     opcode \<leftarrow> op_at i;
     if opcode = SHA3 then on_sha3 keccak256 i ms
     else if opcode = SSTORE then Some (on_sstore i ms)
     else Some ms
   }"

section \<open>Invariant\<close>

text \<open>
  A recorded slot has a key and a parent, and it is listed exactly once, under its parent.
\<close>

definition ms_ok :: "MappingSlots \<Rightarrow> bool" where
  "ms_ok m \<longleftrightarrow> fmdom (ms_keys m) = fmdom (ms_parent_slots m) \<and>
     (\<forall>p. distinct (children_of m p)) \<and>
     (\<forall>p s. s \<in> set (children_of m p) \<longleftrightarrow> fmlookup (ms_parent_slots m) s = Some p)"

definition mappings_ok :: "(Address, MappingSlots) fmap \<Rightarrow> bool" where
  "mappings_ok ms \<longleftrightarrow> (\<forall>a m. fmlookup ms a = Some m \<longrightarrow> ms_ok m)"

lemma count_distinct: "distinct xs \<Longrightarrow> count_list xs x = (if x \<in> set xs then 1 else 0)"
  by (induction xs) auto

lemma ms_ok_default: "ms_ok ms_default"
  by (simp add: ms_ok_def ms_default_def children_of_def)

lemma children_record_slot:
  "children_of (record_slot slot key parent m) p =
     (if p = parent then children_of m p @ [slot] else children_of m p)"
  by (simp add: children_of_def record_slot_def)

lemma ms_ok_record_slot:
  assumes "ms_ok m" "fmlookup (ms_keys m) slot = None"
  shows "ms_ok (record_slot slot key parent m)"
proof -
  have none: "fmlookup (ms_parent_slots m) slot = None"
    using assms by (metis fmdom_notD fmdom_notI ms_ok_def)
  then have fresh: "slot \<notin> set (children_of m p)" for p
    using assms(1) by (simp add: ms_ok_def)
  have p: "ms_parent_slots (record_slot slot key parent m) = fmupd slot parent (ms_parent_slots m)"
    "ms_keys (record_slot slot key parent m) = fmupd slot key (ms_keys m)"
    by (simp_all add: record_slot_def)
  from assms(1) fresh none show ?thesis
    unfolding ms_ok_def p children_record_slot by auto
qed

lemma ms_ok_insert: "ms_ok m \<Longrightarrow> ms_ok (snd (ms_insert slot m))"
proof (induction slot m rule: ms_insert.induct)
  case (1 slot m)
  then show ?case
    by (auto simp: ms_insert.simps [of slot m] ms_ok_record_slot split: option.split)
qed

lemma ms_insert_recorded:
  "fst (ms_insert slot m) \<Longrightarrow> fmlookup (ms_keys (snd (ms_insert slot m))) slot \<noteq> None"
  "fmlookup (ms_keys m) s = Some k \<Longrightarrow> fmlookup (ms_keys (snd (ms_insert slot m))) s = Some k"
proof -
  show keep: "fmlookup (ms_keys m) s = Some k \<Longrightarrow> fmlookup (ms_keys (snd (ms_insert slot m))) s = Some k" for m slot s k
  proof (induction slot m rule: ms_insert.induct)
    case (1 slot m)
    have "ms_keys (record_slot slot key parent m) = fmupd slot key (ms_keys m)" for key parent
      by (simp add: record_slot_def)
    with 1 show ?case
      by (cases "slot = s") (auto simp: ms_insert.simps [of slot m] ms_insert.simps [of s m] split: option.split)
  qed
  assume "fst (ms_insert slot m)"
  then obtain key parent where "ms_insert slot m = (True, snd (ms_insert parent (record_slot slot key parent m)))"
    by (auto simp: ms_insert.simps [of slot m] split: option.splits if_splits)
  moreover have "fmlookup (ms_keys (record_slot slot key parent m)) slot = Some key" by (simp add: record_slot_def)
  ultimately show "fmlookup (ms_keys (snd (ms_insert slot m))) slot \<noteq> None" by (simp add: keep)
qed

lemma mappings_ok_step:
  assumes "mappings_ok ms" "on_evm_step keccak256 i ms = Some ms'"
  shows "mappings_ok ms'"
proof -
  have seen: "ms_ok (m\<lparr>ms_seen_sha3 := x\<rparr>) \<longleftrightarrow> ms_ok m" for m x
    by (simp add: ms_ok_def children_of_def)
  have get: "ms_ok (case fmlookup ms a of None \<Rightarrow> ms_default | Some m \<Rightarrow> m)" for a
    using assms(1) ms_ok_default by (auto simp: mappings_ok_def split: option.split)
  have "mappings_ok ms''" if "on_sha3 keccak256 i ms = Some ms''" for ms''
    using that assms(1) get [of "in_address i"]
    by (auto simp: on_sha3_def mappings_ok_def seen Let_def split: if_splits bind_splits)
  moreover have "mappings_ok (on_sstore i ms)"
    using assms(1) ms_ok_insert by (auto simp: on_sstore_def mappings_ok_def split: option.split if_splits)
  ultimately show ?thesis using assms by (auto simp: on_evm_step_def split: if_splits bind_splits)
qed

section \<open>Properties\<close>

text \<open>
  Recorded mappings are consistent.  Whatever instructions are recorded, starting from nothing
  recorded, every recorded slot has a key, is listed exactly once among the slots of its parent and
  among no others, so that asking for its key and parent finds both and never panics.
\<close>

theorem mapping_recording:
  assumes "fold (\<lambda>i r. Option.bind r (on_evm_step keccak256 i)) steps (Some fmempty) = Some ms"
    "fmlookup ms a = Some m"
  shows "(\<forall>s p. count_list (children_of m p) s = (if fmlookup (ms_parent_slots m) s = Some p then 1 else 0)) \<and>
    (\<forall>s. (fmlookup (ms_keys m) s \<noteq> None) = (fmlookup (ms_parent_slots m) s \<noteq> None)) \<and>
    get_mapping_key_and_parent (st\<lparr>cc_mapping_slots := Some ms\<rparr>) a s \<noteq> None"
proof -
  have fail: "fold (\<lambda>i r. Option.bind r (on_evm_step keccak256 i)) is None = None" for "is"
    by (induction "is") auto
  have "mappings_ok ms0 \<Longrightarrow> fold (\<lambda>i r. Option.bind r (on_evm_step keccak256 i)) is (Some ms0) = Some ms1 \<Longrightarrow>
      mappings_ok ms1" for "is" ms0 ms1
  proof (induction "is" arbitrary: ms0)
    case (Cons i "is")
    then show ?case
      by (cases "on_evm_step keccak256 i ms0") (auto simp: fail dest: mappings_ok_step)
  qed simp
  from this [of fmempty] have "mappings_ok ms" using assms(1) by (simp add: mappings_ok_def)
  then have ok: "ms_ok m" using assms(2) by (simp add: mappings_ok_def)
  then have dom: "(fmlookup (ms_keys m) s \<noteq> None) = (fmlookup (ms_parent_slots m) s \<noteq> None)" for s
    by (metis fmdom_notD fmdom_notI ms_ok_def)
  have "count_list (children_of m p) s = (if fmlookup (ms_parent_slots m) s = Some p then 1 else 0)" for s p
    using ok by (auto simp: ms_ok_def count_distinct)
  moreover have "get_mapping_key_and_parent (st\<lparr>cc_mapping_slots := Some ms\<rparr>) a s \<noteq> None"
    using assms(2) dom [of s]
    by (auto simp: get_mapping_key_and_parent_def mapping_of_def split: option.split bind_split)
  ultimately show ?thesis using dom by blast
qed

definition ex_interp :: "u8 \<Rightarrow> U256 list \<Rightarrow> unit Interpreter" where
  "ex_interp opcode stack = \<lparr>in_pc = 0, in_bytecode = [opcode], in_stack = stack,
     in_memory = replicate 31 0 @ [7] @ replicate 31 0 @ [2], in_gas = (), in_address = 1,
     in_return_range = (0, 0)\<rparr>"

lemma le_nat_zeros: "le_nat (replicate n 0) = 0"
  by (induction n) auto

theorem mapping_recording_witness:
  "\<exists>ms m. fold (\<lambda>i r. Option.bind r (on_evm_step (\<lambda>_. [9]) i))
        [ex_interp SHA3 [0, 0x40], ex_interp SSTORE [9, 1]] (Some fmempty) = Some ms \<and>
      fmlookup ms 1 = Some m \<and> children_of m 2 = [9] \<and> count_list (children_of m 2) 9 = 1"
proof -
  let ?m = "record_slot 9 7 2 (ms_default\<lparr>ms_seen_sha3 := fmupd 9 (7, 2) fmempty\<rparr>)"
  let ?ms = "fmupd 1 ?m (fmupd 1 (ms_default\<lparr>ms_seen_sha3 := fmupd 9 (7, 2) fmempty\<rparr>) fmempty)"
  have ins: "ms_insert 9 (ms_default\<lparr>ms_seen_sha3 := fmupd 9 (7, 2) fmempty\<rparr>) = (True, ?m)"
    by (simp add: ms_insert.simps [of 9] ms_insert.simps [of 2] ms_default_def record_slot_def)
  have seen: "ms_seen_sha3 ms_default = fmempty" by (simp add: ms_default_def)
  have run: "fold (\<lambda>i r. Option.bind r (on_evm_step (\<lambda>_. [9]) i))
        [ex_interp SHA3 [0, 0x40], ex_interp SSTORE [9, 1]] (Some fmempty) = Some ?ms"
    by (simp add: on_evm_step_def on_sha3_def on_sstore_def op_at_def peek_def as_usize_def get_slice_def
        u256_be_def ex_interp_def ins seen le_nat_zeros)
  from mapping_recording [OF run, of 1 ?m] run show ?thesis
    by (intro exI [of _ ?ms] exI [of _ ?m])
      (simp add: children_of_def record_slot_def ms_default_def)
qed

end
