(* ===== verification/CheatEnv.thy ===== *)
theory CheatEnv
  imports CheatMapping
begin

text \<open>
  The cheatcodes that change the execution environment (\<open>cheatcodes/env.rs\<close>) and the helpers they
  share (\<open>cheatcodes/util.rs\<close>).

  A handler takes the inspector's state and the EVM data and returns its result together with both as
  it leaves them, also when it fails; the outer \<open>None\<close> is a panic.
\<close>

section \<open>Helpers\<close>

definition is_potential_precompile :: "Address \<Rightarrow> bool" where
  "is_potential_precompile address \<longleftrightarrow> address < 10 \<and> address \<noteq> 0"

text \<open>
  \<open>with_journaled_account\<close>: the account is loaded and touched, then \<open>f\<close> changes it; \<open>None\<close> is the
  failing \<open>expect\<close>.
\<close>

definition with_journaled_account ::
  "('x, 'e) journal_lib \<Rightarrow> Address \<Rightarrow> (AccountInfo \<Rightarrow> 'r \<times> AccountInfo) \<Rightarrow> 'x JournaledState \<Rightarrow>
   (('r, 'e) result \<times> 'x JournaledState) option" where
  "with_journaled_account jl addr f j =
     (case jl_load_account jl addr j of
        (Err e, j1) \<Rightarrow> Some (Err e, j1)
      | (Ok _, j1) \<Rightarrow>
          let j2 = jl_touch jl addr j1 in
          case fmlookup (js_state j2) addr of
            None \<Rightarrow> None
          | Some account \<Rightarrow>
              let (r, account') = f account
              in Some (Ok r, j2\<lparr>js_state := fmupd addr account' (js_state j2)\<rparr>))"

text \<open>The wallets of \<open>ethers\<close>: the order of the curve, the key of a number, and the wallet of a key.\<close>

record ('k, 'w) wallet_lib =
  wl_order :: U256
  wl_signing_key :: "U256 \<Rightarrow> 'k option"
  wl_wallet :: "'k \<Rightarrow> u64 \<Rightarrow> 'w"
  wl_address :: "'w \<Rightarrow> Address"

definition parse_private_key :: "('k, 'w) wallet_lib \<Rightarrow> U256 \<Rightarrow> ('k, 'e cheat_error) result" where
  "parse_private_key wl private_key =
     (if private_key = 0 then Err PrivateKeyZero
      else if \<not> private_key < wl_order wl then Err PrivateKeyTooLarge
      else case wl_signing_key wl private_key of Some k \<Rightarrow> Ok k | None \<Rightarrow> Err PrivateKeyInvalid)"

definition skip :: "u64 \<Rightarrow> bool \<Rightarrow> ('g, 'w, 'd) Cheatcodes \<Rightarrow>
    (bytes, 'e cheat_error) result \<times> ('g, 'w, 'd) Cheatcodes" where
  "skip d sk st =
     (if \<not> sk then (Ok [], st)
      else if 1 < d then (Err SkipTooDeep, st)
      else (Err SkipMagic, st\<lparr>cc_skip := True\<rparr>))"

definition check_if_fixed_gas_limit :: "'x EVMData \<Rightarrow> u64 \<Rightarrow> bool" where
  "check_if_fixed_gas_limit data call_gas_limit \<longleftrightarrow>
     be_gas_limit (env_block (ed_env data)) < ucast (tx_gas_limit (ed_env data)) \<and>
     ucast call_gas_limit \<le> be_gas_limit (env_block (ed_env data)) \<and> 2300 < call_gas_limit"

section \<open>Pranks and broadcasts\<close>

definition prank_new :: "Address \<Rightarrow> Address \<Rightarrow> Address \<Rightarrow> Address option \<Rightarrow> u64 \<Rightarrow> bool \<Rightarrow> Prank" where
  "prank_new caller origin new_caller new_origin d single_call =
     \<lparr>prank_caller = caller, prank_origin = origin, pr_new_caller = new_caller,
      pr_new_origin = new_origin, pr_depth = d, pr_single_call = single_call, pr_used = False\<rparr>"

definition first_time_applied :: "Prank \<Rightarrow> Prank option" where
  "first_time_applied p = (if pr_used p then None else Some (p\<lparr>pr_used := True\<rparr>))"

datatype CallerMode = ModeNone | ModeBroadcast | ModeRecurrentBroadcast | ModePrank | ModeRecurrentPrank

fun mode_u256 :: "CallerMode \<Rightarrow> U256" where
  "mode_u256 ModeNone = 0"
| "mode_u256 ModeBroadcast = 1"
| "mode_u256 ModeRecurrentBroadcast = 2"
| "mode_u256 ModePrank = 3"
| "mode_u256 ModeRecurrentPrank = 4"

definition broadcast :: "Address \<Rightarrow> Address \<Rightarrow> Address \<Rightarrow> u64 \<Rightarrow> bool \<Rightarrow> ('g, 'w, 'd) Cheatcodes \<Rightarrow>
    (bytes, 'e cheat_error) result \<times> ('g, 'w, 'd) Cheatcodes" where
  "broadcast new_origin original_caller original_origin d single_call st =
     (if cc_prank st \<noteq> None then (Err ActivePrank, st)
      else if cc_broadcast st \<noteq> None then (Err ActiveBroadcast, st)
      else (Ok [], st\<lparr>cc_broadcast := Some \<lparr>bc_new_origin = new_origin,
              bc_original_caller = original_caller, bc_original_origin = original_origin,
              bc_depth = d, bc_single_call = single_call\<rparr>\<rparr>))"

definition broadcast_key :: "('k, 'w) wallet_lib \<Rightarrow> U256 \<Rightarrow> Address \<Rightarrow> Address \<Rightarrow> U256 \<Rightarrow> u64 \<Rightarrow> bool \<Rightarrow>
    ('g, 'w, 'd) Cheatcodes \<Rightarrow> ((bytes, 'e cheat_error) result \<times> ('g, 'w, 'd) Cheatcodes) option" where
  "broadcast_key wl private_key original_caller original_origin chain_id d single_call st =
     (case parse_private_key wl private_key of
        Err e \<Rightarrow> Some (Err e, st)
      | Ok key \<Rightarrow> do {
          chain \<leftarrow> as_u64 chain_id;
          let wallet = wl_wallet wl key chain;
          let (r, st') = broadcast (wl_address wl wallet) original_caller original_origin d single_call st;
          Some (r, if is_ok r then st'\<lparr>cc_script_wallets := cc_script_wallets st' @ [wallet]\<rparr> else st')
        })"

definition prank :: "Address \<Rightarrow> Address \<Rightarrow> Address \<Rightarrow> Address option \<Rightarrow> u64 \<Rightarrow> bool \<Rightarrow>
    ('g, 'w, 'd) Cheatcodes \<Rightarrow> (bytes, 'e cheat_error) result \<times> ('g, 'w, 'd) Cheatcodes" where
  "prank caller origin new_caller new_origin d single_call st =
     (case cc_prank st of
        Some p \<Rightarrow>
          if \<not> pr_used p then (Err PrankNotApplied, st)
          else if single_call \<noteq> pr_single_call p then (Err PrankOverridden, st)
          else if cc_broadcast st \<noteq> None then (Err PrankDuringBroadcast, st)
          else (Ok [], st\<lparr>cc_prank := Some (prank_new caller origin new_caller new_origin d single_call)\<rparr>)
      | None \<Rightarrow>
          if cc_broadcast st \<noteq> None then (Err PrankDuringBroadcast, st)
          else (Ok [], st\<lparr>cc_prank := Some (prank_new caller origin new_caller new_origin d single_call)\<rparr>))"

definition read_callers :: "('g, 'w, 'd) Cheatcodes \<Rightarrow> Address \<Rightarrow> Token list" where
  "read_callers st default_sender =
     (case cc_prank st of
        Some p \<Rightarrow>
          [TUint (mode_u256 (if pr_single_call p then ModePrank else ModeRecurrentPrank)),
           TAddress (pr_new_caller p),
           TAddress (case pr_new_origin p of Some a \<Rightarrow> a | None \<Rightarrow> default_sender)]
      | None \<Rightarrow> (case cc_broadcast st of
          Some b \<Rightarrow>
            [TUint (mode_u256 (if bc_single_call b then ModeBroadcast else ModeRecurrentBroadcast)),
             TAddress (bc_new_origin b), TAddress (bc_new_origin b)]
        | None \<Rightarrow> [TUint (mode_u256 ModeNone), TAddress default_sender, TAddress default_sender]))"

text \<open>\<open>Config::DEFAULT_SENDER\<close> is an argument.\<close>

definition correct_sender_nonce :: "Address \<Rightarrow> ('x, 'e) journal_lib \<Rightarrow> Address \<Rightarrow>
    ('g, 'w, 'd) Cheatcodes \<Rightarrow> 'x JournaledState \<Rightarrow>
    ((unit, 'e) result \<times> ('g, 'w, 'd) Cheatcodes \<times> 'x JournaledState) option" where
  "correct_sender_nonce default_sender jl sender st j =
     (if \<not> cc_corrected_nonce st \<and> sender \<noteq> default_sender then do {
        (r, j') \<leftarrow> with_journaled_account jl sender
          (\<lambda>account. ((), account\<lparr>ac_nonce := saturating_sub (ac_nonce account) 1\<rparr>)) j;
        Some (r, if is_ok r then st\<lparr>cc_corrected_nonce := True\<rparr> else st, j')
      } else Some (Ok (), st, j))"

section \<open>Recording\<close>

definition start_record :: "('g, 'w, 'd) Cheatcodes \<Rightarrow> ('g, 'w, 'd) Cheatcodes" where
  "start_record st = st\<lparr>cc_accesses := Some \<lparr>ra_reads = fmempty, ra_writes = fmempty\<rparr>\<rparr>"

definition slot_tokens :: "U256 list option \<Rightarrow> Token" where
  "slot_tokens x = TArray (map TUint (case x of Some ks \<Rightarrow> ks | None \<Rightarrow> []))"

definition accesses :: "Address \<Rightarrow> ('g, 'w, 'd) Cheatcodes \<Rightarrow> Token list \<times> ('g, 'w, 'd) Cheatcodes" where
  "accesses address st =
     (case cc_accesses st of
        Some a \<Rightarrow>
          ([slot_tokens (fmlookup (ra_reads a) address), slot_tokens (fmlookup (ra_writes a) address)],
           st\<lparr>cc_accesses := Some \<lparr>ra_reads = fmdrop address (ra_reads a),
                                    ra_writes = fmdrop address (ra_writes a)\<rparr>\<rparr>)
      | None \<Rightarrow> ([TArray [], TArray []], st))"

definition start_record_logs :: "('g, 'w, 'd) Cheatcodes \<Rightarrow> ('g, 'w, 'd) Cheatcodes" where
  "start_record_logs st = st\<lparr>cc_recorded_logs := Some []\<rparr>"

text \<open>\<open>Option::replace\<close> stores an empty record also when none was recorded.\<close>

definition get_recorded_logs :: "('g, 'w, 'd) Cheatcodes \<Rightarrow> Token list \<times> ('g, 'w, 'd) Cheatcodes" where
  "get_recorded_logs st =
     (case cc_recorded_logs st of
        Some entries \<Rightarrow> [TArray (map (\<lambda>e. TTuple [TArray (map (\<lambda>t. TFixedBytes (rev (le_bytes 32 t))) (log_topics (log_inner e))),
             TBytes (log_data (log_inner e)), TAddress (log_emitter e)]) entries)]
      | None \<Rightarrow> [TArray []],
      st\<lparr>cc_recorded_logs := Some []\<rparr>)"

text \<open>\<open>char::is_alphabetic\<close> is an argument.\<close>

definition add_breakpoint :: "(char \<Rightarrow> bool) \<Rightarrow> Address \<Rightarrow> string \<Rightarrow> bool \<Rightarrow> ('g, 'w, 'd) Cheatcodes \<Rightarrow>
    (bytes, 'e cheat_error) result \<times> ('g, 'w, 'd) Cheatcodes" where
  "add_breakpoint is_alphabetic caller inner add st =
     (case inner of
        [] \<Rightarrow> (Err BreakpointEmpty, st)
      | point # rest \<Rightarrow>
          if rest \<noteq> [] then (Err BreakpointTooLong, st)
          else if \<not> is_alphabetic point then (Err BreakpointNotAlphabetic, st)
          else (Ok [], st\<lparr>cc_breakpoints :=
                  if add then fmupd point (caller, cc_pc st) (cc_breakpoints st)
                  else fmdrop point (cc_breakpoints st)\<rparr>))"

section \<open>The handlers\<close>

datatype (plugins only: code) EnvCall = Warp U256 | Difficulty U256 | Prevrandao H256 | Roll U256
  | Fee U256 | Coinbase Address | Store Address H256 H256 | Load Address H256 | Breakpoint0 string
  | Breakpoint1 string bool | Etch Address bytes | Deal Address U256 | Prank0 Address
  | Prank1 Address Address | StartPrank0 Address | StartPrank1 Address Address | StopPrank
  | ReadCallers | Record | Accesses Address | RecordLogs | GetRecordedLogs | SetNonce Address u64
  | SetNonceUnsafe Address u64 | ResetNonce Address | GetNonce Address | ChainId U256 | TxGasPrice U256
  | Broadcast0 | Broadcast1 Address | Broadcast2 U256 | StartBroadcast0 | StartBroadcast1 Address
  | StartBroadcast2 U256 | StopBroadcast | PauseGasMetering | ResumeGasMetering
  | StartMappingRecording | StopMappingRecording | GetMappingLength Address H256
  | GetMappingSlotAt Address H256 U256 | GetMappingKeyAndParentOf Address H256

text \<open>What the handlers use of other crates.\<close>

record ('k, 'w, 'x, 'e) cheat_lib =
  cl_journal :: "('x, 'e) journal_lib"
  cl_wallet :: "('k, 'w) wallet_lib"
  cl_alphabetic :: "char \<Rightarrow> bool"
  cl_default_sender :: Address
  cl_encode :: "Token list \<Rightarrow> bytes"

type_synonym ('g, 'w, 'd, 'x, 'e) outcome =
  "(bytes, 'e cheat_error) result \<times> ('g, 'w, 'd) Cheatcodes \<times> 'x EVMData"

definition set_block :: "(BlockEnv \<Rightarrow> BlockEnv) \<Rightarrow> 'x EVMData \<Rightarrow> 'x EVMData" where
  "set_block f data = data\<lparr>ed_env := (ed_env data)\<lparr>env_block := f (env_block (ed_env data))\<rparr>\<rparr>"

text \<open>The handlers of the block environment, \<open>warp\<close> to \<open>coinbase\<close>.\<close>

definition warp :: "U256 \<Rightarrow> 'x EVMData \<Rightarrow> 'x EVMData" where
  "warp t = set_block (\<lambda>b. b\<lparr>be_timestamp := t\<rparr>)"

definition difficulty :: "('x, 'e) journal_lib \<Rightarrow> U256 \<Rightarrow> 'x EVMData \<Rightarrow> (bytes, 'e cheat_error) result \<times> 'x EVMData" where
  "difficulty jl x data =
     (if cfg_spec_id (ed_env data) < jl_merge jl
      then (Ok [], set_block (\<lambda>b. b\<lparr>be_difficulty := x\<rparr>) data) else (Err DifficultyAfterMerge, data))"

definition prevrandao :: "('x, 'e) journal_lib \<Rightarrow> H256 \<Rightarrow> 'x EVMData \<Rightarrow> (bytes, 'e cheat_error) result \<times> 'x EVMData" where
  "prevrandao jl x data =
     (if jl_merge jl \<le> cfg_spec_id (ed_env data)
      then (Ok [], set_block (\<lambda>b. b\<lparr>be_prevrandao := Some x\<rparr>) data) else (Err PrevrandaoBeforeMerge, data))"

definition roll :: "U256 \<Rightarrow> 'x EVMData \<Rightarrow> 'x EVMData" where
  "roll n = set_block (\<lambda>b. b\<lparr>be_number := n\<rparr>)"

definition fee :: "U256 \<Rightarrow> 'x EVMData \<Rightarrow> 'x EVMData" where
  "fee x = set_block (\<lambda>b. b\<lparr>be_basefee := x\<rparr>)"

definition coinbase :: "Address \<Rightarrow> 'x EVMData \<Rightarrow> 'x EVMData" where
  "coinbase a = set_block (\<lambda>b. b\<lparr>be_coinbase := a\<rparr>)"

definition chain_id :: "U256 \<Rightarrow> 'x EVMData \<Rightarrow> (bytes, 'e cheat_error) result \<times> 'x EVMData" where
  "chain_id c data =
     (if c \<le> 2 ^ 64 - 1 then (Ok [], data\<lparr>ed_env := (ed_env data)\<lparr>cfg_chain_id := c\<rparr>\<rparr>)
      else (Err ChainIdTooLarge, data))"

text \<open>Storage and code.\<close>

definition store :: "('x, 'e) journal_lib \<Rightarrow> Address \<Rightarrow> U256 \<Rightarrow> U256 \<Rightarrow> 'x JournaledState \<Rightarrow>
    (bytes, 'e cheat_error) result \<times> 'x JournaledState" where
  "store jl a slot v j =
     (if is_potential_precompile a then (Err PrecompileAddress, j)
      else case jl_load_account jl a j of
        (Err e, j1) \<Rightarrow> (Err (DbError e), j1)
      | (Ok _, j1) \<Rightarrow> (case jl_sstore jl a slot v (jl_touch jl a j1) of
            (Err e, j2) \<Rightarrow> (Err (DbError e), j2)
          | (Ok _, j2) \<Rightarrow> (Ok [], j2)))"

definition load :: "('x, 'e) journal_lib \<Rightarrow> Address \<Rightarrow> U256 \<Rightarrow> 'x JournaledState \<Rightarrow>
    (bytes, 'e cheat_error) result \<times> 'x JournaledState" where
  "load jl a slot j =
     (if is_potential_precompile a then (Err PrecompileAddress, j)
      else case jl_load_account jl a j of
        (Err e, j1) \<Rightarrow> (Err (DbError e), j1)
      | (Ok _, j1) \<Rightarrow> (case jl_sload jl a slot j1 of
            (Err e, j2) \<Rightarrow> (Err (DbError e), j2)
          | (Ok v, j2) \<Rightarrow> (Ok (rev (le_bytes 32 v)), j2)))"

definition etch :: "('x, 'e) journal_lib \<Rightarrow> Address \<Rightarrow> bytes \<Rightarrow> 'x JournaledState \<Rightarrow>
    (bytes, 'e cheat_error) result \<times> 'x JournaledState" where
  "etch jl a code j =
     (if is_potential_precompile a then (Err PrecompileAddress, j)
      else case jl_load_account jl a j of
        (Err e, j1) \<Rightarrow> (Err (DbError e), j1)
      | (Ok _, j1) \<Rightarrow> (Ok [], jl_set_code jl a code j1))"

text \<open>Accounts.\<close>

definition deal :: "('x, 'e) journal_lib \<Rightarrow> Address \<Rightarrow> U256 \<Rightarrow> ('g, 'w, 'd) Cheatcodes \<Rightarrow> 'x JournaledState \<Rightarrow>
    ((bytes, 'e cheat_error) result \<times> ('g, 'w, 'd) Cheatcodes \<times> 'x JournaledState) option" where
  "deal jl who value st j = do {
     (r, j') \<leftarrow> with_journaled_account jl who
       (\<lambda>account. (\<lparr>dr_address = who, dr_old_balance = ac_balance account, dr_new_balance = value\<rparr>,
                   account\<lparr>ac_balance := value\<rparr>)) j;
     Some (case r of
        Ok record \<Rightarrow> (Ok [], st\<lparr>cc_eth_deals := cc_eth_deals st @ [record]\<rparr>, j')
      | Err e \<Rightarrow> (Err (DbError e), st, j'))
   }"

definition set_nonce :: "('x, 'e) journal_lib \<Rightarrow> Address \<Rightarrow> u64 \<Rightarrow> 'x JournaledState \<Rightarrow>
    ((bytes, 'e cheat_error) result \<times> 'x JournaledState) option" where
  "set_nonce jl a new j = do {
     (r, j') \<leftarrow> with_journaled_account jl a
       (\<lambda>account. if ac_nonce account \<le> new then (Ok [], account\<lparr>ac_nonce := new\<rparr>)
                   else (Err (NonceTooLow new (ac_nonce account)), account)) j;
     Some (case r of Ok r' \<Rightarrow> r' | Err e \<Rightarrow> Err (DbError e), j')
   }"

definition set_nonce_unsafe :: "('x, 'e) journal_lib \<Rightarrow> Address \<Rightarrow> u64 \<Rightarrow> 'x JournaledState \<Rightarrow>
    ((bytes, 'e cheat_error) result \<times> 'x JournaledState) option" where
  "set_nonce_unsafe jl a new j = do {
     (r, j') \<leftarrow> with_journaled_account jl a (\<lambda>account. ((), account\<lparr>ac_nonce := new\<rparr>)) j;
     Some (case r of Ok _ \<Rightarrow> Ok [] | Err e \<Rightarrow> Err (DbError e), j')
   }"

definition reset_nonce :: "('x, 'e) journal_lib \<Rightarrow> Address \<Rightarrow> 'x JournaledState \<Rightarrow>
    ((bytes, 'e cheat_error) result \<times> 'x JournaledState) option" where
  "reset_nonce jl a j = do {
     (r, j') \<leftarrow> with_journaled_account jl a
       (\<lambda>account. ((), account\<lparr>ac_nonce := if ac_code_hash account = jl_keccak_empty jl then 0 else 1\<rparr>)) j;
     Some (case r of Ok _ \<Rightarrow> Ok [] | Err e \<Rightarrow> Err (DbError e), j')
   }"

text \<open>
  The handlers that correct the sender's nonce first: \<open>getNonce\<close> and the broadcasts.
\<close>

definition corrected :: "('k, 'w, 'x, 'e) cheat_lib \<Rightarrow> ('g, 'w, 'd) Cheatcodes \<Rightarrow> 'x EVMData \<Rightarrow>
    (('g, 'w, 'd) Cheatcodes \<Rightarrow> 'x EVMData \<Rightarrow> ('g, 'w, 'd, 'x, 'e) outcome option) \<Rightarrow>
    ('g, 'w, 'd, 'x, 'e) outcome option" where
  "corrected cl st data k = do {
     (r, st', j') \<leftarrow> correct_sender_nonce (cl_default_sender cl) (cl_journal cl)
        (tx_caller (ed_env data)) st (ed_journal data);
     case r of
       Err e \<Rightarrow> Some (Err (DbError e), st', data\<lparr>ed_journal := j'\<rparr>)
     | Ok _ \<Rightarrow> k st' (data\<lparr>ed_journal := j'\<rparr>)
   }"

definition get_nonce :: "('k, 'w, 'x, 'e) cheat_lib \<Rightarrow> Address \<Rightarrow> ('g, 'w, 'd) Cheatcodes \<Rightarrow> 'x EVMData \<Rightarrow>
    ('g, 'w, 'd, 'x, 'e) outcome option" where
  "get_nonce cl a st data = corrected cl st data (\<lambda>st' data'.
     case jl_load_account (cl_journal cl) a (ed_journal data') of
       (Err e, j) \<Rightarrow> Some (Err (DbError e), st', data'\<lparr>ed_journal := j\<rparr>)
     | (Ok _, j) \<Rightarrow> do {
         account \<leftarrow> fmlookup (js_state j) a;
         Some (Ok (cl_encode cl [TUint (ucast (ac_nonce account))]), st', data'\<lparr>ed_journal := j\<rparr>)
       })"

definition broadcast_from :: "('k, 'w, 'x, 'e) cheat_lib \<Rightarrow> Address \<Rightarrow> Address \<Rightarrow> bool \<Rightarrow>
    ('g, 'w, 'd) Cheatcodes \<Rightarrow> 'x EVMData \<Rightarrow> ('g, 'w, 'd, 'x, 'e) outcome option" where
  "broadcast_from cl new_origin caller single_call st data = corrected cl st data (\<lambda>st' data'.
     let (r, st'') = broadcast new_origin caller (tx_caller (ed_env data')) (depth data') single_call st'
     in Some (r, st'', data'))"

definition broadcast_from_key :: "('k, 'w, 'x, 'e) cheat_lib \<Rightarrow> U256 \<Rightarrow> Address \<Rightarrow> bool \<Rightarrow>
    ('g, 'w, 'd) Cheatcodes \<Rightarrow> 'x EVMData \<Rightarrow> ('g, 'w, 'd, 'x, 'e) outcome option" where
  "broadcast_from_key cl private_key caller single_call st data = corrected cl st data (\<lambda>st' data'. do {
     (r, st'') \<leftarrow> broadcast_key (cl_wallet cl) private_key caller (tx_caller (ed_env data'))
       (cfg_chain_id (ed_env data')) (depth data') single_call st';
     Some (r, st'', data')
   })"

text \<open>Embeddings of the handlers that change only one of the two states.\<close>

definition on_data :: "('g, 'w, 'd) Cheatcodes \<Rightarrow> (bytes, 'e cheat_error) result \<times> 'x EVMData \<Rightarrow>
    ('g, 'w, 'd, 'x, 'e) outcome option" where
  "on_data st r = Some (fst r, st, snd r)"

definition on_journal :: "('g, 'w, 'd) Cheatcodes \<Rightarrow> 'x EVMData \<Rightarrow>
    (bytes, 'e cheat_error) result \<times> 'x JournaledState \<Rightarrow> ('g, 'w, 'd, 'x, 'e) outcome option" where
  "on_journal st data r = Some (fst r, st, data\<lparr>ed_journal := snd r\<rparr>)"

definition on_state :: "'x EVMData \<Rightarrow> (bytes, 'e cheat_error) result \<times> ('g, 'w, 'd) Cheatcodes \<Rightarrow>
    ('g, 'w, 'd, 'x, 'e) outcome option" where
  "on_state data r = Some (fst r, snd r, data)"

definition prank_from :: "Address \<Rightarrow> Address \<Rightarrow> Address option \<Rightarrow> bool \<Rightarrow> ('g, 'w, 'd) Cheatcodes \<Rightarrow>
    'x EVMData \<Rightarrow> ('g, 'w, 'd, 'x, 'e) outcome option" where
  "prank_from caller new_caller new_origin single_call st data =
     on_state data (prank caller (tx_caller (ed_env data)) new_caller new_origin (depth data) single_call st)"

definition stop_prank :: "('g, 'w, 'd) Cheatcodes \<Rightarrow> (bytes, 'e cheat_error) result \<times> ('g, 'w, 'd) Cheatcodes" where
  "stop_prank st = (if cc_prank st \<noteq> None then (Ok [], st\<lparr>cc_prank := None\<rparr>) else (Err NoPrankToStop, st))"

definition stop_broadcast :: "('g, 'w, 'd) Cheatcodes \<Rightarrow> (bytes, 'e cheat_error) result \<times> ('g, 'w, 'd) Cheatcodes" where
  "stop_broadcast st =
     (if cc_broadcast st \<noteq> None then (Ok [], st\<lparr>cc_broadcast := None\<rparr>) else (Err NoBroadcastToStop, st))"

definition pause_gas_metering :: "('g, 'w, 'd) Cheatcodes \<Rightarrow> ('g, 'w, 'd) Cheatcodes" where
  "pause_gas_metering st = (if cc_gas_metering st = None then st\<lparr>cc_gas_metering := Some None\<rparr> else st)"

definition start_mapping_recording :: "('g, 'w, 'd) Cheatcodes \<Rightarrow> ('g, 'w, 'd) Cheatcodes" where
  "start_mapping_recording st =
     (if cc_mapping_slots st = None then st\<lparr>cc_mapping_slots := Some fmempty\<rparr> else st)"

text \<open>\<open>env::apply\<close>.\<close>

definition env_apply :: "('k, 'w, 'x, 'e) cheat_lib \<Rightarrow> Address \<Rightarrow> EnvCall \<Rightarrow> ('g, 'w, 'd) Cheatcodes \<Rightarrow>
    'x EVMData \<Rightarrow> ('g, 'w, 'd, 'x, 'e) outcome option" where
  "env_apply cl caller call st data = (let jl = cl_journal cl; j = ed_journal data in
     case call of
       Warp t \<Rightarrow> Some (Ok [], st, warp t data)
     | Difficulty x \<Rightarrow> on_data st (difficulty jl x data)
     | Prevrandao x \<Rightarrow> on_data st (prevrandao jl x data)
     | Roll n \<Rightarrow> Some (Ok [], st, roll n data)
     | Fee x \<Rightarrow> Some (Ok [], st, fee x data)
     | Coinbase a \<Rightarrow> Some (Ok [], st, coinbase a data)
     | Store a slot v \<Rightarrow> on_journal st data (store jl a slot v j)
     | Load a slot \<Rightarrow> on_journal st data (load jl a slot j)
     | Breakpoint0 s \<Rightarrow> on_state data (add_breakpoint (cl_alphabetic cl) caller s True st)
     | Breakpoint1 s add \<Rightarrow> on_state data (add_breakpoint (cl_alphabetic cl) caller s add st)
     | Etch a code \<Rightarrow> on_journal st data (etch jl a code j)
     | Deal who value \<Rightarrow> do {
         (r, st', j') \<leftarrow> deal jl who value st j;
         Some (r, st', data\<lparr>ed_journal := j'\<rparr>)
       }
     | Prank0 a \<Rightarrow> prank_from caller a None True st data
     | Prank1 a b \<Rightarrow> prank_from caller a (Some b) True st data
     | StartPrank0 a \<Rightarrow> prank_from caller a None False st data
     | StartPrank1 a b \<Rightarrow> prank_from caller a (Some b) False st data
     | StopPrank \<Rightarrow> on_state data (stop_prank st)
     | ReadCallers \<Rightarrow> Some (Ok (cl_encode cl (read_callers st (tx_caller (ed_env data)))), st, data)
     | Record \<Rightarrow> Some (Ok [], start_record st, data)
     | Accesses a \<Rightarrow> (let (ts, st') = accesses a st in Some (Ok (cl_encode cl ts), st', data))
     | RecordLogs \<Rightarrow> Some (Ok [], start_record_logs st, data)
     | GetRecordedLogs \<Rightarrow> (let (ts, st') = get_recorded_logs st in Some (Ok (cl_encode cl ts), st', data))
     | SetNonce a n \<Rightarrow> Option.bind (set_nonce jl a n j) (on_journal st data)
     | SetNonceUnsafe a n \<Rightarrow> Option.bind (set_nonce_unsafe jl a n j) (on_journal st data)
     | ResetNonce a \<Rightarrow> Option.bind (reset_nonce jl a j) (on_journal st data)
     | GetNonce a \<Rightarrow> get_nonce cl a st data
     | ChainId c \<Rightarrow> on_data st (chain_id c data)
     | TxGasPrice p \<Rightarrow> Some (Ok [], st, data\<lparr>ed_env := (ed_env data)\<lparr>tx_gas_price := p\<rparr>\<rparr>)
     | Broadcast0 \<Rightarrow> broadcast_from cl (tx_caller (ed_env data)) caller True st data
     | Broadcast1 a \<Rightarrow> broadcast_from cl a caller True st data
     | Broadcast2 k \<Rightarrow> broadcast_from_key cl k caller True st data
     | StartBroadcast0 \<Rightarrow> broadcast_from cl (tx_caller (ed_env data)) caller False st data
     | StartBroadcast1 a \<Rightarrow> broadcast_from cl a caller False st data
     | StartBroadcast2 k \<Rightarrow> broadcast_from_key cl k caller False st data
     | StopBroadcast \<Rightarrow> on_state data (stop_broadcast st)
     | PauseGasMetering \<Rightarrow> Some (Ok [], pause_gas_metering st, data)
     | ResumeGasMetering \<Rightarrow> Some (Ok [], st\<lparr>cc_gas_metering := None\<rparr>, data)
     | StartMappingRecording \<Rightarrow> Some (Ok [], start_mapping_recording st, data)
     | StopMappingRecording \<Rightarrow> Some (Ok [], st\<lparr>cc_mapping_slots := None\<rparr>, data)
     | GetMappingLength a slot \<Rightarrow> Some (Ok (cl_encode cl (get_mapping_length st a slot)), st, data)
     | GetMappingSlotAt a slot n \<Rightarrow>
         map_option (\<lambda>ts. (Ok (cl_encode cl ts), st, data)) (get_mapping_slot_at st a slot n)
     | GetMappingKeyAndParentOf a slot \<Rightarrow>
         map_option (\<lambda>ts. (Ok (cl_encode cl ts), st, data)) (get_mapping_key_and_parent st a slot))"

section \<open>Lemmas\<close>

text \<open>Pranks and broadcasts exclude each other: no handler leaves both active.\<close>

definition exclusive :: "('g, 'w, 'd) Cheatcodes \<Rightarrow> bool" where
  "exclusive st \<longleftrightarrow> cc_prank st = None \<or> cc_broadcast st = None"

lemma exclusive_update [simp]:
  "exclusive (st\<lparr>cc_script_wallets := a\<rparr>) = exclusive st"
  "exclusive (st\<lparr>cc_corrected_nonce := b\<rparr>) = exclusive st"
  "exclusive (st\<lparr>cc_accesses := c\<rparr>) = exclusive st"
  "exclusive (st\<lparr>cc_recorded_logs := d\<rparr>) = exclusive st"
  "exclusive (st\<lparr>cc_breakpoints := e\<rparr>) = exclusive st"
  "exclusive (st\<lparr>cc_eth_deals := f\<rparr>) = exclusive st"
  "exclusive (st\<lparr>cc_gas_metering := g\<rparr>) = exclusive st"
  "exclusive (st\<lparr>cc_mapping_slots := h\<rparr>) = exclusive st"
  "exclusive (st\<lparr>cc_expected_revert := i\<rparr>) = exclusive st"
  "exclusive (st\<lparr>cc_expected_emits := j\<rparr>) = exclusive st"
  "exclusive (st\<lparr>cc_expected_calls := k\<rparr>) = exclusive st"
  "exclusive (st\<lparr>cc_mocked_calls := l\<rparr>) = exclusive st"
  "exclusive (st\<lparr>cc_allowed_mem_writes := m\<rparr>) = exclusive st"
  "exclusive (st\<lparr>cc_fork_revert_diagnostic := n\<rparr>) = exclusive st"
  "exclusive (st\<lparr>cc_gas_metering_create := q\<rparr>) = exclusive st"
  "exclusive (st\<lparr>cc_broadcastable_transactions := r\<rparr>) = exclusive st"
  "exclusive (st\<lparr>cc_pc := s\<rparr>) = exclusive st"
  "exclusive (st\<lparr>cc_block := t\<rparr>) = exclusive st"
  "exclusive (st\<lparr>cc_gas_price := u\<rparr>) = exclusive st"
  "exclusive (st\<lparr>cc_skip := v\<rparr>) = exclusive st"
  "exclusive (st\<lparr>cc_prank := None\<rparr>)"
  "exclusive (st\<lparr>cc_broadcast := None\<rparr>)"
  by (simp_all add: exclusive_def)

lemma exclusive_prank [simp]: "exclusive st \<Longrightarrow> exclusive (snd (prank c og nc no d s st))"
  by (auto simp: prank_def exclusive_def split: option.splits)

lemma exclusive_broadcast [simp]: "exclusive st \<Longrightarrow> exclusive (snd (broadcast no oc oo d s st))"
  by (auto simp: broadcast_def exclusive_def)

lemma exclusive_broadcast_key:
  "exclusive st \<Longrightarrow> broadcast_key wl k oc oo c d s st = Some (r, st') \<Longrightarrow> exclusive st'"
  by (auto simp: broadcast_key_def split_def Let_def split: result.splits bind_splits if_splits)

lemma exclusive_corrected:
  assumes "exclusive st" "corrected cl st data k = Some (r, st', data')"
    and "\<And>s d. exclusive s \<Longrightarrow> k s d = Some (r, st', data') \<Longrightarrow> exclusive st'"
  shows "exclusive st'"
  using assms(1,2)
  by (auto simp: corrected_def correct_sender_nonce_def split: if_splits result.splits bind_splits
      dest!: assms(3) [rotated])

lemma exclusive_broadcast_from:
  assumes "exclusive st" "broadcast_from cl no caller sc st data = Some (r, st', data')"
  shows "exclusive st'"
  using assms(2) unfolding broadcast_from_def
  by (rule exclusive_corrected [OF assms(1)]) (auto simp: split_def Let_def)

lemma exclusive_broadcast_from_key:
  assumes "exclusive st" "broadcast_from_key cl k caller sc st data = Some (r, st', data')"
  shows "exclusive st'"
  using assms(2) unfolding broadcast_from_key_def
  by (rule exclusive_corrected [OF assms(1)]) (auto dest: exclusive_broadcast_key split: bind_splits)

lemma exclusive_get_nonce:
  assumes "exclusive st" "get_nonce cl a st data = Some (r, st', data')"
  shows "exclusive st'"
  using assms(2) unfolding get_nonce_def
  by (rule exclusive_corrected [OF assms(1)]) (auto split: prod.splits result.splits bind_splits)

lemmas env_handler_defs = on_data_def on_journal_def on_state_def prank_from_def stop_prank_def
  stop_broadcast_def pause_gas_metering_def start_mapping_recording_def start_record_def
  start_record_logs_def accesses_def get_recorded_logs_def add_breakpoint_def deal_def

lemma exclusive_apply:
  assumes "exclusive st" "env_apply cl caller call st data = Some (r, st', data')"
  shows "exclusive st'"
  using assms(2,1)
  by (cases call) (auto simp: env_apply_def env_handler_defs Let_def split_def
      intro: exclusive_broadcast_from exclusive_broadcast_from_key exclusive_get_nonce
      split: option.splits list.splits result.splits if_splits bind_splits)

end
