(* ===== verification/CheatExpect.thy ===== *)
theory CheatExpect
  imports CheatEnv "HOL-Library.Sublist"
begin

text \<open>
  The expectations of a test (\<open>cheatcodes/expect.rs\<close>): expected reverts, emits and calls, mocked
  calls and the memory ranges that may be written.
\<close>

section \<open>Expected reverts\<close>

definition REVERT_PREFIX :: bytes where "REVERT_PREFIX = [8, 195, 121, 160]"
definition ERROR_PREFIX :: bytes where "ERROR_PREFIX = [11, 196, 69, 3]"
definition DUMMY_CALL_OUTPUT :: bytes where "DUMMY_CALL_OUTPUT = replicate 512 0"
definition DUMMY_CREATE_ADDRESS :: Address where "DUMMY_CREATE_ADDRESS = 1"

definition expect_revert :: "bytes option \<Rightarrow> u64 \<Rightarrow> ('g, 'w, 'd) Cheatcodes \<Rightarrow>
    (bytes, 'e cheat_error) result \<times> ('g, 'w, 'd) Cheatcodes" where
  "expect_revert reason d st =
     (if cc_expected_revert st = None
      then (Ok [], st\<lparr>cc_expected_revert := Some \<lparr>er_reason = reason, er_depth = d\<rparr>\<rparr>)
      else (Err SecondRevertExpected, st))"

definition success_return :: "bool \<Rightarrow> Address option \<times> bytes" where
  "success_return is_create = (if is_create then (Some DUMMY_CREATE_ADDRESS, []) else (None, DUMMY_CALL_OUTPUT))"

text \<open>The data of a revert, without the selector of an error string; \<open>Bytes::decode\<close> is an argument.\<close>

definition actual_revert :: "(bytes \<Rightarrow> bytes option) \<Rightarrow> bytes \<Rightarrow> bytes" where
  "actual_revert decode retdata =
     (if 4 \<le> length retdata \<and> (take 4 retdata = ERROR_PREFIX \<or> take 4 retdata = REVERT_PREFIX)
      then case decode (drop 4 retdata) of Some b \<Rightarrow> b | None \<Rightarrow> retdata
      else retdata)"

definition handle_expect_revert :: "(bytes \<Rightarrow> bytes option) \<Rightarrow> bool \<Rightarrow> bytes option \<Rightarrow> InstructionResult \<Rightarrow>
    bytes \<Rightarrow> (Address option \<times> bytes, 'e cheat_error) result" where
  "handle_expect_revert decode is_create expected status retdata =
     (if return_ok status then Err CallDidNotRevert
      else case expected of
        None \<Rightarrow> Ok (success_return is_create)
      | Some reason \<Rightarrow>
          if reason \<noteq> [] \<and> retdata = [] then Err RevertedWithoutData
          else if actual_revert decode retdata = reason then Ok (success_return is_create)
          else Err (UnexpectedRevert (actual_revert decode retdata) reason))"

section \<open>Expected emits\<close>

text \<open>The comparison of the topics after the first; \<open>None\<close> is an index out of bounds.\<close>

fun check_topics :: "nat \<Rightarrow> bool list \<Rightarrow> H256 list \<Rightarrow> H256 list \<Rightarrow> bool option" where
  "check_topics i checks expected [] = Some True"
| "check_topics i checks expected (t # ts) =
     (if i < length checks then
        if checks ! i then
          if Suc i < length expected then
            if t = expected ! Suc i then check_topics (Suc i) checks expected ts else Some False
          else None
        else check_topics (Suc i) checks expected ts
      else None)"

definition topic0_matches :: "RawLog \<Rightarrow> RawLog \<Rightarrow> bool" where
  "topic0_matches expected log =
     (case (log_topics expected, log_topics log) of
        (a # _, b # _) \<Rightarrow> a = b \<and> length (log_topics expected) = length (log_topics log)
      | _ \<Rightarrow> False)"

text \<open>Whether the log is the expected one, by the checks, the address and the data.\<close>

definition check_emit :: "ExpectedEmit \<Rightarrow> RawLog \<Rightarrow> RawLog \<Rightarrow> Address \<Rightarrow> bool option" where
  "check_emit e expected log address =
     (if topic0_matches expected log then do {
        found \<leftarrow> check_topics 0 (ee_checks e) (log_topics expected) (tl (log_topics log));
        let found = (case ee_address e of Some addr \<Rightarrow> found \<and> addr = address | None \<Rightarrow> found);
        check_data \<leftarrow> (if 3 < length (ee_checks e) then Some (ee_checks e ! 3) else None);
        Some (if check_data then found \<and> log_data expected = log_data log else found)
      } else Some (ee_found e))"

definition handle_expect_emit :: "RawLog \<Rightarrow> Address \<Rightarrow> ExpectedEmit list \<Rightarrow> ExpectedEmit list option" where
  "handle_expect_emit log address emits =
     (if list_all ee_found emits then Some emits
      else do {
        (e, rest) \<leftarrow>
          (if list_ex (\<lambda>e. ee_log e = None) emits
           then if emits = [] then None else Some (last emits, butlast emits)
           else case emits of [] \<Rightarrow> None | e # rest \<Rightarrow> Some (e, rest));
        case ee_log e of
          Some expected \<Rightarrow> do {
            found \<leftarrow> check_emit e expected log address;
            let e' = e\<lparr>ee_found := found\<rparr>;
            Some (if found then rest @ [e'] else e' # rest)
          }
        | None \<Rightarrow> Some (rest @ [e\<lparr>ee_log := Some log\<rparr>])
      })"

definition expect_emit :: "u64 \<Rightarrow> bool list \<Rightarrow> Address option \<Rightarrow> ('g, 'w, 'd) Cheatcodes \<Rightarrow> ('g, 'w, 'd) Cheatcodes" where
  "expect_emit d checks address st =
     st\<lparr>cc_expected_emits := cc_expected_emits st @
        [\<lparr>ee_depth = d, ee_log = None, ee_checks = checks, ee_address = address, ee_found = False\<rparr>]\<rparr>"

section \<open>Expected calls and memory\<close>

definition expecteds :: "Address \<Rightarrow> ExpectedCallTracker \<Rightarrow> (bytes, ExpectedCallData \<times> u64) fmap" where
  "expecteds target calls = (case fmlookup calls target of Some m \<Rightarrow> m | None \<Rightarrow> fmempty)"

text \<open>\<open>expect_call\<close>; the outer \<open>None\<close> is the overflow of a count.\<close>

definition expect_call :: "Address \<Rightarrow> bytes \<Rightarrow> ExpectedCallData \<Rightarrow> ExpectedCallTracker \<Rightarrow>
    ((bytes, 'e cheat_error) result \<times> ExpectedCallTracker) option" where
  "expect_call target calldata ex calls =
     (let m = expecteds target calls; calls' = fmupd target m calls in
      case ec_call_type ex of
        Count \<Rightarrow>
          if fmlookup m calldata \<noteq> None then Some (Err CountedCallTwice, calls')
          else Some (Ok [], fmupd target (fmupd calldata (ex, 0) m) calls)
      | NonCount \<Rightarrow>
          (case fmlookup m calldata of
             Some (expected, actual) \<Rightarrow>
               if ec_call_type expected \<noteq> NonCount then Some (Err CountedCallOverwritten, calls')
               else do {
                 count \<leftarrow> add_chk (ec_count expected) 1;
                 Some (Ok [], fmupd target (fmupd calldata (expected\<lparr>ec_count := count\<rparr>, actual) m) calls)
               }
           | None \<Rightarrow> Some (Ok [], fmupd target (fmupd calldata (ex, 0) m) calls)))"

definition expect_safe_memory :: "u64 \<Rightarrow> u64 \<Rightarrow> u64 \<Rightarrow> ('g, 'w, 'd) Cheatcodes \<Rightarrow>
    (bytes, 'e cheat_error) result \<times> ('g, 'w, 'd) Cheatcodes" where
  "expect_safe_memory start stop d st =
     (if \<not> start < stop then (Err (InvalidMemoryRange start stop), st)
      else (Ok [], st\<lparr>cc_allowed_mem_writes :=
        fmupd d ((case fmlookup (cc_allowed_mem_writes st) d of Some rs \<Rightarrow> rs | None \<Rightarrow> [(0, 0x60)]) @ [(start, stop)])
          (cc_allowed_mem_writes st)\<rparr>))"

section \<open>The handlers\<close>

datatype (plugins only: code) ExpectCall = ExpectRevert0 | ExpectRevert1 bytes | ExpectRevert2 bytes
  | ExpectEmit0 | ExpectEmit1 Address | ExpectEmit2 bool bool bool bool
  | ExpectEmit3 bool bool bool bool Address
  | ExpectCall0 Address bytes | ExpectCall1 Address bytes u64 | ExpectCall2 Address U256 bytes
  | ExpectCall3 Address U256 bytes u64 | ExpectCall4 Address U256 u64 bytes
  | ExpectCall5 Address U256 u64 bytes u64 | ExpectCallMinGas0 Address U256 u64 bytes
  | ExpectCallMinGas1 Address U256 u64 bytes u64 | MockCall0 Address bytes bytes
  | MockCall1 Address U256 bytes bytes | MockCallRevert0 Address bytes bytes
  | MockCallRevert1 Address U256 bytes bytes | ClearMockedCalls | ExpectSafeMemory u64 u64
  | ExpectSafeMemoryCall u64 u64

definition with_calls :: "('g, 'w, 'd) Cheatcodes \<Rightarrow> 'x EVMData \<Rightarrow>
    ((bytes, 'e cheat_error) result \<times> ExpectedCallTracker) option \<Rightarrow> ('g, 'w, 'd, 'x, 'e) outcome option" where
  "with_calls st data r = map_option (\<lambda>(r, calls). (r, st\<lparr>cc_expected_calls := calls\<rparr>, data)) r"

definition expect_call_from :: "Address \<Rightarrow> bytes \<Rightarrow> U256 option \<Rightarrow> u64 option \<Rightarrow> u64 option \<Rightarrow> u64 \<Rightarrow>
    ExpectedCallType \<Rightarrow> ('g, 'w, 'd) Cheatcodes \<Rightarrow> 'x EVMData \<Rightarrow> ('g, 'w, 'd, 'x, 'e) outcome option" where
  "expect_call_from target calldata value gas min_gas n ty st data =
     with_calls st data (expect_call target calldata
       \<lparr>ec_value = value, ec_gas = gas, ec_min_gas = min_gas, ec_count = n, ec_call_type = ty\<rparr>
       (cc_expected_calls st))"

text \<open>The gas a call with a value is given on top, and the sum that may overflow.\<close>

definition positive_value_cost_stipend :: "U256 \<Rightarrow> u64" where
  "positive_value_cost_stipend value = (if 0 < value then 2300 else 0)"

definition with_stipend :: "u64 \<Rightarrow> U256 \<Rightarrow> u64 option" where
  "with_stipend gas value = add_chk gas (positive_value_cost_stipend value)"

definition insert_mock :: "Address \<Rightarrow> bytes \<Rightarrow> U256 option \<Rightarrow> InstructionResult \<Rightarrow> bytes \<Rightarrow>
    ('g, 'w, 'd) Cheatcodes \<Rightarrow> ('g, 'w, 'd) Cheatcodes" where
  "insert_mock callee calldata value ret_type retdata st =
     st\<lparr>cc_mocked_calls := fmupd callee
        (fmupd (MockCallDataContext calldata value) \<lparr>mr_ret_type = ret_type, mr_data = retdata\<rparr>
          (case fmlookup (cc_mocked_calls st) callee of Some m \<Rightarrow> m | None \<Rightarrow> fmempty))
        (cc_mocked_calls st)\<rparr>"

text \<open>\<open>mockCall\<close> without a value also gives an account without code one byte of it.\<close>

definition mock_call0 :: "('x, 'e) journal_lib \<Rightarrow> Address \<Rightarrow> bytes \<Rightarrow> bytes \<Rightarrow> ('g, 'w, 'd) Cheatcodes \<Rightarrow>
    'x EVMData \<Rightarrow> ('g, 'w, 'd, 'x, 'e) outcome option" where
  "mock_call0 jl callee calldata retdata st data =
     (case jl_load_account jl callee (ed_journal data) of
        (Err e, j) \<Rightarrow> Some (Err (DbError e), st, data\<lparr>ed_journal := j\<rparr>)
      | (Ok _, j) \<Rightarrow> do {
          account \<leftarrow> fmlookup (js_state j) callee;
          let empty_bytecode = (case ac_code account of None \<Rightarrow> True | Some code \<Rightarrow> code = []);
          let j' = (if empty_bytecode then jl_set_code jl callee [0] j else j);
          Some (Ok [], insert_mock callee calldata None Return retdata st, data\<lparr>ed_journal := j'\<rparr>)
        })"

definition mock_call1 :: "('x, 'e) journal_lib \<Rightarrow> Address \<Rightarrow> U256 \<Rightarrow> bytes \<Rightarrow> bytes \<Rightarrow> ('g, 'w, 'd) Cheatcodes \<Rightarrow>
    'x EVMData \<Rightarrow> ('g, 'w, 'd, 'x, 'e) outcome option" where
  "mock_call1 jl callee value calldata retdata st data =
     (case jl_load_account jl callee (ed_journal data) of
        (Err e, j) \<Rightarrow> Some (Err (DbError e), st, data\<lparr>ed_journal := j\<rparr>)
      | (Ok _, j) \<Rightarrow> Some (Ok [], insert_mock callee calldata (Some value) Return retdata st, data\<lparr>ed_journal := j\<rparr>))"

text \<open>\<open>expect::apply\<close>.\<close>

definition expect_apply :: "('x, 'e) journal_lib \<Rightarrow> ExpectCall \<Rightarrow> ('g, 'w, 'd) Cheatcodes \<Rightarrow> 'x EVMData \<Rightarrow>
    ('g, 'w, 'd, 'x, 'e) outcome option" where
  "expect_apply jl call st data =
     (case call of
        ExpectRevert0 \<Rightarrow> on_state data (expect_revert None (depth data) st)
      | ExpectRevert1 reason \<Rightarrow> on_state data (expect_revert (Some reason) (depth data) st)
      | ExpectRevert2 selector \<Rightarrow> on_state data (expect_revert (Some selector) (depth data) st)
      | ExpectEmit0 \<Rightarrow> Some (Ok [], expect_emit (depth data) [True, True, True, True] None st, data)
      | ExpectEmit1 a \<Rightarrow> Some (Ok [], expect_emit (depth data) [True, True, True, True] (Some a) st, data)
      | ExpectEmit2 c1 c2 c3 c4 \<Rightarrow> Some (Ok [], expect_emit (depth data) [c1, c2, c3, c4] None st, data)
      | ExpectEmit3 c1 c2 c3 c4 a \<Rightarrow> Some (Ok [], expect_emit (depth data) [c1, c2, c3, c4] (Some a) st, data)
      | ExpectCall0 t c \<Rightarrow> expect_call_from t c None None None 1 NonCount st data
      | ExpectCall1 t c n \<Rightarrow> expect_call_from t c None None None n Count st data
      | ExpectCall2 t v c \<Rightarrow> expect_call_from t c (Some v) None None 1 NonCount st data
      | ExpectCall3 t v c n \<Rightarrow> expect_call_from t c (Some v) None None n Count st data
      | ExpectCall4 t v g c \<Rightarrow> Option.bind (with_stipend g v)
          (\<lambda>gas. expect_call_from t c (Some v) (Some gas) None 1 NonCount st data)
      | ExpectCall5 t v g c n \<Rightarrow> Option.bind (with_stipend g v)
          (\<lambda>gas. expect_call_from t c (Some v) (Some gas) None n Count st data)
      | ExpectCallMinGas0 t v g c \<Rightarrow> Option.bind (with_stipend g v)
          (\<lambda>gas. expect_call_from t c (Some v) None (Some gas) 1 NonCount st data)
      | ExpectCallMinGas1 t v g c n \<Rightarrow> Option.bind (with_stipend g v)
          (\<lambda>gas. expect_call_from t c (Some v) None (Some gas) n Count st data)
      | MockCall0 a c r \<Rightarrow> mock_call0 jl a c r st data
      | MockCall1 a v c r \<Rightarrow> mock_call1 jl a v c r st data
      | MockCallRevert0 a c r \<Rightarrow> Some (Ok [], insert_mock a c None Revert r st, data)
      | MockCallRevert1 a v c r \<Rightarrow> Some (Ok [], insert_mock a c (Some v) Revert r st, data)
      | ClearMockedCalls \<Rightarrow> Some (Ok [], st\<lparr>cc_mocked_calls := fmempty\<rparr>, data)
      | ExpectSafeMemory a b \<Rightarrow> on_state data (expect_safe_memory a b (depth data) st)
      | ExpectSafeMemoryCall a b \<Rightarrow> Option.bind (add_chk (depth data) 1)
          (\<lambda>d. on_state data (expect_safe_memory a b d st)))"

section \<open>Lemmas on emits\<close>

text \<open>\<open>embeds P xs ys\<close>: the elements of \<open>xs\<close> match, in order, a subsequence of \<open>ys\<close>.\<close>

definition embeds :: "('a \<Rightarrow> 'b \<Rightarrow> bool) \<Rightarrow> 'a list \<Rightarrow> 'b list \<Rightarrow> bool" where
  "embeds P xs ys \<longleftrightarrow> (\<exists>zs. subseq zs ys \<and> list_all2 P xs zs)"

lemma embeds_Nil [simp]: "embeds P [] ys" "embeds P (x # xs) [] = False"
  by (auto simp: embeds_def list_all2_Cons1)

lemma embeds_skip: "\<not> P x y \<Longrightarrow> embeds P (x # xs) (y # ys) \<longleftrightarrow> embeds P (x # xs) ys"
  unfolding embeds_def list_all2_Cons1 by (metis subseq_Cons2_iff subseq_Cons2' list_emb_Cons)

lemma embeds_match: "P x y \<Longrightarrow> embeds P (x # xs) (y # ys) \<longleftrightarrow> embeds P xs ys"
proof
  assume P: "P x y"
  {
    assume "embeds P (x # xs) (y # ys)"
    then obtain z zs where "subseq (z # zs) (y # ys)" "list_all2 P xs zs"
      by (auto simp: embeds_def list_all2_Cons1)
    moreover from this have "subseq zs ys" by (metis subseq_Cons' subseq_Cons2_iff)
    ultimately show "embeds P xs ys" by (auto simp: embeds_def)
  }
  assume "embeds P xs ys"
  then obtain zs where "subseq zs ys" "list_all2 P xs zs" by (auto simp: embeds_def)
  with P have "subseq (y # zs) (y # ys)" "list_all2 P (x # xs) (y # zs)" by auto
  then show "embeds P (x # xs) (y # ys)" unfolding embeds_def by blast
qed

text \<open>
  What it means that a log is the expected one: the same number of topics, at least one, the same first
  topic, the same topics where they are checked, the address and the data where they are checked.
\<close>

definition emit_match :: "ExpectedEmit \<Rightarrow> RawLog \<times> Address \<Rightarrow> bool" where
  "emit_match e la \<longleftrightarrow> (let expected = the (ee_log e); log = fst la in
     log_topics log \<noteq> [] \<and> length (log_topics log) = length (log_topics expected) \<and>
     hd (log_topics log) = hd (log_topics expected) \<and>
     (\<forall>i. Suc i < length (log_topics log) \<and> ee_checks e ! i \<longrightarrow>
        log_topics log ! Suc i = log_topics expected ! Suc i) \<and>
     (\<forall>a. ee_address e = Some a \<longrightarrow> a = snd la) \<and>
     (ee_checks e ! 3 \<longrightarrow> log_data expected = log_data log))"

text \<open>An expectation as the handlers make it, filled and not yet found.\<close>

definition filled :: "ExpectedEmit \<Rightarrow> bool" where
  "filled e \<longleftrightarrow> ee_log e \<noteq> None \<and> length (ee_checks e) = 4"

lemma check_topics_spec:
  "i + length ts \<le> length checks \<Longrightarrow> i + length ts < length expected \<Longrightarrow>
   check_topics i checks expected ts =
     Some (\<forall>k < length ts. checks ! (i + k) \<longrightarrow> ts ! k = expected ! Suc (i + k))"
proof (induction i checks expected ts rule: check_topics.induct)
  case (2 i checks expected t ts)
  have "(\<forall>k < length (t # ts). checks ! (i + k) \<longrightarrow> (t # ts) ! k = expected ! Suc (i + k)) \<longleftrightarrow>
      (checks ! i \<longrightarrow> t = expected ! Suc i) \<and>
      (\<forall>k < length ts. checks ! (Suc i + k) \<longrightarrow> ts ! k = expected ! Suc (Suc i + k))"
    by (auto simp: All_less_Suc2)
  with 2 show ?case by auto
qed simp

lemma check_emit_spec:
  assumes "filled e" "ee_log e = Some expected" "\<not> ee_found e" "length (log_topics log) \<le> 4"
  shows "check_emit e expected log address = Some (emit_match e (log, address))"
proof (cases "topic0_matches expected log")
  case True
  then obtain a xs ys where t: "log_topics expected = a # xs" "log_topics log = a # ys" "length xs = length ys"
    by (auto simp: topic0_matches_def split: list.splits)
  have "check_topics 0 (ee_checks e) (log_topics expected) (tl (log_topics log)) =
      Some (\<forall>k < length ys. ee_checks e ! k \<longrightarrow> ys ! k = xs ! k)"
    using check_topics_spec [of 0 ys "ee_checks e" "log_topics expected"] assms t by (simp add: filled_def)
  with True t assms show ?thesis
    by (cases "ee_checks e ! 3")
      (auto simp: check_emit_def emit_match_def filled_def Let_def split: option.split)
next
  case False
  then have "\<not> emit_match e (log, address)"
    using assms(2) by (auto simp: topic0_matches_def emit_match_def split: list.splits)
  with False assms show ?thesis by (simp add: check_emit_def)
qed

text \<open>The queue: the expectations that wait, in their order, then those that were found.\<close>

lemma handle_expect_emit_step:
  assumes "list_all (\<lambda>e. filled e \<and> \<not> ee_found e) pending" "list_all (\<lambda>e. filled e \<and> ee_found e) done"
    "length (log_topics log) \<le> 4"
  shows "handle_expect_emit log address (pending @ done) =
    Some (case pending of [] \<Rightarrow> done
      | e # rest \<Rightarrow> if emit_match e (log, address) then rest @ done @ [e\<lparr>ee_found := True\<rparr>] else pending @ done)"
proof (cases pending)
  case Nil
  with assms(2) show ?thesis by (auto simp: handle_expect_emit_def list_all_iff)
next
  case (Cons e rest)
  with assms obtain expected where e: "ee_log e = Some expected" "filled e" "\<not> ee_found e"
    by (auto simp: filled_def)
  have "list_ex (\<lambda>e. ee_log e = None) (pending @ done) = False"
    using assms(1,2) by (auto simp: list_all_iff list_ex_iff filled_def)
  moreover have "e\<lparr>ee_found := False\<rparr> = e" using e(3) by simp
  ultimately show ?thesis
    using Cons e check_emit_spec [OF e(2,1,3) assms(3), of address]
    by (simp add: handle_expect_emit_def)
qed

definition observe :: "(RawLog \<times> Address) list \<Rightarrow> ExpectedEmit list \<Rightarrow> ExpectedEmit list option" where
  "observe logs emits = fold (\<lambda>(log, a) r. Option.bind r (handle_expect_emit log a)) logs (Some emits)"

lemma observe_queue:
  assumes "list_all (\<lambda>e. filled e \<and> \<not> ee_found e) pending" "list_all (\<lambda>e. filled e \<and> ee_found e) done"
    "list_all (\<lambda>(log, a). length (log_topics log) \<le> 4) logs"
  shows "\<exists>pending' done'. observe logs (pending @ done) = Some (pending' @ done') \<and>
    list_all (\<lambda>e. filled e \<and> \<not> ee_found e) pending' \<and> list_all (\<lambda>e. filled e \<and> ee_found e) done' \<and>
    length (pending' @ done') = length (pending @ done) \<and>
    (pending' = [] \<longleftrightarrow> embeds emit_match pending logs)"
  using assms
proof (induction logs arbitrary: pending "done")
  case Nil
  then show ?case by (intro exI [of _ pending] exI [of _ "done"]) (cases pending; simp add: observe_def)
next
  case (Cons la logs)
  obtain log a where la: "la = (log, a)" by (cases la)
  have topics: "length (log_topics log) \<le> 4" using Cons.prems(3) la by simp
  note step = handle_expect_emit_step [OF Cons.prems(1,2) topics, of a]
  show ?case
  proof (cases "\<exists>e rest. pending = e # rest \<and> emit_match e la")
    case True
    then obtain e rest where e: "pending = e # rest" "emit_match e la" by blast
    have f: "filled (e\<lparr>ee_found := True\<rparr>)" using Cons.prems(1) e by (simp add: filled_def)
    obtain pending' done' where IH: "observe logs (rest @ done @ [e\<lparr>ee_found := True\<rparr>]) = Some (pending' @ done')"
      "list_all (\<lambda>e. filled e \<and> \<not> ee_found e) pending'" "list_all (\<lambda>e. filled e \<and> ee_found e) done'"
      "length (pending' @ done') = length (pending @ done)" "pending' = [] \<longleftrightarrow> embeds emit_match rest logs"
      using Cons.IH [of rest "done @ [e\<lparr>ee_found := True\<rparr>]"] Cons.prems e f by auto
    have "observe (la # logs) (pending @ done) = observe logs (rest @ done @ [e\<lparr>ee_found := True\<rparr>])"
      using step e la by (simp add: observe_def)
    moreover have "embeds emit_match pending (la # logs) \<longleftrightarrow> embeds emit_match rest logs"
      using e by (simp add: embeds_match)
    ultimately show ?thesis using IH by auto
  next
    case False
    then have "handle_expect_emit log a (pending @ done) = Some (pending @ done)"
      using step la by (cases pending) auto
    then have "observe (la # logs) (pending @ done) = observe logs (pending @ done)"
      by (simp add: observe_def la)
    moreover have "embeds emit_match pending (la # logs) \<longleftrightarrow> embeds emit_match pending logs"
      using False by (cases pending) (auto simp: embeds_skip)
    ultimately show ?thesis using Cons.IH [OF Cons.prems(1,2)] Cons.prems(3) by auto
  qed
qed

section \<open>Properties\<close>

text \<open>
  C28: expected emits are a subsequence.  However many logs follow, with at most four topics each, the
  handler does not panic, and all expectations are found exactly when they match, in the order in which
  they were declared, a subsequence of the logs.
\<close>

theorem expected_emits_subsequence:
  assumes "list_all (\<lambda>e. ee_log e \<noteq> None \<and> length (ee_checks e) = 4 \<and> \<not> ee_found e) emits"
    "list_all (\<lambda>(log, a). length (log_topics log) \<le> 4) logs"
  shows "\<exists>emits'. observe logs emits = Some emits' \<and> length emits' = length emits \<and>
    (list_all ee_found emits' \<longleftrightarrow> embeds emit_match emits logs)"
proof -
  have f: "list_all (\<lambda>e. filled e \<and> \<not> ee_found e) emits"
    using assms(1) by (auto simp: filled_def list_all_iff)
  obtain pending' done' where q: "observe logs (emits @ []) = Some (pending' @ done')"
    "list_all (\<lambda>e. filled e \<and> \<not> ee_found e) pending'" "list_all (\<lambda>e. filled e \<and> ee_found e) done'"
    "length (pending' @ done') = length emits" "pending' = [] \<longleftrightarrow> embeds emit_match emits logs"
    using observe_queue [OF f _ assms(2), of "[]"] by auto
  have "list_all ee_found (pending' @ done') \<longleftrightarrow> pending' = []"
    using q(2,3) by (cases pending') (auto simp: list_all_iff)
  then show ?thesis using q(1,4,5) by auto
qed

definition ex_log :: "H256 \<Rightarrow> RawLog" where
  "ex_log t = \<lparr>log_topics = [t], log_data = []\<rparr>"

definition ex_emit :: "H256 \<Rightarrow> ExpectedEmit" where
  "ex_emit t = \<lparr>ee_depth = 1, ee_log = Some (ex_log t), ee_checks = [True, True, True, True],
     ee_address = None, ee_found = False\<rparr>"

theorem expected_emits_subsequence_witness:
  "\<exists>emits'. observe [(ex_log 1, 5), (ex_log 3, 5), (ex_log 2, 5)] [ex_emit 1, ex_emit 2] = Some emits' \<and>
     list_all ee_found emits'"
proof -
  have "embeds emit_match [ex_emit 1, ex_emit 2] [(ex_log 1, 5), (ex_log 3, 5), (ex_log 2, 5)]"
    by (simp add: embeds_match embeds_skip emit_match_def ex_emit_def ex_log_def)
  with expected_emits_subsequence [of "[ex_emit 1, ex_emit 2]" "[(ex_log 1, 5), (ex_log 3, 5), (ex_log 2, 5)]"]
  show ?thesis by (auto simp: ex_emit_def ex_log_def)
qed

end
