(* ===== verification/Inspector.thy ===== *)
theory Inspector
  imports CheatExpect
begin

text \<open>
  The cheatcode inspector itself (\<open>cheatcodes/mod.rs\<close>): what it does at every instruction, log, call
  and create, and at the end of calls and creates.
\<close>

section \<open>Inputs and libraries\<close>

record CallInputs =
  ci_contract :: Address
  ci_input :: bytes
  ci_value :: U256
  ci_source :: Address
  ci_caller :: Address
  ci_gas_limit :: u64
  ci_is_static :: bool

datatype CreateScheme = Create | Create2 U256

record CreateInputs =
  cr_caller :: Address
  cr_scheme :: CreateScheme
  cr_value :: U256
  cr_init_code :: bytes
  cr_gas_limit :: u64

datatype message = LogMismatch | StaticcallAfterBroadcast | NoLogsEmitted bool
  | CallNotSeen Address bytes ExpectedCallData u64 bool

text \<open>
  \<open>Gas::new\<close> and \<open>Gas::limit\<close>, the encoded strings of errors and messages, the decoder of
  cheatcode calls, the handlers of the modules that are not modelled, \<open>Bytes::decode\<close>, the code of a
  hash, the addresses contracts are created at, and the diagnosis of reverts by the database.
\<close>

datatype 'o HEVMCalls = EnvCall EnvCall | ExpectCall ExpectCall | SkipCall bool | OtherCall 'o

record ('g, 'w, 'd, 'x, 'e, 'o) insp_lib =
  il_gas_new :: "u64 \<Rightarrow> 'g"
  il_gas_limit :: "'g \<Rightarrow> u64"
  il_error_string :: "'e cheat_error \<Rightarrow> bytes"
  il_encode_message :: "message \<Rightarrow> bytes"
  il_encode_diagnostic :: "'d \<Rightarrow> bytes"
  il_decode_call :: "bytes \<Rightarrow> 'o HEVMCalls option"
  il_other :: "'o \<Rightarrow> ('g, 'w, 'd) Cheatcodes \<Rightarrow> 'x EVMData \<Rightarrow> ('g, 'w, 'd, 'x, 'e) outcome option"
  il_decode_bytes :: "bytes \<Rightarrow> bytes option"
  il_code_by_hash :: "H256 \<Rightarrow> 'x JournaledState \<Rightarrow> (bytes, 'e) result"
  il_contract_address :: "Address \<Rightarrow> u64 \<Rightarrow> Address"
  il_create2_address :: "Address \<Rightarrow> bytes \<Rightarrow> bytes \<Rightarrow> Address"
  il_diagnose_revert :: "Address \<Rightarrow> 'x EVMData \<Rightarrow> 'd option"

definition CHEATCODE_ADDRESS :: Address where
  "CHEATCODE_ADDRESS = 0x7109709Ecfa91a80626ff3989d68f67f5b1dd12d"

definition HARDHAT_CONSOLE_ADDRESS :: Address where
  "HARDHAT_CONSOLE_ADDRESS = 0x000000000000000000636f6e736f6c652e6c6f67"

definition DEFAULT_CREATE2_DEPLOYER :: Address where
  "DEFAULT_CREATE2_DEPLOYER = 0x4e59b44847b379578588920ca78fbf26c0b4956c"

definition MAGIC_SKIP_BYTES :: bytes where
  "MAGIC_SKIP_BYTES = [70, 79, 85, 78, 68, 82, 89, 58, 58, 83, 75, 73, 80]"

text \<open>\<open>SolError::encode_error\<close>: the magic bytes are the only error that is not prefixed.\<close>

definition encode_error :: "('g, 'w, 'd, 'x, 'e, 'o) insp_lib \<Rightarrow> 'e cheat_error \<Rightarrow> bytes" where
  "encode_error il e =
     (case e of SkipMagic \<Rightarrow> MAGIC_SKIP_BYTES | _ \<Rightarrow> ERROR_PREFIX @ il_error_string il e)"

definition get_create_address :: "('g, 'w, 'd, 'x, 'e, 'o) insp_lib \<Rightarrow> CreateInputs \<Rightarrow> u64 \<Rightarrow> Address" where
  "get_create_address il inputs nonce =
     (case cr_scheme inputs of
        Create \<Rightarrow> il_contract_address il (cr_caller inputs) nonce
      | Create2 salt \<Rightarrow> il_create2_address il (cr_caller inputs) (rev (le_bytes 32 salt)) (cr_init_code inputs))"

section \<open>Cheatcode calls\<close>

text \<open>\<open>ensure_cheatcode_access_forking_mode\<close>, \<open>apply_cheatcode\<close>.\<close>

definition ensure_cheatcode_access :: "'x EVMData \<Rightarrow> Address \<Rightarrow> (unit, 'e cheat_error) result" where
  "ensure_cheatcode_access data account =
     (if account \<notin> ed_access data then Err (NoCheatcodeAccess account) else Ok ())"

definition ensure_cheatcode_access_forking_mode :: "'x EVMData \<Rightarrow> Address \<Rightarrow> (unit, 'e cheat_error) result" where
  "ensure_cheatcode_access_forking_mode data account =
     (if ed_forked data then ensure_cheatcode_access data account else Ok ())"

definition apply_cheatcode :: "('k, 'w, 'x, 'e) cheat_lib \<Rightarrow> ('g, 'w, 'd, 'x, 'e, 'o) insp_lib \<Rightarrow> Address \<Rightarrow>
    bytes \<Rightarrow> ('g, 'w, 'd) Cheatcodes \<Rightarrow> 'x EVMData \<Rightarrow> ('g, 'w, 'd, 'x, 'e) outcome option" where
  "apply_cheatcode cl il caller input st data =
     (case il_decode_call il input of
        None \<Rightarrow> Some (Err Undecodable, st, data)
      | Some decoded \<Rightarrow> (case ensure_cheatcode_access_forking_mode data caller of
          Err e \<Rightarrow> Some (Err e, st, data)
        | Ok _ \<Rightarrow> (case decoded of
            EnvCall c \<Rightarrow> env_apply cl caller c st data
          | ExpectCall c \<Rightarrow> expect_apply (cl_journal cl) c st data
          | SkipCall b \<Rightarrow> on_state data (skip (depth data) b st)
          | OtherCall c \<Rightarrow> il_other il c st data)))"

definition allow_cheatcodes_on_create :: "('g, 'w, 'd, 'x, 'e, 'o) insp_lib \<Rightarrow> CreateInputs \<Rightarrow> 'x EVMData \<Rightarrow> 'x EVMData" where
  "allow_cheatcodes_on_create il inputs data =
     (let old_nonce = (case fmlookup (js_state (ed_journal data)) (cr_caller inputs) of
                         Some acc \<Rightarrow> ac_nonce acc | None \<Rightarrow> 0);
          created_address = get_create_address il inputs old_nonce
      in if 1 < depth data \<and> cr_caller inputs \<notin> ed_access data then data
         else data\<lparr>ed_access := insert created_address (ed_access data)\<rparr>)"

text \<open>\<open>on_revert\<close>: the loop pops the deals from the last to the first.\<close>

definition undo_deal :: "DealRecord \<Rightarrow> (Address, AccountInfo) fmap \<Rightarrow> (Address, AccountInfo) fmap" where
  "undo_deal r accounts =
     (case fmlookup accounts (dr_address r) of
        Some acc \<Rightarrow> fmupd (dr_address r) (acc\<lparr>ac_balance := dr_old_balance r\<rparr>) accounts
      | None \<Rightarrow> accounts)"

definition on_revert :: "('g, 'w, 'd) Cheatcodes \<Rightarrow> 'x EVMData \<Rightarrow> ('g, 'w, 'd) Cheatcodes \<times> 'x EVMData" where
  "on_revert st data =
     (if cc_expected_revert st \<noteq> None then (st, data)
      else if 0 < depth data then (st, data)
      else (st\<lparr>cc_eth_deals := []\<rparr>,
            data\<lparr>ed_journal := (ed_journal data)\<lparr>js_state :=
              fold undo_deal (rev (cc_eth_deals st)) (js_state (ed_journal data))\<rparr>\<rparr>))"

definition initialize_interp :: "('g, 'w, 'd) Cheatcodes \<Rightarrow> 'x EVMData \<Rightarrow> ('g, 'w, 'd) Cheatcodes \<times> 'x EVMData" where
  "initialize_interp st data =
     (let data = (case cc_block st of Some b \<Rightarrow> set_block (\<lambda>_. b) data | None \<Rightarrow> data);
          data = (case cc_gas_price st of
                    Some p \<Rightarrow> data\<lparr>ed_env := (ed_env data)\<lparr>tx_gas_price := p\<rparr>\<rparr> | None \<Rightarrow> data)
      in (st\<lparr>cc_block := None, cc_gas_price := None\<rparr>, data))"

section \<open>Instructions\<close>

text \<open>\<open>step\<close>, first part: gas metering.\<close>

abbreviation CREATE :: u8 where "CREATE \<equiv> 0xf0"
abbreviation CREATE2 :: u8 where "CREATE2 \<equiv> 0xf5"
abbreviation STOP :: u8 where "STOP \<equiv> 0x00"
abbreviation RETURN :: u8 where "RETURN \<equiv> 0xf3"
abbreviation SELFDESTRUCT :: u8 where "SELFDESTRUCT \<equiv> 0xff"
abbreviation REVERT :: u8 where "REVERT \<equiv> 0xfd"
abbreviation SLOAD :: u8 where "SLOAD \<equiv> 0x54"
abbreviation MSTORE :: u8 where "MSTORE \<equiv> 0x52"
abbreviation MSTORE8 :: u8 where "MSTORE8 \<equiv> 0x53"
abbreviation MLOAD :: u8 where "MLOAD \<equiv> 0x51"

definition meter_gas :: "('g, 'w, 'd, 'x, 'e, 'o) insp_lib \<Rightarrow> ('g, 'w, 'd) Cheatcodes \<Rightarrow> 'g Interpreter \<Rightarrow>
    (('g, 'w, 'd) Cheatcodes \<times> 'g Interpreter) option" where
  "meter_gas il st i =
     (case cc_gas_metering st of
        None \<Rightarrow> Some (st, i)
      | Some None \<Rightarrow> Some (st\<lparr>cc_gas_metering := Some (Some (in_gas i))\<rparr>, i)
      | Some (Some gas) \<Rightarrow> do {
          opcode \<leftarrow> op_at i;
          Some (if opcode \<in> {CREATE, CREATE2} then (st\<lparr>cc_gas_metering_create := Some None\<rparr>, i)
            else if opcode \<in> {STOP, RETURN, SELFDESTRUCT, REVERT} then
              (case cc_gas_metering_create st of
                 Some (Some g) \<Rightarrow>
                   (st\<lparr>cc_gas_metering_create := None\<rparr>, i\<lparr>in_gas := il_gas_new il (il_gas_limit il g)\<rparr>)
               | _ \<Rightarrow> (st, i\<lparr>in_gas := il_gas_new il 0\<rparr>))
            else
              (if cc_gas_metering_create st = Some None
               then st\<lparr>cc_gas_metering_create := Some (Some (in_gas i))\<rparr> else st,
               i\<lparr>in_gas := gas\<rparr>))
        })"

text \<open>Second part: the recording of storage accesses; \<open>Inl\<close> is the early return of \<open>try_or_continue!\<close>.\<close>

definition push_access :: "Address \<Rightarrow> U256 \<Rightarrow> (Address, U256 list) fmap \<Rightarrow> (Address, U256 list) fmap" where
  "push_access a key m = fmupd a ((case fmlookup m a of Some ks \<Rightarrow> ks | None \<Rightarrow> []) @ [key]) m"

definition record_access :: "'g Interpreter \<Rightarrow> ('g, 'w, 'd) Cheatcodes \<Rightarrow>
    (unit + ('g, 'w, 'd) Cheatcodes) option" where
  "record_access i st =
     (case cc_accesses st of
        None \<Rightarrow> Some (Inr st)
      | Some acc \<Rightarrow> do {
          opcode \<leftarrow> op_at i;
          Some (if opcode = SLOAD then
              (case peek 0 i of
                 Some key \<Rightarrow> Inr (st\<lparr>cc_accesses := Some (acc\<lparr>ra_reads := push_access (in_address i) key (ra_reads acc)\<rparr>)\<rparr>)
               | None \<Rightarrow> Inl ())
            else if opcode = SSTORE then
              (case peek 0 i of
                 Some key \<Rightarrow> Inr (st\<lparr>cc_accesses := Some (acc\<lparr>
                    ra_reads := push_access (in_address i) key (ra_reads acc),
                    ra_writes := push_access (in_address i) key (ra_writes acc)\<rparr>)\<rparr>)
               | None \<Rightarrow> Inl ())
            else Inr st)
        })"

text \<open>
  Third part: the memory an instruction writes.  The table lists, for the instructions with an offset
  and a size on the stack, where these are and whether memory is written.
\<close>

definition mem_opcodes :: "(u8 \<times> nat \<times> nat \<times> bool) list" where
  "mem_opcodes =
     [(0x37, 0, 2, True), (0x39, 0, 2, True), (0x3e, 0, 2, True), (0x3c, 1, 3, True),
      (0xf1, 5, 6, True), (0xf2, 5, 6, True), (0xfa, 4, 5, True), (0xf4, 4, 5, True),
      (0x20, 0, 1, False), (0xa0, 0, 1, False), (0xa1, 0, 1, False), (0xa2, 0, 1, False),
      (0xa3, 0, 1, False), (0xa4, 0, 1, False), (0xf0, 1, 2, False), (0xf5, 1, 2, False),
      (0xf3, 0, 1, False), (0xfd, 0, 1, False)]"

definition in_range :: "u64 \<times> u64 \<Rightarrow> u64 \<Rightarrow> bool" where
  "in_range r x \<longleftrightarrow> fst r \<le> x \<and> x < snd r"

datatype mem_verdict = Allowed | Disallowed u64 u64 | NoOperand

text \<open>\<open>any\<close> over the ranges; the second offset, which may overflow, is only computed where the first is inside.\<close>

fun any_range :: "u64 \<Rightarrow> u64 \<Rightarrow> (u64 \<times> u64) list \<Rightarrow> bool option" where
  "any_range offset extra [] = Some False"
| "any_range offset extra (r # rs) =
     (if in_range r offset then do {
        last \<leftarrow> add_chk offset extra;
        if in_range r last then Some True else any_range offset extra rs
      } else any_range offset extra rs)"

definition operand :: "nat \<Rightarrow> 'g Interpreter \<Rightarrow> u64 option option" where
  "operand n i = (case peek n i of None \<Rightarrow> Some None | Some x \<Rightarrow> map_option Some (as_u64 x))"

definition check_sized :: "(u64 \<times> u64) list \<Rightarrow> nat \<Rightarrow> nat \<Rightarrow> bool \<Rightarrow> 'g Interpreter \<Rightarrow> mem_verdict option" where
  "check_sized ranges offset_depth size_depth writes i = do {
     dest \<leftarrow> operand offset_depth i;
     case dest of
       None \<Rightarrow> Some NoOperand
     | Some dest_offset \<Rightarrow> do {
         sz \<leftarrow> operand size_depth i;
         case sz of
           None \<Rightarrow> Some NoOperand
         | Some size' \<Rightarrow> do {
             inside \<leftarrow> any_range dest_offset (saturating_sub size' 1) ranges;
             fail_cond \<leftarrow>
               (if inside then Some False
                else if writes then Some True
                else do {
                  stop \<leftarrow> add_chk dest_offset size';
                  let len = (of_nat (length (in_memory i)) :: u64);
                  Some (len \<le> dest_offset \<or> len \<le> saturating_sub stop 1)
                });
             Some (if fail_cond then Disallowed dest_offset size' else Allowed)
           }
       }
   }"

definition check_memory :: "(u64 \<times> u64) list \<Rightarrow> 'g Interpreter \<Rightarrow> mem_verdict option" where
  "check_memory ranges i = do {
     opcode \<leftarrow> op_at i;
     if opcode = MSTORE \<or> opcode = MSTORE8 \<or> opcode = MLOAD then do {
       top \<leftarrow> operand 0 i;
       case top of
         None \<Rightarrow> Some NoOperand
       | Some offset \<Rightarrow>
           if opcode = MLOAD \<and> \<not> of_nat (length (in_memory i)) \<le> offset then Some Allowed
           else do {
             let width = (if opcode = MSTORE8 then 1 else 32);
             ok \<leftarrow> any_range offset (width - 1) ranges;
             Some (if ok then Allowed else Disallowed offset width)
           }
     } else
       case map_of mem_opcodes opcode of
         Some (offset_depth, size_depth, writes) \<Rightarrow> check_sized ranges offset_depth size_depth writes i
       | None \<Rightarrow> Some Allowed
   }"

text \<open>\<open>step\<close>; the revert string a disallowed write leaves in memory is an argument.\<close>

definition mstore_revert_string :: "bytes \<Rightarrow> 'g Interpreter \<Rightarrow> 'g Interpreter" where
  "mstore_revert_string bs i =
     i\<lparr>in_memory := in_memory i @ bs,
       in_return_range := (length (in_memory i), length (in_memory i) + length bs)\<rparr>"

definition insp_step :: "('g, 'w, 'd, 'x, 'e, 'o) insp_lib \<Rightarrow> (bytes \<Rightarrow> bytes) \<Rightarrow>
    (u64 \<Rightarrow> u64 \<Rightarrow> (u64 \<times> u64) list \<Rightarrow> bytes) \<Rightarrow> 'g Interpreter \<Rightarrow> 'x EVMData \<Rightarrow> ('g, 'w, 'd) Cheatcodes \<Rightarrow>
    (InstructionResult \<times> ('g, 'w, 'd) Cheatcodes \<times> 'g Interpreter) option" where
  "insp_step il keccak256 revert_string i data st = do {
     (st, i) \<leftarrow> meter_gas il (st\<lparr>cc_pc := in_pc i\<rparr>) i;
     rec \<leftarrow> record_access i st;
     case rec of
       Inl _ \<Rightarrow> Some (Continue, st, i)
     | Inr st \<Rightarrow> do {
         (verdict, ranges) \<leftarrow>
           (case fmlookup (cc_allowed_mem_writes st) (depth data) of
              Some ranges \<Rightarrow> map_option (\<lambda>v. (v, ranges)) (check_memory ranges i)
            | None \<Rightarrow> Some (Allowed, []));
         case verdict of
           NoOperand \<Rightarrow> Some (Continue, st, i)
         | Disallowed offset len \<Rightarrow>
             Some (Revert, st, mstore_revert_string (revert_string offset len ranges) i)
         | Allowed \<Rightarrow> (case cc_mapping_slots st of
             Some ms \<Rightarrow> do {
               ms' \<leftarrow> on_evm_step keccak256 i ms;
               Some (Continue, st\<lparr>cc_mapping_slots := Some ms'\<rparr>, i)
             }
           | None \<Rightarrow> Some (Continue, st, i))
       }
   }"

definition insp_log :: "Address \<Rightarrow> H256 list \<Rightarrow> bytes \<Rightarrow> ('g, 'w, 'd) Cheatcodes \<Rightarrow> ('g, 'w, 'd) Cheatcodes option" where
  "insp_log address topics log_bytes st = do {
     let raw = \<lparr>log_topics = topics, log_data = log_bytes\<rparr>;
     emits \<leftarrow> (if cc_expected_emits st = [] then Some []
               else handle_expect_emit raw address (cc_expected_emits st));
     let st' = st\<lparr>cc_expected_emits := emits\<rparr>;
     Some (case cc_recorded_logs st' of
        Some entries \<Rightarrow> st'\<lparr>cc_recorded_logs := Some (entries @ [\<lparr>log_emitter = address, log_inner = raw\<rparr>])\<rparr>
      | None \<Rightarrow> st')
   }"

section \<open>Calls\<close>

definition matches_call :: "bytes \<Rightarrow> ExpectedCallData \<Rightarrow> CallInputs \<Rightarrow> bool" where
  "matches_call calldata expected call \<longleftrightarrow>
     length calldata \<le> length (ci_input call) \<and> calldata = take (length calldata) (ci_input call) \<and>
     (case ec_value expected of Some v \<Rightarrow> v = ci_value call | None \<Rightarrow> True) \<and>
     (case ec_gas expected of Some g \<Rightarrow> g = ci_gas_limit call | None \<Rightarrow> True) \<and>
     (case ec_min_gas expected of Some g \<Rightarrow> g \<le> ci_gas_limit call | None \<Rightarrow> True)"

text \<open>The loop over the expected calls of the target; \<open>None\<close> is the overflow of a counter.\<close>

definition see_call :: "CallInputs \<Rightarrow> bytes \<Rightarrow> ExpectedCallData \<times> u64 \<Rightarrow> ExpectedCallData \<times> u64" where
  "see_call call calldata x =
     (if matches_call calldata (fst x) call then (fst x, snd x + 1) else x)"

definition count_calls :: "CallInputs \<Rightarrow> ExpectedCallTracker \<Rightarrow> ExpectedCallTracker option" where
  "count_calls call calls =
     (case fmlookup calls (ci_contract call) of
        None \<Rightarrow> Some calls
      | Some m \<Rightarrow>
          if fBex (fmdom m) (\<lambda>cd. matches_call cd (fst (the (fmlookup m cd))) call \<and>
                 add_chk (snd (the (fmlookup m cd))) 1 = None)
          then None
          else Some (fmupd (ci_contract call) (fmmap_keys (see_call call) m) calls))"

text \<open>A mocked call: an exact match, otherwise the first match in the order of the map.\<close>

definition mock_applies :: "CallInputs \<Rightarrow> MockCallDataContext \<Rightarrow> bool" where
  "mock_applies call mock \<longleftrightarrow>
     length (mock_calldata mock) \<le> length (ci_input call) \<and>
     mock_calldata mock = take (length (mock_calldata mock)) (ci_input call) \<and>
     (case mock_value mock of Some v \<Rightarrow> v = ci_value call | None \<Rightarrow> True)"

definition find_mock :: "CallInputs \<Rightarrow> (MockCallDataContext, MockCallReturnData) fmap \<Rightarrow> MockCallReturnData option" where
  "find_mock call mocks =
     (case fmlookup mocks (MockCallDataContext (ci_input call) (Some (ci_value call))) of
        Some r \<Rightarrow> Some r
      | None \<Rightarrow> (case List.find (mock_applies call) (sorted_list_of_fset (fmdom mocks)) of
          Some mock \<Rightarrow> fmlookup mocks mock
        | None \<Rightarrow> None))"

definition apply_prank :: "CallInputs \<Rightarrow> ('g, 'w, 'd) Cheatcodes \<Rightarrow> 'x EVMData \<Rightarrow>
    CallInputs \<times> ('g, 'w, 'd) Cheatcodes \<times> 'x EVMData" where
  "apply_prank call st data =
     (case cc_prank st of
        None \<Rightarrow> (call, st, data)
      | Some p \<Rightarrow>
          if pr_depth p \<le> depth data \<and> ci_caller call = prank_caller p then
            let at_depth = depth data = pr_depth p;
                call' = (if at_depth then call\<lparr>ci_caller := pr_new_caller p, ci_source := pr_new_caller p\<rparr> else call);
                data' = (case pr_new_origin p of Some o' \<Rightarrow> set_tx_caller o' data | None \<Rightarrow> data);
                applied = (at_depth \<or> pr_new_origin p \<noteq> None)
            in (call',
                if applied then case first_time_applied p of Some p' \<Rightarrow> st\<lparr>cc_prank := Some p'\<rparr> | None \<Rightarrow> st else st,
                data')
          else (call, st, data))"

text \<open>The transaction that a broadcast call becomes; \<open>None\<close> is a missing account or the overflow of its nonce.\<close>

definition push_broadcast :: "('x, 'e) journal_lib \<Rightarrow> ('g, 'w, 'd, 'x, 'e, 'o) insp_lib \<Rightarrow> Broadcast \<Rightarrow> CallInputs \<Rightarrow>
    ('g, 'w, 'd) Cheatcodes \<Rightarrow> 'x EVMData \<Rightarrow>
    ((InstructionResult \<times> 'g \<times> bytes) option \<times> ('g, 'w, 'd) Cheatcodes \<times> 'x EVMData) option" where
  "push_broadcast jl il b call st data =
     (case jl_load_account jl (bc_new_origin b) (ed_journal data) of
        (Err e, j) \<Rightarrow> Some (Some (Revert, il_gas_new il (ci_gas_limit call), il_error_string il (DbError e)), st,
                       data\<lparr>ed_journal := j\<rparr>)
      | (Ok _, j) \<Rightarrow> do {
          let data1 = data\<lparr>ed_journal := j\<rparr>;
          account \<leftarrow> fmlookup (js_state j) (bc_new_origin b);
          let tx = \<lparr>bt_rpc = ed_fork_url data, bt_from = bc_new_origin b, bt_to = Some (ci_contract call),
                    bt_value = ci_value call, bt_data = ci_input call, bt_nonce = ac_nonce account,
                    bt_gas = if check_if_fixed_gas_limit data1 (ci_gas_limit call)
                             then Some (ci_gas_limit call) else None\<rparr>;
          nonce \<leftarrow> add_chk (ac_nonce account) 1;
          Some (None,
            st\<lparr>cc_broadcastable_transactions := cc_broadcastable_transactions st @ [tx]\<rparr>,
            data1\<lparr>ed_journal := j\<lparr>js_state := fmupd (bc_new_origin b) (account\<lparr>ac_nonce := nonce\<rparr>) (js_state j)\<rparr>\<rparr>)
        })"

definition apply_broadcast :: "('x, 'e) journal_lib \<Rightarrow> ('g, 'w, 'd, 'x, 'e, 'o) insp_lib \<Rightarrow> bool \<Rightarrow> CallInputs \<Rightarrow>
    ('g, 'w, 'd) Cheatcodes \<Rightarrow> 'x EVMData \<Rightarrow>
    ((InstructionResult \<times> 'g \<times> bytes) option \<times> CallInputs \<times> ('g, 'w, 'd) Cheatcodes \<times> 'x EVMData) option" where
  "apply_broadcast jl il is_static call st data =
     (case cc_broadcast st of
        None \<Rightarrow> Some (None, call, st, data)
      | Some b \<Rightarrow>
          if depth data = bc_depth b \<and> ci_caller call = bc_original_caller b then
            let data' = set_tx_caller (bc_new_origin b) data;
                call' = call\<lparr>ci_caller := bc_new_origin b, ci_source := bc_new_origin b\<rparr>
            in if \<not> is_static then
                 map_option (\<lambda>(r, st', data''). (r, call', st', data'')) (push_broadcast jl il b call' st data')
               else if bc_single_call b then
                 Some (Some (Revert, il_gas_new il 0, il_encode_message il StaticcallAfterBroadcast), call', st, data')
               else Some (None, call', st, data')
          else Some (None, call, st, data))"

type_synonym ('g, 'w, 'd, 'x) call_outcome =
  "(InstructionResult \<times> 'g \<times> bytes) \<times> CallInputs \<times> ('g, 'w, 'd) Cheatcodes \<times> 'x EVMData"

text \<open>A call to any other contract than the cheatcode contract and the console.\<close>

definition call_contract :: "('x, 'e) journal_lib \<Rightarrow> ('g, 'w, 'd, 'x, 'e, 'o) insp_lib \<Rightarrow> bool \<Rightarrow>
    CallInputs \<Rightarrow> ('g, 'w, 'd) Cheatcodes \<Rightarrow> 'x EVMData \<Rightarrow> ('g, 'w, 'd, 'x) call_outcome option" where
  "call_contract jl il is_static call st data = do {
     calls \<leftarrow> count_calls call (cc_expected_calls st);
     let st = st\<lparr>cc_expected_calls := calls\<rparr>;
     let gas = il_gas_new il (ci_gas_limit call);
     case Option.bind (fmlookup (cc_mocked_calls st) (ci_contract call)) (find_mock call) of
       Some mock \<Rightarrow> Some ((mr_ret_type mock, gas, mr_data mock), call, st, data)
     | None \<Rightarrow> do {
         let (call, st, data) = apply_prank call st data;
         (early, call, st, data) \<leftarrow> apply_broadcast jl il is_static call st data;
         Some (case early of Some r \<Rightarrow> r | None \<Rightarrow> (Continue, gas, []), call, st, data)
       }
   }"

definition insp_call :: "('k, 'w, 'x, 'e) cheat_lib \<Rightarrow> ('g, 'w, 'd, 'x, 'e, 'o) insp_lib \<Rightarrow> bool \<Rightarrow> CallInputs \<Rightarrow>
    ('g, 'w, 'd) Cheatcodes \<Rightarrow> 'x EVMData \<Rightarrow> ('g, 'w, 'd, 'x) call_outcome option" where
  "insp_call cl il is_static call st data =
     (if ci_contract call = CHEATCODE_ADDRESS then do {
        let gas = il_gas_new il (ci_gas_limit call);
        (r, st', data') \<leftarrow> apply_cheatcode cl il (ci_caller call) (ci_input call) st data;
        Some (case r of Ok retdata \<Rightarrow> (Return, gas, retdata) | Err e \<Rightarrow> (Revert, gas, encode_error il e), call, st', data')
      }
      else if ci_contract call \<noteq> HARDHAT_CONSOLE_ADDRESS then call_contract (cl_journal cl) il is_static call st data
      else Some ((Continue, il_gas_new il (ci_gas_limit call), []), call, st, data))"

section \<open>The end of calls\<close>

definition clean_up_prank :: "('g, 'w, 'd) Cheatcodes \<Rightarrow> 'x EVMData \<Rightarrow> ('g, 'w, 'd) Cheatcodes \<times> 'x EVMData" where
  "clean_up_prank st data =
     (case cc_prank st of
        None \<Rightarrow> (st, data)
      | Some p \<Rightarrow>
          (if pr_single_call p then st\<lparr>cc_prank := None\<rparr> else st,
           if depth data = pr_depth p then set_tx_caller (prank_origin p) data else data))"

definition clean_up_broadcast :: "('g, 'w, 'd) Cheatcodes \<Rightarrow> 'x EVMData \<Rightarrow> ('g, 'w, 'd) Cheatcodes \<times> 'x EVMData" where
  "clean_up_broadcast st data =
     (case cc_broadcast st of
        None \<Rightarrow> (st, data)
      | Some b \<Rightarrow>
          (if bc_single_call b then st\<lparr>cc_broadcast := None\<rparr> else st,
           if depth data = bc_depth b then set_tx_caller (bc_original_origin b) data else data))"

text \<open>Whether an expected call was seen as often as it must be.\<close>

definition call_seen :: "ExpectedCallData \<times> u64 \<Rightarrow> bool" where
  "call_seen x =
     (case ec_call_type (fst x) of Count \<Rightarrow> ec_count (fst x) = snd x | NonCount \<Rightarrow> ec_count (fst x) \<le> snd x)"

definition all_calls :: "ExpectedCallTracker \<Rightarrow> (Address \<times> bytes \<times> ExpectedCallData \<times> u64) list" where
  "all_calls calls = concat (map (\<lambda>a. let m = the (fmlookup calls a) in
     map (\<lambda>cd. (a, cd, the (fmlookup m cd))) (sorted_list_of_fset (fmdom m))) (sorted_list_of_fset (fmdom calls)))"

definition missed_call :: "ExpectedCallTracker \<Rightarrow> (Address \<times> bytes \<times> ExpectedCallData \<times> u64) option" where
  "missed_call calls = List.find (\<lambda>(a, cd, x). \<not> call_seen x) (all_calls calls)"

text \<open>The checks at the end of the root call: the message of the first that fails, and the emits that are left.\<close>

definition check_root :: "InstructionResult \<Rightarrow> ('g, 'w, 'd) Cheatcodes \<Rightarrow> message option \<times> ('g, 'w, 'd) Cheatcodes" where
  "check_root status st =
     (case missed_call (cc_expected_calls st) of
        Some (a, cd, x) \<Rightarrow> (Some (CallNotSeen a cd (fst x) (snd x) (return_ok status)), st)
      | None \<Rightarrow>
          let st' = st\<lparr>cc_expected_emits := filter (\<lambda>e. \<not> ee_found e) (cc_expected_emits st)\<rparr>
          in (if cc_expected_emits st' \<noteq> [] then Some (NoLogsEmitted (return_ok status)) else None, st'))"

text \<open>The checks of the emits that were declared at this depth.\<close>

definition check_emits :: "bool \<Rightarrow> 'x EVMData \<Rightarrow> ('g, 'w, 'd) Cheatcodes \<Rightarrow> bool \<times> ('g, 'w, 'd) Cheatcodes" where
  "check_emits is_static data st =
     (if list_ex (\<lambda>e. ee_depth e = depth data) (cc_expected_emits st) \<and> \<not> is_static then
        if list_ex (\<lambda>e. \<not> ee_found e) (cc_expected_emits st) then (False, st)
        else (True, st\<lparr>cc_expected_emits := []\<rparr>)
      else (True, st))"

text \<open>The last part of \<open>call_end\<close>: reverts that a fork explains.\<close>

definition diagnose :: "('g, 'w, 'd, 'x, 'e, 'o) insp_lib \<Rightarrow> CallInputs \<Rightarrow> InstructionResult \<Rightarrow> 'x EVMData \<Rightarrow>
    ('g, 'w, 'd) Cheatcodes \<Rightarrow> bytes option \<times> ('g, 'w, 'd) Cheatcodes" where
  "diagnose il call status data st =
     (let st' = st\<lparr>cc_fork_revert_diagnostic := None\<rparr> in
      case (status, cc_fork_revert_diagnostic st) of
        (Revert, Some err) \<Rightarrow> (Some (il_encode_diagnostic il err), st')
      | _ \<Rightarrow> (case tx_transact_to (ed_env data) of
          Some test_contract \<Rightarrow>
            if ed_forked data \<and> status = Stop \<and> ci_contract call \<noteq> test_contract
            then (None, st'\<lparr>cc_fork_revert_diagnostic := il_diagnose_revert il (ci_contract call) data\<rparr>)
            else (None, st')
        | None \<Rightarrow> (None, st')))"

text \<open>Whether an expected revert is due at this depth.\<close>

definition revert_due :: "('g, 'w, 'd) Cheatcodes \<Rightarrow> 'x EVMData \<Rightarrow> ExpectedRevert option" where
  "revert_due st data =
     (case cc_expected_revert st of
        Some er \<Rightarrow> if depth data \<le> er_depth er then Some er else None
      | None \<Rightarrow> None)"

definition insp_call_end :: "('g, 'w, 'd, 'x, 'e, 'o) insp_lib \<Rightarrow> CallInputs \<Rightarrow> 'g \<Rightarrow> InstructionResult \<Rightarrow> bytes \<Rightarrow>
    ('g, 'w, 'd) Cheatcodes \<Rightarrow> 'x EVMData \<Rightarrow>
    (InstructionResult \<times> 'g \<times> bytes) \<times> ('g, 'w, 'd) Cheatcodes \<times> 'x EVMData" where
  "insp_call_end il call remaining_gas status retdata st data =
     (if ci_contract call = CHEATCODE_ADDRESS \<or> ci_contract call = HARDHAT_CONSOLE_ADDRESS
      then ((status, remaining_gas, retdata), st, data)
      else if depth data = 0 \<and> cc_skip st
      then ((Revert, remaining_gas, encode_error il SkipMagic), st, data)
      else
        let (st, data) = clean_up_prank st data;
            (st, data) = clean_up_broadcast st data
        in case revert_due st data of
          Some er \<Rightarrow>
            (case handle_expect_revert (il_decode_bytes il) False (er_reason er) status retdata of
               Err e \<Rightarrow> (Revert, remaining_gas, encode_error il e)
             | Ok (_, ret) \<Rightarrow> (Return, remaining_gas, ret), st\<lparr>cc_expected_revert := None\<rparr>, data)
        | None \<Rightarrow>
            let (emits_ok, st) = check_emits (ci_is_static call) data st in
            if \<not> emits_ok then ((Revert, remaining_gas, il_encode_message il LogMismatch), st, data)
            else
              let (failed, st) = (if depth data = 0 then check_root status st else (None, st)) in
              case failed of
                Some m \<Rightarrow> ((Revert, remaining_gas, il_encode_message il m), st, data)
              | None \<Rightarrow>
                  let (err, st) = diagnose il call status data st
                  in ((status, remaining_gas, case err of Some b \<Rightarrow> b | None \<Rightarrow> retdata), st, data))"

section \<open>Creates\<close>

text \<open>\<open>process_create\<close>; \<open>None\<close> is a missing account or the overflow of its nonce.\<close>

definition process_create :: "('x, 'e) journal_lib \<Rightarrow> ('g, 'w, 'd, 'x, 'e, 'o) insp_lib \<Rightarrow> Address \<Rightarrow> CreateInputs \<Rightarrow>
    'x EVMData \<Rightarrow> ((bytes \<times> Address option \<times> u64, 'e cheat_error) result \<times> CreateInputs \<times> 'x EVMData) option" where
  "process_create jl il broadcast_sender call data =
     (case cr_scheme call of
        Create \<Rightarrow> do {
          account \<leftarrow> fmlookup (js_state (ed_journal data)) broadcast_sender;
          Some (Ok (cr_init_code call, None, ac_nonce account), call\<lparr>cr_caller := broadcast_sender\<rparr>, data)
        }
      | Create2 salt \<Rightarrow> (case jl_load_account jl DEFAULT_CREATE2_DEPLOYER (ed_journal data) of
          (Err e, j) \<Rightarrow> Some (Err (DbError e), call, data\<lparr>ed_journal := j\<rparr>)
        | (Ok _, j) \<Rightarrow> do {
            info \<leftarrow> fmlookup (js_state j) DEFAULT_CREATE2_DEPLOYER;
            let data = data\<lparr>ed_journal := j\<rparr>;
            let checked = (case ac_code info of
                Some code \<Rightarrow> if code = [] then Err MissingCreate2Deployer else Ok ()
              | None \<Rightarrow> (case il_code_by_hash il (ac_code_hash info) j of
                    Err e \<Rightarrow> Err (DbError e)
                  | Ok code \<Rightarrow> if code = [] then Err MissingCreate2Deployer else Ok ()));
            case checked of
              Err e \<Rightarrow> Some (Err e, call, data)
            | Ok _ \<Rightarrow> do {
                account \<leftarrow> fmlookup (js_state j) broadcast_sender;
                nonce \<leftarrow> add_chk (ac_nonce account) 1;
                Some (Ok (rev (le_bytes 32 salt) @ cr_init_code call, Some DEFAULT_CREATE2_DEPLOYER, ac_nonce account),
                  call\<lparr>cr_caller := DEFAULT_CREATE2_DEPLOYER\<rparr>,
                  data\<lparr>ed_journal := j\<lparr>js_state := fmupd broadcast_sender (account\<lparr>ac_nonce := nonce\<rparr>) (js_state j)\<rparr>\<rparr>)
              }
          }))"

definition create_prank :: "CreateInputs \<Rightarrow> ('g, 'w, 'd) Cheatcodes \<Rightarrow> 'x EVMData \<Rightarrow> CreateInputs \<times> 'x EVMData" where
  "create_prank call st data =
     (case cc_prank st of
        None \<Rightarrow> (call, data)
      | Some p \<Rightarrow>
          if pr_depth p \<le> depth data \<and> cr_caller call = prank_caller p then
            (if depth data = pr_depth p then call\<lparr>cr_caller := pr_new_caller p\<rparr> else call,
             case pr_new_origin p of Some o' \<Rightarrow> set_tx_caller o' data | None \<Rightarrow> data)
          else (call, data))"

type_synonym ('g, 'w, 'd, 'x) create_outcome =
  "(InstructionResult \<times> Address option \<times> 'g \<times> bytes) \<times> CreateInputs \<times> ('g, 'w, 'd) Cheatcodes \<times> 'x EVMData"

definition insp_create :: "('x, 'e) journal_lib \<Rightarrow> ('g, 'w, 'd, 'x, 'e, 'o) insp_lib \<Rightarrow> CreateInputs \<Rightarrow>
    ('g, 'w, 'd) Cheatcodes \<Rightarrow> 'x EVMData \<Rightarrow> ('g, 'w, 'd, 'x) create_outcome option" where
  "insp_create jl il call st data =
     (let data = allow_cheatcodes_on_create il call data;
          (call, data) = create_prank call st data;
          gas = il_gas_new il (cr_gas_limit call);
          go_on = (\<lambda>call st data. Some ((Continue, None, gas, []), call, st, data))
      in case cc_broadcast st of
        None \<Rightarrow> go_on call st data
      | Some b \<Rightarrow>
          if bc_depth b \<le> depth data \<and> cr_caller call = bc_original_caller b then
            (case jl_load_account jl (bc_new_origin b) (ed_journal data) of
               (Err e, j) \<Rightarrow> Some ((Revert, None, gas, il_error_string il (DbError e)), call, st, data\<lparr>ed_journal := j\<rparr>)
             | (Ok _, j) \<Rightarrow>
                 let data = set_tx_caller (bc_new_origin b) (data\<lparr>ed_journal := j\<rparr>) in
                 if depth data = bc_depth b then do {
                   (r, call, data) \<leftarrow> process_create jl il (bc_new_origin b) call data;
                   case r of
                     Err e \<Rightarrow> Some ((Revert, None, gas, il_error_string il e), call, st, data)
                   | Ok (bytecode, to', nonce) \<Rightarrow>
                       let tx = \<lparr>bt_rpc = ed_fork_url data, bt_from = bc_new_origin b, bt_to = to',
                                 bt_value = cr_value call, bt_data = bytecode, bt_nonce = nonce,
                                 bt_gas = if check_if_fixed_gas_limit data (cr_gas_limit call)
                                          then Some (cr_gas_limit call) else None\<rparr>
                       in go_on call (st\<lparr>cc_broadcastable_transactions := cc_broadcastable_transactions st @ [tx]\<rparr>) data
                 } else go_on call st data)
          else go_on call st data)"

definition insp_create_end :: "('g, 'w, 'd, 'x, 'e, 'o) insp_lib \<Rightarrow> InstructionResult \<Rightarrow> Address option \<Rightarrow> 'g \<Rightarrow> bytes \<Rightarrow>
    ('g, 'w, 'd) Cheatcodes \<Rightarrow> 'x EVMData \<Rightarrow>
    (InstructionResult \<times> Address option \<times> 'g \<times> bytes) \<times> ('g, 'w, 'd) Cheatcodes \<times> 'x EVMData" where
  "insp_create_end il status address remaining_gas retdata st data =
     (let (st, data) = clean_up_prank st data;
          (st, data) = clean_up_broadcast st data
      in case revert_due st data of
        Some er \<Rightarrow>
          (case handle_expect_revert (il_decode_bytes il) True (er_reason er) status retdata of
             Ok (a, ret) \<Rightarrow> (Return, a, remaining_gas, ret)
           | Err e \<Rightarrow> (Revert, None, remaining_gas, encode_error il e), st\<lparr>cc_expected_revert := None\<rparr>, data)
      | None \<Rightarrow> ((status, address, remaining_gas, retdata), st, data))"

end
