(* ===== verification/InspectorSpec.thy ===== *)
theory InspectorSpec
  imports Inspector
begin

text \<open>
  What the inspector promises of calls: which mock answers a call, how expected calls are counted, and
  the life of a prank.
\<close>

section \<open>Mocked calls\<close>

lemma take_le_take: "n \<le> m \<Longrightarrow> take n xs \<le> take m (xs :: 'a::linorder list)"
proof (induction xs arbitrary: n m)
  case (Cons x xs)
  then show ?case by (cases n; cases m) auto
qed simp

lemma find_least:
  assumes "List.find P (sorted_list_of_fset S) = Some x"
  shows "x |\<in>| S" "P x" "\<And>y. y |\<in>| S \<Longrightarrow> P y \<Longrightarrow> x \<le> y"
proof -
  let ?xs = "sorted_list_of_fset S"
  have set_eq: "set ?xs = fset S" by (simp add: sorted_list_of_fset.rep_eq)
  have sorted: "sorted ?xs" by (simp add: sorted_list_of_fset.rep_eq)
  from assms obtain i where i: "i < length ?xs" "P (?xs ! i)" "x = ?xs ! i" "\<forall>j<i. \<not> P (?xs ! j)"
    by (auto simp: find_Some_iff)
  then show "x |\<in>| S" "P x" using set_eq nth_mem by fastforce+
  fix y assume "y |\<in>| S" "P y"
  then obtain k where k: "k < length ?xs" "y = ?xs ! k" using set_eq by (metis in_set_conv_nth)
  with i \<open>P y\<close> have "i \<le> k" by (meson not_le_imp_less)
  with k i sorted show "x \<le> y" by (simp add: sorted_nth_mono)
qed

text \<open>Of two mocks that apply, the one that comes first in the map is the more specific one.\<close>

lemma mock_order:
  assumes "mock_applies call m" "mock_applies call m'" "m \<le> m'"
  shows "length (mock_calldata m') < length (mock_calldata m) \<or>
    mock_calldata m' = mock_calldata m \<and> (m' = m \<or> mock_value m' = None)"
proof -
  have t: "mock_calldata m = take (length (mock_calldata m)) (ci_input call)"
    "mock_calldata m' = take (length (mock_calldata m')) (ci_input call)"
    using assms(1,2) by (simp_all add: mock_applies_def)
  show ?thesis
  proof (cases "length (mock_calldata m') < length (mock_calldata m)")
    case False
    then have "mock_calldata m \<le> mock_calldata m'"
      using t take_le_take [of "length (mock_calldata m)" "length (mock_calldata m')" "ci_input call"] by simp
    with assms(3) have "mock_calldata m = mock_calldata m'" "mock_value m' \<le> mock_value m"
      by (auto simp: less_eq_MockCallDataContext_def mock_le_def)
    with assms(1,2) show ?thesis
      by (cases m; cases m') (auto simp: mock_applies_def split: option.splits)
  qed simp
qed

lemma find_mock_None: "find_mock call mocks = None \<longleftrightarrow> (\<forall>m. fmlookup mocks m \<noteq> None \<longrightarrow> \<not> mock_applies call m)"
proof -
  let ?ctx = "MockCallDataContext (ci_input call) (Some (ci_value call))"
  let ?found = "List.find (mock_applies call) (sorted_list_of_fset (fmdom mocks))"
  have "mock_applies call ?ctx" by (simp add: mock_applies_def)
  moreover have "?found = None \<longleftrightarrow> (\<forall>m. fmlookup mocks m \<noteq> None \<longrightarrow> \<not> mock_applies call m)"
    by (simp add: find_None_iff sorted_list_of_fset.rep_eq fmlookup_dom_iff del: not_None_eq)
      (metis option.distinct(1))
  moreover have "fmlookup mocks m \<noteq> None" if "?found = Some m" for m
    using find_least(1) [OF that] by (auto simp: fmlookup_dom_iff)
  ultimately show ?thesis
    by (cases "fmlookup mocks ?ctx"; cases ?found) (auto simp: find_mock_def)
qed

text \<open>
  The most specific mock answers.  A call to a mocked contract is answered exactly when a mock
  applies to it, that is, its call data is a prefix of the input and its value, if it has one, is the
  value of the call; and the answer is that of a mock with the longest call data of those that apply,
  one with a value before one without.
\<close>

theorem most_specific_mock:
  "(find_mock call mocks = None \<longleftrightarrow> (\<forall>m. fmlookup mocks m \<noteq> None \<longrightarrow> \<not> mock_applies call m)) \<and>
   (\<forall>r. find_mock call mocks = Some r \<longrightarrow>
      (\<exists>m. fmlookup mocks m = Some r \<and> mock_applies call m \<and>
        (\<forall>m'. fmlookup mocks m' \<noteq> None \<and> mock_applies call m' \<longrightarrow>
           length (mock_calldata m') < length (mock_calldata m) \<or>
           mock_calldata m' = mock_calldata m \<and> (m' = m \<or> mock_value m' = None))))"
proof (intro conjI allI impI)
  show "find_mock call mocks = None \<longleftrightarrow> (\<forall>m. fmlookup mocks m \<noteq> None \<longrightarrow> \<not> mock_applies call m)"
    by (rule find_mock_None)
next
  fix r assume r: "find_mock call mocks = Some r"
  let ?ctx = "MockCallDataContext (ci_input call) (Some (ci_value call))"
  have "\<exists>m. fmlookup mocks m = Some r \<and> mock_applies call m \<and>
      (\<forall>m'. fmlookup mocks m' \<noteq> None \<and> mock_applies call m' \<longrightarrow> m \<le> m')"
  proof (cases "fmlookup mocks ?ctx")
    case (Some r')
    have "?ctx \<le> m'" if "mock_applies call m'" for m'
      using that take_le_take [of "length (mock_calldata m')" "length (ci_input call)" "ci_input call"]
      by (cases m') (auto simp: mock_applies_def less_eq_MockCallDataContext_def mock_le_def less_le split: option.splits)
    with Some r show ?thesis
      by (intro exI [of _ ?ctx]) (auto simp: find_mock_def mock_applies_def)
  next
    case None
    then obtain m where m: "List.find (mock_applies call) (sorted_list_of_fset (fmdom mocks)) = Some m"
      "fmlookup mocks m = Some r" using r by (auto simp: find_mock_def split: option.splits)
    with find_least [OF m(1)] show ?thesis
      by (intro exI [of _ m]) (auto simp: fmlookup_dom_iff)
  qed
  then obtain m where m: "fmlookup mocks m = Some r" "mock_applies call m"
    "\<And>m'. fmlookup mocks m' \<noteq> None \<and> mock_applies call m' \<Longrightarrow> m \<le> m'" by blast
  show "\<exists>m. fmlookup mocks m = Some r \<and> mock_applies call m \<and>
        (\<forall>m'. fmlookup mocks m' \<noteq> None \<and> mock_applies call m' \<longrightarrow>
           length (mock_calldata m') < length (mock_calldata m) \<or>
           mock_calldata m' = mock_calldata m \<and> (m' = m \<or> mock_value m' = None))"
    using m(1,2) mock_order [OF m(2) _ m(3)] by (intro exI [of _ m] conjI allI impI) simp_all
qed

definition ex_call :: CallInputs where
  "ex_call = \<lparr>ci_contract = 9, ci_input = [1, 2, 3], ci_value = 0, ci_source = 5, ci_caller = 5,
     ci_gas_limit = 1000, ci_is_static = False\<rparr>"

theorem most_specific_mock_witness:
  "find_mock ex_call (fmupd (MockCallDataContext [1] None) \<lparr>mr_ret_type = Return, mr_data = [7]\<rparr>
     (fmupd (MockCallDataContext [1, 2] None) \<lparr>mr_ret_type = Revert, mr_data = [8]\<rparr> fmempty)) =
   Some \<lparr>mr_ret_type = Revert, mr_data = [8]\<rparr>"
proof -
  let ?mocks = "fmupd (MockCallDataContext [1] None) \<lparr>mr_ret_type = Return, mr_data = [7]\<rparr>
     (fmupd (MockCallDataContext [1, 2] None) \<lparr>mr_ret_type = Revert, mr_data = [8]\<rparr> fmempty)"
  have "mock_applies ex_call (MockCallDataContext [1, 2] None)"
    by (simp add: mock_applies_def ex_call_def)
  moreover have "MockCallDataContext [1] None \<noteq> MockCallDataContext [1, 2 :: u8] None" by simp
  moreover obtain r where r: "find_mock ex_call ?mocks = Some r"
    using calculation conjunct1 [OF most_specific_mock [of ex_call ?mocks]] by fastforce
  moreover obtain m where m: "fmlookup ?mocks m = Some r"
    "length (mock_calldata (MockCallDataContext [1, 2] None)) < length (mock_calldata m) \<or>
      mock_calldata (MockCallDataContext [1, 2] None) = mock_calldata m"
    using r calculation conjunct2 [OF most_specific_mock [of ex_call ?mocks]] by fastforce
  ultimately show ?thesis by (auto split: if_splits)
qed

section \<open>Expected calls\<close>

definition entry :: "ExpectedCallTracker \<Rightarrow> Address \<Rightarrow> bytes \<Rightarrow> (ExpectedCallData \<times> u64) option" where
  "entry calls a cd = Option.bind (fmlookup calls a) (\<lambda>m. fmlookup m cd)"

definition hits :: "Address \<Rightarrow> bytes \<Rightarrow> ExpectedCallData \<Rightarrow> CallInputs list \<Rightarrow> nat" where
  "hits a cd ex cs = length (filter (\<lambda>c. ci_contract c = a \<and> matches_call cd ex c) cs)"

lemma count_calls_entry:
  assumes "\<And>a cd ex n. entry calls a cd = Some (ex, n) \<Longrightarrow> Suc (unat n) < 2 ^ 64"
  shows "\<exists>calls'. count_calls c calls = Some calls' \<and>
    (\<forall>a cd. entry calls' a cd =
       map_option (\<lambda>x. if ci_contract c = a then see_call c cd x else x) (entry calls a cd))"
proof (cases "fmlookup calls (ci_contract c)")
  case None
  then have "ci_contract c \<noteq> a" if "fmlookup calls a = Some v" for a v using that by auto
  with None show ?thesis by (auto simp: count_calls_def entry_def option.map_ident split: bind_split)
next
  case (Some m)
  have "add_chk n 1 \<noteq> None" if "fmlookup m cd = Some (ex, n)" for cd ex n
    using assms [of "ci_contract c" cd ex n] that Some by (simp add: entry_def add_chk_def)
  then have "\<not> fBex (fmdom m) (\<lambda>cd. matches_call cd (fst (the (fmlookup m cd))) c \<and>
      add_chk (snd (the (fmlookup m cd))) 1 = None)"
    by (auto simp: fmlookup_dom_iff)
  with Some have "count_calls c calls = Some (fmupd (ci_contract c) (fmmap_keys (see_call c) m) calls)"
    by (simp add: count_calls_def)
  moreover have "entry (fmupd (ci_contract c) (fmmap_keys (see_call c) m) calls) a cd =
      map_option (\<lambda>x. if ci_contract c = a then see_call c cd x else x) (entry calls a cd)" for a cd
    using Some by (auto simp: entry_def option.map_ident split: bind_split)
  ultimately show ?thesis by blast
qed

definition count_all :: "CallInputs list \<Rightarrow> ExpectedCallTracker \<Rightarrow> ExpectedCallTracker option" where
  "count_all cs calls = fold (\<lambda>c r. Option.bind r (count_calls c)) cs (Some calls)"

lemma count_all_entry:
  assumes "\<And>a cd ex n. entry calls a cd = Some (ex, n) \<Longrightarrow> unat n + length cs < 2 ^ 64"
  shows "\<exists>calls'. count_all cs calls = Some calls' \<and>
    (\<forall>a cd. entry calls' a cd = map_option (\<lambda>(ex, n). (ex, n + of_nat (hits a cd ex cs))) (entry calls a cd))"
  using assms
proof (induction cs arbitrary: calls)
  case Nil
  then show ?case by (auto simp: count_all_def hits_def option.map_ident split_def)
next
  case (Cons c cs)
  have small: "Suc (unat n) < 2 ^ 64" if "entry calls a cd = Some (ex, n)" for a cd ex n
    using Cons.prems [OF that] by simp
  then obtain calls1 where c1: "count_calls c calls = Some calls1"
    "\<And>a cd. entry calls1 a cd = map_option (\<lambda>x. if ci_contract c = a then see_call c cd x else x) (entry calls a cd)"
    using count_calls_entry [of calls c] by blast
  have "unat n + length cs < 2 ^ 64" if "entry calls1 a cd = Some (ex, n)" for a cd ex n
  proof -
    from that c1(2) [of a cd] obtain n0 where n0: "entry calls a cd = Some (ex, n0)"
      "n = n0 \<or> n = n0 + 1"
      by (auto simp: see_call_def split: if_splits)
    have "unat (n0 + 1) = Suc (unat n0)"
      using small [OF n0(1)] by (simp add: unat_word_ariths)
    with n0 Cons.prems [OF n0(1)] show ?thesis by auto
  qed
  then obtain calls' where IH: "count_all cs calls1 = Some calls'"
    "\<And>a cd. entry calls' a cd = map_option (\<lambda>(ex, n). (ex, n + of_nat (hits a cd ex cs))) (entry calls1 a cd)"
    using Cons.IH [of calls1] by blast
  have "count_all (c # cs) calls = Some calls'" using c1(1) IH(1) by (simp add: count_all_def)
  moreover have "entry calls' a cd = map_option (\<lambda>(ex, n). (ex, n + of_nat (hits a cd ex (c # cs)))) (entry calls a cd)" for a cd
    by (cases "entry calls a cd") (auto simp: IH(2) c1(2) see_call_def hits_def)
  ultimately show ?case by blast
qed

lemma missed_call_None: "missed_call calls = None \<longleftrightarrow> (\<forall>a cd x. entry calls a cd = Some x \<longrightarrow> call_seen x)"
proof -
  have "set (all_calls calls) = {(a, cd, x). entry calls a cd = Some x}"
    by (force simp: all_calls_def entry_def Let_def sorted_list_of_fset.rep_eq fmlookup_dom_iff split: bind_splits)
  then show ?thesis by (auto simp: missed_call_def find_None_iff)
qed

text \<open>
  C29: expected calls are counted.  Over any fewer than \<open>2\<^sup>6\<^sup>4\<close> calls, starting from expectations not
  yet seen, counting does not overflow, and the check at the end of the root call passes exactly when
  every expectation with a count was met by exactly that many of the calls, and every other one by at
  least as many as it was declared for.
\<close>

theorem expected_calls_counted:
  assumes "\<forall>a cd ex n. entry calls a cd = Some (ex, n) \<longrightarrow> n = 0" "length cs < 2 ^ 64"
  shows "\<exists>calls'. count_all cs calls = Some calls' \<and>
    (missed_call calls' = None \<longleftrightarrow>
      (\<forall>a cd ex. entry calls a cd = Some (ex, 0) \<longrightarrow>
        (case ec_call_type ex of Count \<Rightarrow> unat (ec_count ex) = hits a cd ex cs
         | NonCount \<Rightarrow> unat (ec_count ex) \<le> hits a cd ex cs)))"
proof -
  obtain calls' where c: "count_all cs calls = Some calls'"
    "\<And>a cd. entry calls' a cd = map_option (\<lambda>(ex, n). (ex, n + of_nat (hits a cd ex cs))) (entry calls a cd)"
    using count_all_entry [of calls cs] assms by fastforce
  have "hits a cd ex cs < 2 ^ 64" for a cd ex
    using assms(2) length_filter_le le_less_trans unfolding hits_def by blast
  then have u: "unat (of_nat (hits a cd ex cs) :: u64) = hits a cd ex cs" for a cd ex
    by (rule unat_of_nat_u64)
  have seen: "call_seen (ex, 0 + of_nat (hits a cd ex cs)) \<longleftrightarrow>
      (case ec_call_type ex of Count \<Rightarrow> unat (ec_count ex) = hits a cd ex cs
         | NonCount \<Rightarrow> unat (ec_count ex) \<le> hits a cd ex cs)" for a cd ex
    by (auto simp: call_seen_def word_unat_eq_iff word_le_nat_alt u split: ExpectedCallType.split)
  have e: "entry calls' a cd = Some x \<longleftrightarrow>
      (\<exists>ex. entry calls a cd = Some (ex, 0) \<and> x = (ex, 0 + of_nat (hits a cd ex cs)))" for a cd x
    using assms(1) by (cases "entry calls a cd") (auto simp: c(2))
  have "missed_call calls' = None \<longleftrightarrow>
      (\<forall>a cd ex. entry calls a cd = Some (ex, 0) \<longrightarrow> call_seen (ex, 0 + of_nat (hits a cd ex cs)))"
    unfolding missed_call_None e by auto
  then show ?thesis using c(1) unfolding seen by (intro exI [of _ calls'] conjI)
qed

theorem expected_calls_counted_witness:
  "\<exists>calls'. count_all [ex_call, ex_call]
     (fmupd 9 (fmupd [1, 2] (\<lparr>ec_value = None, ec_gas = None, ec_min_gas = None, ec_count = 2,
        ec_call_type = Count\<rparr>, 0) fmempty) fmempty) = Some calls' \<and> missed_call calls' = None"
proof -
  define ex where "ex = \<lparr>ec_value = None, ec_gas = None, ec_min_gas = None, ec_count = 2, ec_call_type = Count\<rparr>"
  define calls where "calls = fmupd 9 (fmupd [1, 2 :: u8] (ex, 0 :: u64) fmempty) (fmempty :: ExpectedCallTracker)"
  have e: "entry calls a cd = (if a = 9 \<and> cd = [1, 2] then Some (ex, 0) else None)" for a cd
    by (simp add: entry_def calls_def)
  have h: "hits 9 [1, 2] ex [ex_call, ex_call] = 2"
    by (simp add: hits_def matches_call_def ex_call_def ex_def)
  have pre: "\<forall>a cd ex n. entry calls a cd = Some (ex, n) \<longrightarrow> n = 0"
    by (simp add: e split: if_splits)
  have len: "length [ex_call, ex_call] < 2 ^ 64" by simp
  obtain calls' where c: "count_all [ex_call, ex_call] calls = Some calls'"
    "missed_call calls' = None \<longleftrightarrow> (\<forall>a cd ex. entry calls a cd = Some (ex, 0) \<longrightarrow>
        (case ec_call_type ex of Count \<Rightarrow> unat (ec_count ex) = hits a cd ex [ex_call, ex_call]
         | NonCount \<Rightarrow> unat (ec_count ex) \<le> hits a cd ex [ex_call, ex_call]))"
    using expected_calls_counted [OF pre len] by (elim exE conjE)
  have "missed_call calls' = None" unfolding c(2) e using h by (simp add: ex_def)
  with c(1) have "count_all [ex_call, ex_call] calls = Some calls' \<and> missed_call calls' = None" ..
  then show ?thesis unfolding calls_def ex_def by (rule exI)
qed

section \<open>Pranks\<close>

lemma depth_set_tx_caller [simp]: "depth (set_tx_caller a data) = depth data"
  by (simp add: depth_def set_tx_caller_def)

lemma tx_caller_set [simp]: "tx_caller (ed_env (set_tx_caller a data)) = a"
  by (simp add: set_tx_caller_def)

text \<open>A call that nothing but the prank concerns: an ordinary contract, not mocked, not expected.\<close>

definition plain_call :: "CallInputs \<Rightarrow> ('g, 'w, 'd) Cheatcodes \<Rightarrow> bool" where
  "plain_call call st \<longleftrightarrow> ci_contract call \<noteq> CHEATCODE_ADDRESS \<and> ci_contract call \<noteq> HARDHAT_CONSOLE_ADDRESS \<and>
     fmlookup (cc_mocked_calls st) (ci_contract call) = None \<and>
     fmlookup (cc_expected_calls st) (ci_contract call) = None \<and> cc_broadcast st = None"

lemma pranked_call:
  assumes "plain_call call st" "cc_prank st = Some p" "ci_caller call = prank_caller p" "depth data = pr_depth p"
  shows "\<exists>st'. insp_call cl il is_static call st data =
      Some ((Continue, il_gas_new il (ci_gas_limit call), []),
        call\<lparr>ci_caller := pr_new_caller p, ci_source := pr_new_caller p\<rparr>, st',
        case pr_new_origin p of Some o' \<Rightarrow> set_tx_caller o' data | None \<Rightarrow> data) \<and>
      cc_prank st' = Some (p\<lparr>pr_used := True\<rparr>) \<and> cc_broadcast st' = None \<and> cc_skip st' = cc_skip st"
proof -
  let ?call = "call\<lparr>ci_caller := pr_new_caller p, ci_source := pr_new_caller p\<rparr>"
  let ?data = "case pr_new_origin p of Some o' \<Rightarrow> set_tx_caller o' data | None \<Rightarrow> data"
  have counted: "count_calls call (cc_expected_calls st) = Some (cc_expected_calls st)"
    using assms(1) by (simp add: plain_call_def count_calls_def)
  obtain st' where pr: "apply_prank call st data = (?call, st', ?data)" "cc_prank st' = Some (p\<lparr>pr_used := True\<rparr>)"
    "cc_broadcast st' = None" "cc_skip st' = cc_skip st"
    using assms by (auto simp: apply_prank_def first_time_applied_def Let_def plain_call_def split: if_splits)
  have "apply_broadcast (cl_journal cl) il is_static ?call st' ?data = Some (None, ?call, st', ?data)"
    using pr(3) by (simp add: apply_broadcast_def)
  then show ?thesis
    using assms(1) counted pr by (auto simp: insp_call_def call_contract_def plain_call_def)
qed

lemma call_end_prank:
  assumes "ci_contract call \<noteq> CHEATCODE_ADDRESS" "ci_contract call \<noteq> HARDHAT_CONSOLE_ADDRESS"
    "depth data \<noteq> 0" "cc_broadcast st = None"
    "insp_call_end il call gas status ret st data = (r, st', data')"
  shows "cc_prank st' = cc_prank (fst (clean_up_prank st data))" "cc_broadcast st' = None"
    "tx_caller (ed_env data') = tx_caller (ed_env (snd (clean_up_prank st data)))" "depth data' = depth data"
proof -
  obtain st1 data1 where c: "clean_up_prank st data = (st1, data1)" by force
  have b: "cc_broadcast st1 = None" "depth data1 = depth data"
    using c assms(4) by (auto simp: clean_up_prank_def split: option.splits if_splits)
  have "cc_prank st' = cc_prank st1 \<and> cc_broadcast st' = None \<and> data' = data1"
    using assms b by (auto simp: insp_call_end_def c clean_up_broadcast_def check_emits_def diagnose_def Let_def
        split: option.splits result.splits prod.splits if_splits InstructionResult.splits)
  with c b show "cc_prank st' = cc_prank (fst (clean_up_prank st data))" "cc_broadcast st' = None"
    "tx_caller (ed_env data') = tx_caller (ed_env (snd (clean_up_prank st data)))" "depth data' = depth data"
    by simp_all
qed


text \<open>Concrete libraries and data.\<close>

definition ex_journal :: "(unit, unit) journal_lib" where
  "ex_journal = \<lparr>jl_load_account = (\<lambda>a j. (Ok (), case fmlookup (js_state j) a of
        Some _ \<Rightarrow> j
      | None \<Rightarrow> j\<lparr>js_state := fmupd a \<lparr>ac_balance = 0, ac_nonce = 0, ac_code_hash = 0, ac_code = None\<rparr> (js_state j)\<rparr>)),
     jl_touch = (\<lambda>_ j. j), jl_set_code = (\<lambda>_ _ j. j), jl_sstore = (\<lambda>_ _ _ j. (Ok (), j)),
     jl_sload = (\<lambda>_ _ j. (Ok 0, j)), jl_merge = 0, jl_keccak_empty = 0\<rparr>"

definition ex_cl :: "(unit, unit, unit, unit) cheat_lib" where
  "ex_cl = \<lparr>cl_journal = ex_journal, cl_wallet = \<lparr>wl_order = 0, wl_signing_key = (\<lambda>_. None),
       wl_wallet = (\<lambda>_ _. ()), wl_address = (\<lambda>_. 0)\<rparr>,
     cl_alphabetic = (\<lambda>_. True), cl_default_sender = 0, cl_encode = (\<lambda>_. [])\<rparr>"

definition ex_il :: "(u64, unit, unit, unit, unit, unit) insp_lib" where
  "ex_il = \<lparr>il_gas_new = (\<lambda>g. g), il_gas_limit = (\<lambda>g. g), il_error_string = (\<lambda>_. []),
     il_encode_message = (\<lambda>_. []), il_encode_diagnostic = (\<lambda>_. []), il_decode_call = (\<lambda>_. None),
     il_other = (\<lambda>_ st data. Some (Ok [], st, data)), il_decode_bytes = (\<lambda>_. None),
     il_code_by_hash = (\<lambda>_ _. Ok []), il_contract_address = (\<lambda>a _. a), il_create2_address = (\<lambda>a _ _. a),
     il_diagnose_revert = (\<lambda>_ _. None)\<rparr>"

definition ex_data :: "u64 \<Rightarrow> unit EVMData" where
  "ex_data d = \<lparr>ed_env = \<lparr>env_block = \<lparr>be_number = 1, be_coinbase = 0, be_timestamp = 1, be_difficulty = 0,
       be_prevrandao = None, be_basefee = 0, be_gas_limit = 0\<rparr>, tx_caller = 1, tx_gas_price = 0,
       tx_gas_limit = 0, tx_transact_to = None, cfg_chain_id = 1, cfg_spec_id = 0\<rparr>,
     ed_journal = \<lparr>js_depth = d, js_state = fmempty, js_rest = ()\<rparr>, ed_fork_url = None, ed_forked = False,
     ed_access = {}\<rparr>"

definition ex_pranked :: "(u64, unit, unit) Cheatcodes" where
  "ex_pranked = cc_default\<lparr>cc_prank := Some (prank_new 5 1 7 (Some 8) 2 True)\<rparr>"

lemma ex_prank: "prank 5 (tx_caller (ed_env (ex_data 2))) 7 (Some 8) (depth (ex_data 2)) True cc_default =
    (Ok [], ex_pranked)"
  by (simp add: prank_def cc_default_def ex_pranked_def ex_data_def depth_def)

lemma ex_plain: "plain_call ex_call ex_pranked"
  by (simp add: plain_call_def ex_call_def ex_pranked_def cc_default_def CHEATCODE_ADDRESS_def
      HARDHAT_CONSOLE_ADDRESS_def)

lemma ex_pranked_call:
  obtains r call' st2 data2 where "insp_call ex_cl ex_il False ex_call ex_pranked (ex_data 2) = Some (r, call', st2, data2)"
  using pranked_call [OF ex_plain, of "prank_new 5 1 7 (Some 8) 2 True" "ex_data 2" ex_cl ex_il False]
  by (auto simp: ex_pranked_def prank_new_def ex_call_def ex_data_def depth_def)


text \<open>
  C34: a nested call ends a one-time prank early.  When the pranked call makes a call of its own, the end
  of that inner call already removes the prank, and at the end of the pranked call itself the
  origin is not restored: the test goes on with the pranked origin.
\<close>

theorem nested_call_keeps_pranked_origin:
  assumes "cc_prank st = Some p" "pr_single_call p" "pr_new_origin p = Some a" "plain_call call st"
    "ci_caller call = prank_caller p" "depth data = pr_depth p" "depth data \<noteq> 0"
    "insp_call cl il is_static call st data = Some (r, call', st1, data1)"
    "data1' = data1\<lparr>ed_journal := j\<rparr>" "js_depth j = depth data + 1" "depth data + 1 \<noteq> 0"
    "ci_contract inner \<noteq> CHEATCODE_ADDRESS" "ci_contract inner \<noteq> HARDHAT_CONSOLE_ADDRESS"
    "insp_call_end il inner gas status ret st1 data1' = (r2, st2, data2)"
    "data2' = data2\<lparr>ed_journal := j'\<rparr>" "js_depth j' = depth data"
    "insp_call_end il call' gas' status' ret' st2 data2' = (r3, st3, data3)"
  shows "cc_prank st2 = None \<and> tx_caller (ed_env data3) = a"
proof -
  have c: "cc_prank st1 = Some (p\<lparr>pr_used := True\<rparr>)" "cc_broadcast st1 = None"
    "tx_caller (ed_env data1) = a" "ci_contract call' = ci_contract call"
    using pranked_call [OF assms(4,1,5,6), of cl il is_static] assms(3,8) by auto
  have d1: "depth data1' = depth data + 1" "tx_caller (ed_env data1') = a"
    using assms(9,10) c(3) by (simp_all add: depth_def)
  note end1 = call_end_prank [OF assms(12,13) _ c(2) assms(14)]
  have e1: "cc_prank st2 = None" "cc_broadcast st2 = None" "tx_caller (ed_env data2) = a"
    using end1 d1 assms(2,6,11) c(1) by (simp_all add: clean_up_prank_def)
  have d2: "depth data2' = depth data" "tx_caller (ed_env data2') = a"
    using assms(15,16) e1(3) by (simp_all add: depth_def)
  have "tx_caller (ed_env data3) = a"
    using call_end_prank(3) [OF _ _ _ e1(2) assms(17)] c(4) assms(4,7) d2 e1(1)
    by (simp add: plain_call_def clean_up_prank_def)
  with e1(1) show ?thesis by simp
qed

theorem nested_call_keeps_pranked_origin_witness:
  "\<exists>r call' st1 data1 r2 st2 data2 r3 st3 data3.
     insp_call ex_cl ex_il False ex_call ex_pranked (ex_data 2) = Some (r, call', st1, data1) \<and>
     insp_call_end ex_il ex_call 0 Return [] st1 (data1\<lparr>ed_journal := ed_journal (ex_data 3)\<rparr>) = (r2, st2, data2) \<and>
     insp_call_end ex_il call' 0 Return [] st2 (data2\<lparr>ed_journal := ed_journal (ex_data 2)\<rparr>) = (r3, st3, data3) \<and>
     tx_caller (ed_env (ex_data 2)) = 1 \<and> tx_caller (ed_env data3) = 8"
proof -
  obtain r call' st1 data1 where c: "insp_call ex_cl ex_il False ex_call ex_pranked (ex_data 2) = Some (r, call', st1, data1)"
    by (rule ex_pranked_call)
  obtain r2 st2 data2 where e: "insp_call_end ex_il ex_call 0 Return [] st1 (data1\<lparr>ed_journal := ed_journal (ex_data 3)\<rparr>) = (r2, st2, data2)"
    by (cases "insp_call_end ex_il ex_call 0 Return [] st1 (data1\<lparr>ed_journal := ed_journal (ex_data 3)\<rparr>)") auto
  obtain r3 st3 data3 where e': "insp_call_end ex_il call' 0 Return [] st2 (data2\<lparr>ed_journal := ed_journal (ex_data 2)\<rparr>) = (r3, st3, data3)"
    by (cases "insp_call_end ex_il call' 0 Return [] st2 (data2\<lparr>ed_journal := ed_journal (ex_data 2)\<rparr>)") auto
  have p: "cc_prank ex_pranked = Some (prank_new 5 1 7 (Some 8) 2 True)"
    "pr_single_call (prank_new 5 1 7 (Some 8) 2 True)" "pr_new_origin (prank_new 5 1 7 (Some 8) 2 True) = Some 8"
    "ci_caller ex_call = prank_caller (prank_new 5 1 7 (Some 8) 2 True)"
    "depth (ex_data 2) = pr_depth (prank_new 5 1 7 (Some 8) 2 True)" "depth (ex_data 2) \<noteq> 0"
    "js_depth (ed_journal (ex_data 3)) = depth (ex_data 2) + 1" "depth (ex_data 2) + 1 \<noteq> 0"
    "js_depth (ed_journal (ex_data 2)) = depth (ex_data 2)"
    by (simp_all add: ex_pranked_def prank_new_def ex_call_def ex_data_def depth_def)
  have k: "ci_contract ex_call \<noteq> CHEATCODE_ADDRESS" "ci_contract ex_call \<noteq> HARDHAT_CONSOLE_ADDRESS"
    using ex_plain by (simp_all add: plain_call_def)
  have "tx_caller (ed_env data3) = 8"
    using nested_call_keeps_pranked_origin [OF p(1-3) ex_plain p(4-6) c refl p(7,8) k e refl p(9) e'] ..
  with c e e' show ?thesis by (intro exI conjI) (auto simp: ex_data_def)
qed

end
