(* ===== verification/InspectorSafety.thy ===== *)
theory InspectorSafety
  imports InspectorSpec
begin

text \<open>
  What the inspector keeps safe: the memory a test may write, the balances that deals changed, and that
  pranks and broadcasts exclude each other whatever the inspector is called with.
\<close>

section \<open>Memory\<close>

text \<open>
  The bytes an instruction writes, by its operands: offset and number.  The copy instructions take the
  offset from the top of the stack and the size from the third place, \<open>EXTCODECOPY\<close> one place
  lower; the calls write their output.
\<close>

definition mem_write :: "'g Interpreter \<Rightarrow> (nat \<times> nat) option" where
  "mem_write i = do {
     opcode \<leftarrow> op_at i;
     let region = (\<lambda>a b. do { x \<leftarrow> peek a i; y \<leftarrow> peek b i; Some (unat x, unat y) });
     if opcode = MSTORE then map_option (\<lambda>x. (unat x, 32)) (peek 0 i)
     else if opcode = MSTORE8 then map_option (\<lambda>x. (unat x, 1)) (peek 0 i)
     else if opcode = 0x37 \<or> opcode = 0x39 \<or> opcode = 0x3e then region 0 2
     else if opcode = 0x3c then region 1 3
     else if opcode = 0xf1 \<or> opcode = 0xf2 then region 5 6
     else if opcode = 0xfa \<or> opcode = 0xf4 then region 4 5
     else None
   }"

lemma any_range_True:
  "any_range offset extra ranges = Some True \<Longrightarrow>
   \<exists>r \<in> set ranges. unat (fst r) \<le> unat offset \<and> unat offset + unat extra < unat (snd r)"
proof (induction offset extra ranges rule: any_range.induct)
  case (2 offset extra r rs)
  show ?case
  proof (cases "in_range r offset")
    case True
    then obtain l where l: "add_chk offset extra = Some l" using 2(3) by (auto split: bind_splits)
    show ?thesis
    proof (cases "in_range r l")
      case True
      with \<open>in_range r offset\<close> unat_add_chk [OF l] show ?thesis
        by (intro bexI [of _ r]) (auto simp: in_range_def word_le_nat_alt word_less_nat_alt)
    next
      case False
      with 2 l \<open>in_range r offset\<close> show ?thesis by auto
    qed
  next
    case False
    with 2 show ?thesis by auto
  qed
qed simp

lemma operand_Some: "operand n i = Some (Some x) \<Longrightarrow> \<exists>v. peek n i = Some v \<and> unat x = unat v"
  by (auto simp: operand_def as_u64_Some split: option.splits)

lemma operand_NoneD: "operand n i = Some None \<Longrightarrow> peek n i = None"
  by (auto simp: operand_def split: option.splits)

lemma check_sized_Allowed:
  assumes "check_sized ranges a b True i = Some Allowed" "peek a i = Some x" "peek b i = Some y" "0 < unat y"
  shows "\<exists>r \<in> set ranges. unat (fst r) \<le> unat x \<and> unat x + unat y \<le> unat (snd r)"
proof -
  from assms(1) obtain d s where ds: "operand a i = Some (Some d)" "operand b i = Some (Some s)"
    "any_range d (saturating_sub s 1) ranges = Some True"
    by (auto simp: check_sized_def split: bind_splits option.splits if_splits)
  then have "unat d = unat x" "unat s = unat y" using operand_Some assms(2,3) by fastforce+
  with any_range_True [OF ds(3)] assms(4) show ?thesis
    by (auto simp: unat_saturating_sub Suc_le_eq)
qed

lemma check_memory_Allowed:
  assumes "check_memory ranges i = Some v" "mem_write i = Some (x, y)" "0 < y" "v = Allowed \<or> v = NoOperand"
  shows "\<exists>r \<in> set ranges. unat (fst r) \<le> x \<and> x + y \<le> unat (snd r)"
proof -
  obtain opcode where opcode: "op_at i = Some opcode" using assms(2) by (auto simp: mem_write_def split: bind_splits)
  have sized: ?thesis if "check_sized ranges a b True i = Some v" "peek a i = Some u" "peek b i = Some w"
    "x = unat u" "y = unat w" for a b u w
  proof -
    have "v \<noteq> NoOperand"
      using that(1-3) by (auto simp: check_sized_def dest!: operand_NoneD split: bind_splits option.splits if_splits)
    with assms(3,4) that check_sized_Allowed [of ranges a b i u w] show ?thesis by simp
  qed
  have top: ?thesis if top: "peek 0 i = Some u" "x = unat u" and
    ch: "Option.bind (operand 0 i) (\<lambda>t. case t of None \<Rightarrow> Some NoOperand
       | Some offset \<Rightarrow> Option.bind (any_range offset e ranges)
           (\<lambda>ok. Some (if ok then Allowed else Disallowed offset w))) = Some v"
    "y = Suc (unat e)" for u e w
  proof -
    from ch(1) top(1) assms(4) obtain d where d: "operand 0 i = Some (Some d)" "any_range d e ranges = Some True"
      by (auto dest!: operand_NoneD split: bind_splits option.splits if_splits)
    with operand_Some [OF d(1)] top have "unat d = x" by auto
    with any_range_True [OF d(2)] ch(2) show ?thesis by (auto simp: Suc_le_eq)
  qed
  have "?thesis" if o: "opcode = MSTORE \<or> opcode = MSTORE8"
  proof -
    define e :: u64 where "e = (if opcode = MSTORE8 then 0 else 31)"
    define u where "u = the (peek 0 i)"
    have "peek 0 i = Some u" "x = unat u" "y = Suc (unat e)"
      using o assms(2) opcode by (auto simp: mem_write_def e_def u_def Let_def)
    moreover have "e = (if opcode = MSTORE8 then 1 else 32) - 1" by (simp add: e_def)
    ultimately show ?thesis using o assms(1) opcode
      by (intro top [of u e "if opcode = MSTORE8 then 1 else 32"])
        (auto simp: check_memory_def Let_def cong: option.case_cong)
  qed
  moreover have "?thesis" if other: "\<not> (opcode = MSTORE \<or> opcode = MSTORE8)"
  proof -
    have nl: "opcode \<noteq> MLOAD" using assms(2) opcode by (auto simp: mem_write_def Let_def)
    obtain a b where ab: "map_of mem_opcodes opcode = Some (a, b, True)"
      "Option.bind (peek a i) (\<lambda>x. Option.bind (peek b i) (\<lambda>y. Some (unat x, unat y))) = Some (x, y)"
      using other assms(2) opcode by (auto simp: mem_write_def mem_opcodes_def Let_def split: if_splits)
    then have c: "check_sized ranges a b True i = Some v"
      using assms(1) other nl opcode by (simp add: check_memory_def)
    obtain u w where "peek a i = Some u" "peek b i = Some w" "x = unat u" "y = unat w"
      using ab(2) by (auto split: bind_splits)
    with c show ?thesis by (rule sized)
  qed
  ultimately show ?thesis by blast
qed

lemma meter_gas_keeps:
  "meter_gas il st i = Some (st', i') \<Longrightarrow>
     cc_allowed_mem_writes st' = cc_allowed_mem_writes st \<and> cc_accesses st' = cc_accesses st \<and>
     in_stack i' = in_stack i \<and> in_bytecode i' = in_bytecode i \<and> in_pc i' = in_pc i"
  by (auto simp: meter_gas_def split: option.splits bind_splits if_splits)

lemma record_access_keeps:
  "record_access i st = Some (Inr st') \<Longrightarrow> cc_allowed_mem_writes st' = cc_allowed_mem_writes st"
  by (auto simp: record_access_def split: option.splits bind_splits if_splits)

lemma record_access_returns:
  "record_access i st = Some (Inl u) \<Longrightarrow> op_at i = Some SLOAD \<or> op_at i = Some SSTORE"
  by (auto simp: record_access_def split: option.splits bind_splits if_splits)

text \<open>
  C24: only allowed memory is written.  When memory ranges are declared safe for the current depth and
  the inspector lets an instruction pass that writes memory, all bytes it writes lie within one of
  the ranges.
\<close>

theorem safe_memory:
  assumes "insp_step il keccak256 rs i data st = Some (Continue, st', i')"
    "fmlookup (cc_allowed_mem_writes st) (depth data) = Some ranges"
    "mem_write i = Some (x, y)" "0 < y"
  shows "\<exists>r \<in> set ranges. unat (fst r) \<le> x \<and> x + y \<le> unat (snd r)"
proof -
  from assms(1) obtain st1 i1 r where m: "meter_gas il (st\<lparr>cc_pc := in_pc i\<rparr>) i = Some (st1, i1)"
    and r: "record_access i1 st1 = Some r"
    by (auto simp: insp_step_def split: bind_splits)
  note keeps = meter_gas_keeps [OF m]
  then have same: "op_at i1 = op_at i" "\<And>n. peek n i1 = peek n i"
    by (simp_all add: op_at_def peek_def)
  have w: "mem_write i1 = Some (x, y)" using assms(3) unfolding mem_write_def same .
  then have "op_at i1 \<noteq> Some SLOAD \<and> op_at i1 \<noteq> Some SSTORE" by (auto simp: mem_write_def Let_def)
  then obtain st2 where r2: "r = Inr st2" using record_access_returns r by (cases r) auto
  have ranges: "fmlookup (cc_allowed_mem_writes st2) (depth data) = Some ranges"
    using record_access_keeps [of i1 st1 st2] r r2 keeps assms(2) by simp
  obtain v where "check_memory ranges i1 = Some v" "v = Allowed \<or> v = NoOperand"
    using assms(1) m r r2 ranges by (auto simp: insp_step_def split: bind_splits mem_verdict.splits)
  then show ?thesis using check_memory_Allowed w assms(4) by blast
qed

definition ex_store :: "u64 Interpreter" where
  "ex_store = \<lparr>in_pc = 0, in_bytecode = [0x52], in_stack = [0x80, 1], in_memory = [], in_gas = 5,
     in_address = 1, in_return_range = (0, 0)\<rparr>"

theorem safe_memory_witness:
  "\<exists>st' i'. insp_step ex_il (\<lambda>_. []) (\<lambda>_ _ _. []) ex_store (ex_data 1)
       (cc_default\<lparr>cc_allowed_mem_writes := fmupd 1 [(0x80, 0xa0)] fmempty\<rparr>) = Some (Continue, st', i') \<and>
     mem_write ex_store = Some (0x80, 32) \<and> (\<exists>r \<in> {(0x80 :: u64, 0xa0 :: u64)}. 0x80 + 32 \<le> unat (snd r))"
proof -
  let ?st = "cc_default\<lparr>cc_allowed_mem_writes := fmupd 1 [(0x80, 0xa0)] fmempty\<rparr>"
  have s: "insp_step ex_il (\<lambda>_. []) (\<lambda>_ _ _. []) ex_store (ex_data 1) ?st =
      Some (Continue, ?st\<lparr>cc_pc := 0\<rparr>, ex_store)"
    by (simp add: insp_step_def meter_gas_def record_access_def check_memory_def op_at_def operand_def peek_def
        as_u64_def in_range_def add_chk_def ex_store_def ex_data_def depth_def cc_default_def)
  have w: "mem_write ex_store = Some (0x80, 32)"
    by (simp add: mem_write_def op_at_def peek_def ex_store_def)
  from safe_memory [OF s _ w] s w show ?thesis by (simp add: ex_data_def depth_def cc_default_def)
qed

section \<open>Deals\<close>

text \<open>The accounts of \<open>t\<close> are in \<open>s\<close> as they are in \<open>t\<close>.\<close>

definition agree :: "(Address, AccountInfo) fmap \<Rightarrow> (Address, AccountInfo) fmap \<Rightarrow> bool" where
  "agree s t \<longleftrightarrow> (\<forall>a. fmlookup t a \<noteq> None \<longrightarrow> fmlookup s a = fmlookup t a)"

lemma agree_undo: "agree s t \<Longrightarrow> agree (undo_deal r s) (undo_deal r t)"
  by (auto simp: agree_def undo_deal_def split: option.splits)

lemma agree_trans: "agree s t \<Longrightarrow> agree t u \<Longrightarrow> agree s u"
  by (auto simp: agree_def)

lemma agree_undo_all: "agree s t \<Longrightarrow> agree (fold undo_deal rs s) (fold undo_deal rs t)"
  by (induction rs arbitrary: s t) (auto intro: agree_undo)

fun run_deals :: "('x, 'e) journal_lib \<Rightarrow> (Address \<times> U256) list \<Rightarrow> ('g, 'w, 'd) Cheatcodes \<Rightarrow> 'x JournaledState \<Rightarrow>
    (('g, 'w, 'd) Cheatcodes \<times> 'x JournaledState) option" where
  "run_deals jl [] st j = Some (st, j)"
| "run_deals jl ((who, value) # ds) st j =
     (case deal jl who value st j of
        Some (Ok _, st', j') \<Rightarrow> run_deals jl ds st' j'
      | _ \<Rightarrow> None)"

lemma deal_undone:
  assumes "journal_ok jl" "deal jl who value st j = Some (Ok r, st', j')"
  obtains rec where "cc_eth_deals st' = cc_eth_deals st @ [rec]" "agree (undo_deal rec (js_state j')) (js_state j)"
    "js_depth j' = js_depth j" "cc_expected_revert st' = cc_expected_revert st"
proof -
  obtain j1 where load: "jl_load_account jl who j = (Ok (), j1)"
    using assms(2) by (auto simp: deal_def with_journaled_account_def split: bind_splits prod.splits result.splits)
  then have ok: "js_depth j1 = js_depth j" "agree (js_state j1) (js_state j)"
    using assms(1) by (auto simp: journal_ok_def agree_def)
  have t: "js_depth (jl_touch jl who j1) = js_depth j1" "js_state (jl_touch jl who j1) = js_state j1"
    using assms(1) by (auto simp: journal_ok_def)
  obtain acc where acc: "fmlookup (js_state j1) who = Some acc"
    using assms(2) load t by (auto simp: deal_def with_journaled_account_def Let_def split: option.splits)
  define rec where "rec = \<lparr>dr_address = who, dr_old_balance = ac_balance acc, dr_new_balance = value\<rparr>"
  have st': "st' = st\<lparr>cc_eth_deals := cc_eth_deals st @ [rec]\<rparr>" and
    j': "js_state j' = fmupd who (acc\<lparr>ac_balance := value\<rparr>) (js_state j1)" "js_depth j' = js_depth j1"
    using assms(2) load t acc by (auto simp: deal_def with_journaled_account_def Let_def rec_def)
  have "agree (undo_deal rec (js_state j')) (js_state j1)"
    using acc by (auto simp: agree_def undo_deal_def j' rec_def)
  then show thesis using that [of rec] st' j'(2) ok agree_trans by auto
qed

lemma run_deals_undone:
  assumes "journal_ok jl" "run_deals jl ds st j = Some (st', j')"
  shows "\<exists>rs. cc_eth_deals st' = cc_eth_deals st @ rs \<and> agree (fold undo_deal (rev rs) (js_state j')) (js_state j) \<and>
    js_depth j' = js_depth j \<and> cc_expected_revert st' = cc_expected_revert st"
  using assms(2)
proof (induction ds arbitrary: st j)
  case Nil
  then show ?case by (auto simp: agree_def)
next
  case (Cons d ds)
  obtain who val where d: "d = (who, val)" by (cases d)
  then obtain r st1 j1 where s: "deal jl who val st j = Some (Ok r, st1, j1)" "run_deals jl ds st1 j1 = Some (st', j')"
    using Cons.prems by (auto split: option.splits prod.splits result.splits)
  obtain rec where rec: "cc_eth_deals st1 = cc_eth_deals st @ [rec]" "agree (undo_deal rec (js_state j1)) (js_state j)"
    "js_depth j1 = js_depth j" "cc_expected_revert st1 = cc_expected_revert st"
    by (rule deal_undone [OF assms(1) s(1)])
  obtain rs where rs: "cc_eth_deals st' = cc_eth_deals st1 @ rs" "agree (fold undo_deal (rev rs) (js_state j')) (js_state j1)"
    "js_depth j' = js_depth j1" "cc_expected_revert st' = cc_expected_revert st1"
    using Cons.IH [OF s(2)] by blast
  have "agree (fold undo_deal (rev (rec # rs)) (js_state j')) (js_state j)"
    using agree_trans [OF agree_undo [OF rs(2), of rec] rec(2)] by simp
  with rec rs show ?case by (intro exI [of _ "rec # rs"]) simp
qed


lemma ex_journal_ok: "journal_ok ex_journal"
  by (auto simp: journal_ok_def ex_journal_def split: option.splits)


section \<open>Pranks and broadcasts\<close>

lemma exclusive_expect:
  assumes "exclusive st" "expect_apply jl call st data = Some (r, st', data')"
  shows "exclusive st'"
  using assms(2,1)
  by (cases call) (auto simp: expect_apply_def on_state_def expect_revert_def expect_emit_def expect_call_from_def
      with_calls_def mock_call0_def mock_call1_def insert_mock_def expect_safe_memory_def
      split: if_splits bind_splits prod.splits result.splits)

lemma exclusive_apply_prank: "apply_prank call st data = (call', st', data') \<Longrightarrow> exclusive st' = exclusive st"
  by (auto simp: apply_prank_def exclusive_def first_time_applied_def Let_def split: option.splits if_splits)

lemma exclusive_apply_broadcast:
  "apply_broadcast jl il is_static call st data = Some (e, call', st', data') \<Longrightarrow> exclusive st' = exclusive st"
  by (auto simp: apply_broadcast_def push_broadcast_def Let_def
      split: option.splits if_splits prod.splits result.splits bind_splits)

lemma exclusive_call_contract:
  assumes "exclusive st" "call_contract jl il is_static call st data = Some (r, call', st', data')"
  shows "exclusive st'"
  using assms
  by (auto simp: call_contract_def Let_def exclusive_apply_broadcast
      split: bind_splits option.splits prod.splits dest!: exclusive_apply_prank)

lemma exclusive_clean_up [simp]:
  "exclusive st \<Longrightarrow> exclusive (fst (clean_up_prank st data))"
  "exclusive st \<Longrightarrow> exclusive (fst (clean_up_broadcast st data))"
  by (auto simp: clean_up_prank_def clean_up_broadcast_def split: option.splits)

lemma exclusive_checks [simp]:
  "exclusive st \<Longrightarrow> exclusive (snd (check_emits x data st))"
  "exclusive st \<Longrightarrow> exclusive (snd (check_root status st))"
  "exclusive st \<Longrightarrow> exclusive (snd (diagnose il call status data st))"
  by (auto simp: check_emits_def check_root_def diagnose_def Let_def split: option.splits InstructionResult.splits)

lemma exclusive_call_end:
  "exclusive st \<Longrightarrow> exclusive (fst (snd (insp_call_end il call gas status ret st data)))"
  by (auto simp: insp_call_end_def Let_def split_def split: option.splits if_splits)

lemma exclusive_create:
  assumes "exclusive st" "insp_create jl il call st data = Some (r, call', st', data')"
  shows "exclusive st'"
  using assms by (auto simp: insp_create_def Let_def split: option.splits if_splits prod.splits result.splits bind_splits)

lemma exclusive_create_end:
  "exclusive st \<Longrightarrow> exclusive (fst (snd (insp_create_end il status a gas ret st data)))"
  by (auto simp: insp_create_end_def Let_def split_def split: option.splits)

lemma exclusive_step:
  assumes "exclusive st" "insp_step il keccak256 rs i data st = Some (r, st', i')"
  shows "exclusive st'"
proof -
  obtain st1 i1 rec where m: "meter_gas il (st\<lparr>cc_pc := in_pc i\<rparr>) i = Some (st1, i1)"
    and rec: "record_access i1 st1 = Some rec"
    using assms(2) by (auto simp: insp_step_def split: bind_splits)
  have e1: "exclusive st1"
    using m assms(1) by (auto simp: meter_gas_def split: option.splits bind_splits if_splits)
  show ?thesis
  proof (cases rec)
    case Inl
    with assms(2) m rec e1 show ?thesis by (simp add: insp_step_def)
  next
    case (Inr st2)
    then have e2: "exclusive st2"
      using rec e1 by (auto simp: record_access_def split: option.splits bind_splits if_splits)
    from Inr assms(2) m rec have "st' = st2 \<or> (\<exists>ms. st' = st2\<lparr>cc_mapping_slots := ms\<rparr>)"
      by (auto simp: insp_step_def split: bind_splits option.splits mem_verdict.splits)
    with e2 show ?thesis by auto
  qed
qed

text \<open>The inspector as a machine: one step per callback of the EVM, with the inputs of the callback.\<close>

datatype ('g, 'x) event =
    OnInit | OnStep "'g Interpreter" | OnLog Address "H256 list" bytes | OnCall bool CallInputs
  | OnCallEnd CallInputs 'g InstructionResult bytes | OnCreate CreateInputs
  | OnCreateEnd InstructionResult "Address option" 'g bytes | OnRevert

fun on_event :: "('k, 'w, 'x, 'e) cheat_lib \<Rightarrow> ('g, 'w, 'd, 'x, 'e, 'o) insp_lib \<Rightarrow> (bytes \<Rightarrow> bytes) \<Rightarrow>
    (u64 \<Rightarrow> u64 \<Rightarrow> (u64 \<times> u64) list \<Rightarrow> bytes) \<Rightarrow> 'x EVMData \<Rightarrow> ('g, 'x) event \<Rightarrow>
    ('g, 'w, 'd) Cheatcodes \<Rightarrow> ('g, 'w, 'd) Cheatcodes option" where
  "on_event cl il kec rs data OnInit st = Some (fst (initialize_interp st data))"
| "on_event cl il kec rs data (OnStep i) st = map_option (fst \<circ> snd) (insp_step il kec rs i data st)"
| "on_event cl il kec rs data (OnLog a ts b) st = insp_log a ts b st"
| "on_event cl il kec rs data (OnCall s c) st = map_option (\<lambda>r. fst (snd (snd r))) (insp_call cl il s c st data)"
| "on_event cl il kec rs data (OnCallEnd c g status ret) st = Some (fst (snd (insp_call_end il c g status ret st data)))"
| "on_event cl il kec rs data (OnCreate c) st = map_option (\<lambda>r. fst (snd (snd r))) (insp_create (cl_journal cl) il c st data)"
| "on_event cl il kec rs data (OnCreateEnd status a g ret) st =
     Some (fst (snd (insp_create_end il status a g ret st data)))"
| "on_event cl il kec rs data OnRevert st = Some (fst (on_revert st data))"

definition other_keeps :: "('g, 'w, 'd, 'x, 'e, 'o) insp_lib \<Rightarrow> bool" where
  "other_keeps il \<longleftrightarrow> (\<forall>c st data r st' data'. il_other il c st data = Some (r, st', data') \<longrightarrow>
     cc_prank st' = cc_prank st \<and> cc_broadcast st' = cc_broadcast st)"

lemma exclusive_call:
  assumes "other_keeps il" "exclusive st" "insp_call cl il s c st data = Some (r, c', st', data')"
  shows "exclusive st'"
proof -
  have other: "exclusive s'" if "il_other il x st d = Some (r, s', d')" for x d r s' d'
    using assms(1,2) that unfolding other_keeps_def exclusive_def by metis
  have "exclusive s'" if "apply_cheatcode cl il a inp st data = Some (r, s', d')" for a inp r s' d'
    using that assms(2) other
    by (auto simp: apply_cheatcode_def on_state_def skip_def split: option.splits result.splits HEVMCalls.splits if_splits
        intro: exclusive_apply exclusive_expect)
  then show ?thesis
    using assms(2,3)
    by (auto simp: insp_call_def Let_def split: if_splits bind_splits intro: exclusive_call_contract)
qed

lemma exclusive_event:
  assumes "other_keeps il" "exclusive st" "on_event cl il kec rs data ev st = Some st'"
  shows "exclusive st'"
proof (cases ev)
  case (OnCall s c)
  with assms show ?thesis by (auto intro: exclusive_call [OF assms(1,2)])
qed (use assms(2,3) in \<open>auto simp: initialize_interp_def insp_log_def on_revert_def Let_def
    intro: exclusive_step exclusive_create exclusive_call_end exclusive_create_end
    split: option.splits if_splits bind_splits prod.splits\<close>)

interpretation cheat_machine: machine_inv "\<lambda>st. st = cc_new b p"
  "\<lambda>st (data, ev) st'. other_keeps il \<and> on_event cl il kec rs data ev st = Some st'" exclusive
  for b p and cl :: "('k, 'w, 'x, 'e) cheat_lib" and il :: "('g, 'w, 'd, 'x, 'e, 'o) insp_lib" and kec rs
proof (unfold_locales, goal_cases)
  case 1
  then show ?case by (simp add: cc_new_def cc_default_def exclusive_def)
next
  case 2
  then show ?case by (auto intro: exclusive_event)
qed



end
