(* ===== verification/NodeEnv.thy ===== *)
theory NodeEnv
  imports EvmTypes Pool Fees NodeTime
begin

text \<open>
  What the node's backend (\<open>anvil/src/eth/backend/mem/mod.rs\<close>), its executor and its RPC handlers share:
  the environment handed to the EVM, the error type of the node (\<open>anvil/src/eth/error.rs\<close>), the view of
  the database, the call of the EVM without writing to the database, and the validation of a transaction.

  The EVM is the crate \<open>revm\<close>: \<open>node_lib\<close> has the functions the node calls.  \<open>DatabaseRef\<close> is a type
  parameter of the source and a type variable here.  \<open>SpecId\<close> is an enum of \<open>revm\<close>, compared by its
  number.
\<close>

section \<open>The environment of the EVM\<close>

record CfgEnv =
  ce_spec_id :: u8
  ce_chain_id :: U256
  ce_disable_block_gas_limit :: bool
  ce_disable_base_fee :: bool
  ce_disable_eip3607 :: bool

record EvmEnv =
  ev_cfg :: CfgEnv
  ev_block :: BlockEnv
  ev_tx :: TxEnv

record hardforks =
  hf_spurious_dragon :: u8
  hf_berlin :: u8
  hf_london :: u8
  hf_merge :: u8

text \<open>
  \<open>nl_inspect_ref\<close> runs a transaction without committing it, \<open>nl_inspect_commit\<close> commits it to the
  database and records the call trace; \<open>nl_basic\<close> and \<open>nl_code_by_hash\<close> are the methods of
  \<open>DatabaseRef\<close> the node uses.
\<close>

record ('d, 'e, 'l, 's, 't) node_lib =
  nl_inspect_ref :: "EvmEnv \<Rightarrow> 'd \<Rightarrow> ('l ExecutionResult \<times> 's, 'e EVMError) result"
  nl_inspect_commit :: "EvmEnv \<Rightarrow> bool \<Rightarrow> 'd \<Rightarrow> ('l ExecutionResult, 'e EVMError) result \<times> 't \<times> 'd"
  nl_basic :: "'d \<Rightarrow> Address \<Rightarrow> (AccountInfo option, 'e) result"
  nl_code_by_hash :: "'d \<Rightarrow> H256 \<Rightarrow> (bytes, 'e) result"
  nl_keccak_empty :: H256
  nl_forks :: hardforks

definition account_default :: "H256 \<Rightarrow> AccountInfo" where
  "account_default keccak_empty =
     \<lparr>ac_balance = 0, ac_nonce = 0, ac_code_hash = keccak_empty, ac_code = Some []\<rparr>"

section \<open>Errors\<close>

datatype (plugins only: code) 'e BlockchainError = BePool PoolError | BeNoSignerAvailable | BeChainIdNotAvailable
  | BeInvalidFeeInput | BeEmptyRawTransactionData | BeFailedToDecodeSignedTransaction
  | BeFailedToDecodeTransaction | BeFailedToDecodeStateDump | BePrevrandaoNotSet | BeSignatureError
  | BeWalletError | BeRpcUnimplemented | BeRpcError | BeInvalidTransaction InvalidTransactionError
  | BeFeeHistory | BeForkProvider | BeEvmError InstructionResult | BeInvalidUrl string
  | BeInternal string | BeBlockOutOfRange u64 u64 | BeBlockNotFound | BeDataUnavailable
  | BeTrieError string | BeUintConversion string | BeStateOverrideError string | BeTimestampError string
  | BeDatabaseError 'e | BeEIP1559TransactionUnsupportedAtHardfork
  | BeEIP2930TransactionUnsupportedAtHardfork

text \<open>\<open>From<EVMError>\<close>, which is also the match on the error in \<open>call_with_state\<close>.\<close>

fun from_evm_error :: "'e EVMError \<Rightarrow> 'e BlockchainError" where
  "from_evm_error (EvTransaction invalid_tx) = BeInvalidTransaction (from_invalid_transaction invalid_tx)"
| "from_evm_error EvPrevrandaoNotSet = BePrevrandaoNotSet"
| "from_evm_error (EvDatabase e) = BeDatabaseError e"

fun from_fee_error :: "FeeError \<Rightarrow> 'e BlockchainError" where
  "from_fee_error InvalidFeeInput = BeInvalidFeeInput"

section \<open>Constants and hardfork checks\<close>

definition MIN_TRANSACTION_GAS :: U256 where "MIN_TRANSACTION_GAS = 21000"
definition MIN_CREATE_GAS :: U256 where "MIN_CREATE_GAS = 53000"

definition bk_is_eip1559 :: "hardforks \<Rightarrow> EvmEnv \<Rightarrow> bool" where
  "bk_is_eip1559 hf env \<longleftrightarrow> hf_london hf \<le> ce_spec_id (ev_cfg env)"

definition bk_is_eip3675 :: "hardforks \<Rightarrow> EvmEnv \<Rightarrow> bool" where
  "bk_is_eip3675 hf env \<longleftrightarrow> hf_merge hf \<le> ce_spec_id (ev_cfg env)"

definition bk_is_eip2930 :: "hardforks \<Rightarrow> EvmEnv \<Rightarrow> bool" where
  "bk_is_eip2930 hf env \<longleftrightarrow> hf_berlin hf \<le> ce_spec_id (ev_cfg env)"

definition ensure_eip1559_active :: "hardforks \<Rightarrow> EvmEnv \<Rightarrow> (unit, 'e BlockchainError) result" where
  "ensure_eip1559_active hf env =
     (if bk_is_eip1559 hf env then Ok () else Err BeEIP1559TransactionUnsupportedAtHardfork)"

definition ensure_eip2930_active :: "hardforks \<Rightarrow> EvmEnv \<Rightarrow> (unit, 'e BlockchainError) result" where
  "ensure_eip2930_active hf env =
     (if bk_is_eip2930 hf env then Ok () else Err BeEIP2930TransactionUnsupportedAtHardfork)"

fun ensure_typed_transaction_supported ::
  "hardforks \<Rightarrow> EvmEnv \<Rightarrow> TypedTransaction \<Rightarrow> (unit, 'e BlockchainError) result" where
  "ensure_typed_transaction_supported hf env (EIP2930 _) = ensure_eip2930_active hf env"
| "ensure_typed_transaction_supported hf env (EIP1559 _) = ensure_eip1559_active hf env"
| "ensure_typed_transaction_supported hf env (Legacy _) = Ok ()"

section \<open>Reading the state\<close>

text \<open>\<open>Bytecode\<close> is its original bytes: \<open>code.bytes()[..code.len()]\<close> drops the padding of the analysis.\<close>

definition get_code_with_state ::
  "('d, 'e, 'l, 's, 't) node_lib \<Rightarrow> 'd \<Rightarrow> Address \<Rightarrow> (bytes, 'e BlockchainError) result" where
  "get_code_with_state lib state address =
     (case nl_basic lib state address of
        Err e \<Rightarrow> Err (BeDatabaseError e)
      | Ok a \<Rightarrow>
         (let account = unwrap_or a (account_default (nl_keccak_empty lib)) in
          if ac_code_hash account = nl_keccak_empty lib then Ok []
          else case ac_code account of
                 Some code \<Rightarrow> Ok code
               | None \<Rightarrow> (case nl_code_by_hash lib state (ac_code_hash account) of
                            Ok code \<Rightarrow> Ok code | Err e \<Rightarrow> Err (BeDatabaseError e))))"

definition get_balance_with_state ::
  "('d, 'e, 'l, 's, 't) node_lib \<Rightarrow> 'd \<Rightarrow> Address \<Rightarrow> (U256, 'e BlockchainError) result" where
  "get_balance_with_state lib state address =
     (case nl_basic lib state address of
        Err e \<Rightarrow> Err (BeDatabaseError e)
      | Ok a \<Rightarrow> Ok (ac_balance (unwrap_or a (account_default (nl_keccak_empty lib)))))"

section \<open>Calls without commit\<close>

text \<open>
  \<open>Backend::build_call_env\<close>; \<open>env\<close> is \<open>self.env\<close> and \<open>fm\<close> is \<open>self.fees\<close>.  \<open>None\<close> is the panic of
  \<open>as_u64\<close> on the gas limit or the nonce.
\<close>

definition build_call_env ::
  "hardforks \<Rightarrow> FeeManager \<Rightarrow> EvmEnv \<Rightarrow> EthTransactionRequest \<Rightarrow> FeeDetails \<Rightarrow> BlockEnv \<Rightarrow> EvmEnv option" where
  "build_call_env hf fm env request fee_details block_env =
     (let gas_limit = unwrap_or (er_gas request) (be_gas_limit block_env);
          cfg = (ev_cfg env)\<lparr>ce_disable_block_gas_limit := True\<rparr>;
          block = (case fd_max_fee_per_gas fee_details of
                     Some base \<Rightarrow> block_env\<lparr>be_basefee := base\<rparr> | None \<Rightarrow> block_env);
          gas_price = (case fd_gas_price fee_details of
                         Some p \<Rightarrow> p
                       | None \<Rightarrow> unwrap_or (fd_max_fee_per_gas fee_details) (gas_price_of (hf_london hf) fm))
      in do {
        g \<leftarrow> as_u64 gas_limit;
        n \<leftarrow> (case er_nonce request of None \<Rightarrow> Some None | Some n \<Rightarrow> map_option Some (as_u64 n));
        Some \<lparr>ev_cfg = (if be_basefee block = 0 then cfg\<lparr>ce_disable_base_fee := True\<rparr> else cfg),
          ev_block = block,
          ev_tx = \<lparr>te_caller = unwrap_or (er_from request) 0, te_gas_limit = g,
            te_gas_price = gas_price,
            te_gas_priority_fee = fd_max_priority_fee_per_gas fee_details,
            te_transact_to = (case er_to request of
               Some addr \<Rightarrow> TransactCall addr | None \<Rightarrow> TransactCreate),
            te_value = unwrap_or (er_value request) 0, te_data = unwrap_or (er_data request) [],
            te_chain_id = None, te_nonce = n,
            te_access_list = unwrap_or (er_access_list request) []\<rparr>\<rparr>
      })"

type_synonym ('e, 's) call_result =
  "(InstructionResult \<times> Output option \<times> u64 \<times> 's, 'e BlockchainError) result"

definition call_with_state ::
  "('d, 'e, 'l, 's, 't) node_lib \<Rightarrow> FeeManager \<Rightarrow> EvmEnv \<Rightarrow> 'd \<Rightarrow> EthTransactionRequest \<Rightarrow> FeeDetails \<Rightarrow>
    BlockEnv \<Rightarrow> ('e, 's) call_result option" where
  "call_with_state lib fm env state request fee_details block_env = do {
     ev \<leftarrow> build_call_env (nl_forks lib) fm env request fee_details block_env;
     Some (case nl_inspect_ref lib ev state of
             Err e \<Rightarrow> Err (from_evm_error e)
           | Ok (res, st) \<Rightarrow> (case exec_outcome res of
               (exit_reason, gas_used, out, _) \<Rightarrow> Ok (exit_reason, out, gas_used, st)))
   }"

section \<open>Validation\<close>

text \<open>
  \<open>TransactionValidator for Backend\<close>.  The comparison of chain ids converts the node's id to \<open>u64\<close>,
  and \<open>meets_eip155\<close> adds to it: \<open>None\<close> is their panic.  \<open>chain_id\<close> is \<open>self.chain_id()\<close>.
\<close>

definition check_chain_id ::
  "hardforks \<Rightarrow> U256 \<Rightarrow> EvmEnv \<Rightarrow> TypedTransaction \<Rightarrow> (unit, InvalidTransactionError) result option" where
  "check_chain_id hf chain_id env tx =
     (case tx_chain_id tx of
        None \<Rightarrow> Some (Ok ())
      | Some tx_id \<Rightarrow>
         if chain_id = ucast tx_id then Some (Ok ())
         else (case tx of
             Legacy legacy \<Rightarrow>
               if hf_spurious_dragon hf \<le> ce_spec_id (ev_cfg env) then do {
                 c \<leftarrow> as_u64 chain_id;
                 met \<leftarrow> meets_eip155 legacy c;
                 Some (if met then Ok () else Err IncompatibleEIP155)
               } else Some (Ok ())
           | _ \<Rightarrow> Some (Err InvalidChainId)))"

definition check_fees :: "hardforks \<Rightarrow> EvmEnv \<Rightarrow> TypedTransaction \<Rightarrow> (unit, InvalidTransactionError) result" where
  "check_fees hf env tx =
     (if hf_london hf \<le> ce_spec_id (ev_cfg env) then
        if tx_gas_price tx < be_basefee (ev_block env) then Err FeeCapTooLow
        else case (es_max_priority_fee_per_gas (essentials tx), es_max_fee_per_gas (essentials tx)) of
               (Some p, Some f) \<Rightarrow> if f < p then Err TipAboveFeeCap else Ok ()
             | _ \<Rightarrow> Ok ()
      else Ok ())"

definition validate_pool_transaction_for ::
  "hardforks \<Rightarrow> U256 \<Rightarrow> PendingTransaction \<Rightarrow> AccountInfo \<Rightarrow> EvmEnv \<Rightarrow>
    (unit, InvalidTransactionError) result option" where
  "validate_pool_transaction_for hf chain_id pending account env =
     (let tx = mi_transaction (pd_transaction pending) in do {
        c \<leftarrow> check_chain_id hf chain_id env tx;
        Some (and_then c (\<lambda>_.
          if tx_gas_limit tx < MIN_TRANSACTION_GAS then Err GasTooLow
          else if \<not> ce_disable_block_gas_limit (ev_cfg env) \<and> be_gas_limit (ev_block env) < tx_gas_limit tx
          then Err (GasTooHigh ''tx.gas_limit > env.block.gas_limit'')
          else case as_u64 (tx_nonce tx) of
            None \<Rightarrow> Err NonceMaxValue
          | Some nonce \<Rightarrow>
             if nonce < ac_nonce account then Err NonceTooLow
             else and_then (check_fees hf env tx) (\<lambda>_.
               case add_chk (tx_max_cost tx) (tx_value tx) of
                 None \<Rightarrow> Err InsufficientFunds
               | Some req_funds \<Rightarrow>
                  if ac_balance account < req_funds then Err InsufficientFunds else Ok ())))
      })"

definition validate_for ::
  "hardforks \<Rightarrow> U256 \<Rightarrow> PendingTransaction \<Rightarrow> AccountInfo \<Rightarrow> EvmEnv \<Rightarrow>
    (unit, InvalidTransactionError) result option" where
  "validate_for hf chain_id pending account env = do {
     v \<leftarrow> validate_pool_transaction_for hf chain_id pending account env;
     (case v of
        Err e \<Rightarrow> Some (Err e)
      | Ok _ \<Rightarrow> do {
          n \<leftarrow> as_u64 (tx_nonce (mi_transaction (pd_transaction pending)));
          Some (if ac_nonce account < n then Err NonceTooHigh else Ok ())
        })
   }"

text \<open>\<open>Backend::next_env\<close>; \<open>now\<close> is the wall clock that the time manager reads.\<close>

definition next_env :: "hardforks \<Rightarrow> FeeManager \<Rightarrow> u64 \<Rightarrow> TimeManager \<Rightarrow> EvmEnv \<Rightarrow> EvmEnv option" where
  "next_env hf fm now tm env = do {
     t \<leftarrow> current_call_timestamp now tm;
     Some (env\<lparr>ev_block := (ev_block env)\<lparr>be_number := saturating_add (be_number (ev_block env)) 1,
       be_basefee := base_fee_of (hf_london hf) fm, be_timestamp := ucast t\<rparr>\<rparr>)
   }"

text \<open>\<open>get_pool_transactions_nonce\<close>: the nonce after the highest one of the sender's transactions.\<close>

definition highest_nonce_tx :: "Address \<Rightarrow> PoolTransaction list \<Rightarrow> PoolTransaction option" where
  "highest_nonce_tx address pool_transactions =
     (case filter (\<lambda>tx. pd_sender (pt_pending_transaction tx) = address) pool_transactions of
        [] \<Rightarrow> None
      | tx # txs \<Rightarrow> Some (foldl (\<lambda>accum item.
          if tx_nonce (mi_transaction (pd_transaction (pt_pending_transaction accum)))
             < tx_nonce (mi_transaction (pd_transaction (pt_pending_transaction item)))
          then item else accum) tx txs))"

definition get_pool_transactions_nonce :: "PoolTransaction list \<Rightarrow> Address \<Rightarrow> U256 option" where
  "get_pool_transactions_nonce pool_transactions address =
     (case highest_nonce_tx address pool_transactions of
        Some tx \<Rightarrow> Some (saturating_add (tx_nonce (mi_transaction (pd_transaction (pt_pending_transaction tx)))) 1)
      | None \<Rightarrow> None)"

end
