(* ===== verification/GasEstimate.thy ===== *)
theory GasEstimate
  imports NodeEnv
begin

text \<open>
  \<open>eth_estimateGas\<close> (\<open>do_estimate_gas_with_state\<close>, \<open>map_out_of_gas_err\<close> and
  \<open>determine_base_gas_by_kind\<close> of \<open>anvil/src/eth/api.rs\<close>).  The handler runs the call once with the highest
  gas limit and then searches for the lowest limit with which it succeeds.

  The result is an \<open>option\<close> (panic) of a \<open>result\<close>.  The loop of the search is a recursive function with a
  termination proof; its midpoint starts anywhere, so that the first step is not a bisection.
\<close>

section \<open>The handler\<close>

fun convert_transact_out :: "Output option \<Rightarrow> bytes" where
  "convert_transact_out None = []"
| "convert_transact_out (Some (OutputCall out)) = out"
| "convert_transact_out (Some (OutputCreate out _)) = out"

definition ensure_return_ok :: "InstructionResult \<Rightarrow> Output option \<Rightarrow> (bytes, 'e BlockchainError) result" where
  "ensure_return_ok exit out =
     (if return_ok exit then Ok (convert_transact_out out)
      else if return_revert exit then Err (BeInvalidTransaction (RevertError (Some (convert_transact_out out))))
      else Err (BeEvmError exit))"

fun request_tx_kind :: "TypedTransactionRequest \<Rightarrow> TransactionKind" where
  "request_tx_kind (ReqLegacy req) = lr_kind req"
| "request_tx_kind (ReqEIP1559 req) = dr_kind req"
| "request_tx_kind (ReqEIP2930 req) = ar_kind req"

definition determine_base_gas_by_kind :: "EthTransactionRequest \<Rightarrow> U256 option" where
  "determine_base_gas_by_kind request = do {
     t \<leftarrow> into_typed_request request;
     Some (case t of
         Some req \<Rightarrow> (case request_tx_kind req of Call _ \<Rightarrow> MIN_TRANSACTION_GAS | Create \<Rightarrow> MIN_CREATE_GAS)
       | None \<Rightarrow> MIN_CREATE_GAS)
   }"

text \<open>
  \<open>call\<close> is \<open>self.backend.call_with_state(&state, _, fees, block_env)\<close> and \<open>limit\<close> is
  \<open>backend.gas_limit()\<close>.
\<close>

definition map_out_of_gas_err ::
  "(EthTransactionRequest \<Rightarrow> ('e, 's) call_result option) \<Rightarrow> U256 \<Rightarrow> EthTransactionRequest \<Rightarrow> U256 \<Rightarrow>
    'e BlockchainError option" where
  "map_out_of_gas_err call limit request gas_limit = do {
     r \<leftarrow> call (request\<lparr>er_gas := Some limit\<rparr>);
     Some (case r of
         Err err \<Rightarrow> err
       | Ok (exit, out, _, _) \<Rightarrow>
          if return_ok exit then BeInvalidTransaction (BasicOutOfGas gas_limit)
          else if return_revert exit then BeInvalidTransaction (RevertError (Some (convert_transact_out out)))
          else BeEvmError exit)
   }"

fun is_gas_too_high :: "('e, 's) call_result \<Rightarrow> bool" where
  "is_gas_too_high (Err (BeInvalidTransaction (GasTooHigh _))) = True"
| "is_gas_too_high _ = False"

text \<open>What one round of the search learns from the call with the current midpoint.\<close>

datatype 'e probe = Enough | TooLittle | Failed "'e BlockchainError"

definition probe_of :: "('e, 's) call_result \<Rightarrow> 'e probe" where
  "probe_of r =
     (if is_gas_too_high r then TooLittle
      else case r of
          Ok (exit, _, _, _) \<Rightarrow>
            if return_ok exit then Enough
            else if exit \<in> {Revert, OutOfGas, OutOfFund} then TooLittle
            else Failed (BeEvmError exit)
        | Err reason \<Rightarrow> Failed reason)"

lemma unat_midpoint: "add_chk h l = Some s \<Longrightarrow> unat (s div 2 :: U256) = (unat h + unat l) div 2"
  by (simp add: unat_div unat_add_chk)

lemma wide: "sub_chk h l = Some d \<Longrightarrow> (1 :: U256) < d \<longleftrightarrow> Suc (unat l) < unat h"
  by (auto dest!: unat_sub_chk simp: word_less_nat_alt)

definition bisecting :: "U256 \<Rightarrow> U256 \<Rightarrow> U256 \<Rightarrow> bool" where
  "bisecting lowest highest mid \<longleftrightarrow> unat mid = (unat highest + unat lowest) div 2"

lemma bisecting_midpoint: "add_chk h l = Some s \<Longrightarrow> bisecting l h (s div 2)"
  by (simp add: bisecting_def unat_midpoint)

text \<open>
  The \<open>while\<close> loop.  Both branches that go on compute \<open>(highest + lowest) / 2\<close> from the new bounds; the
  subtraction of the loop's condition and this addition can overflow.
\<close>

function gas_search ::
  "(EthTransactionRequest \<Rightarrow> ('e, 's) call_result option) \<Rightarrow> EthTransactionRequest \<Rightarrow> U256 \<Rightarrow> U256 \<Rightarrow> U256 \<Rightarrow>
    (U256, 'e BlockchainError) result option" where
  "gas_search call request lowest highest mid =
     (case sub_chk highest lowest of
        None \<Rightarrow> None
      | Some d \<Rightarrow>
         if \<not> 1 < d then Some (Ok highest)
         else (case call (request\<lparr>er_gas := Some mid\<rparr>) of
             None \<Rightarrow> None
           | Some r \<Rightarrow> (case probe_of r of
                 Failed reason \<Rightarrow> Some (Err reason)
               | Enough \<Rightarrow> (case add_chk mid lowest of
                     None \<Rightarrow> None
                   | Some s \<Rightarrow> gas_search call request lowest mid (s div 2))
               | TooLittle \<Rightarrow> (case add_chk highest mid of
                     None \<Rightarrow> None
                   | Some s \<Rightarrow> gas_search call request mid highest (s div 2)))))"
  by pat_completeness auto
termination
proof (relation "measures [\<lambda>(c, r, l, h, m). if bisecting l h m then 0 else (1 :: nat),
                           \<lambda>(c, r, l, h, m). unat h - unat l]", goal_cases)
  case 1
  show ?case by simp
next
  case (2 call request lowest highest mid d r s)
  then show ?case
    using wide [OF 2(1)] bisecting_midpoint [OF 2(5)] by (auto simp: bisecting_def)
next
  case (3 call request lowest highest mid d r s)
  then show ?case
    using wide [OF 3(1)] bisecting_midpoint [OF 3(5)] by (auto simp: bisecting_def)
qed

declare gas_search.simps [simp del]

text \<open>
  \<open>EthApi::do_estimate_gas_with_state\<close>.  \<open>env\<close> and \<open>fm\<close> are the backend's environment and fee manager.
\<close>

definition is_simple_transfer :: "('d, 'e, 'l, 's, 't) node_lib \<Rightarrow> 'd \<Rightarrow> EthTransactionRequest \<Rightarrow> bool" where
  "is_simple_transfer lib state request \<longleftrightarrow>
     (case er_data request of Some d \<Rightarrow> d = [] | None \<Rightarrow> True) \<and>
     (case er_to request of Some to \<Rightarrow> get_code_with_state lib state to = Ok [] | None \<Rightarrow> False)"

text \<open>The highest gas limit, capped by what the sender can pay for.\<close>

definition highest_gas_limit ::
  "('d, 'e, 'l, 's, 't) node_lib \<Rightarrow> 'd \<Rightarrow> EthTransactionRequest \<Rightarrow> FeeDetails \<Rightarrow> BlockEnv \<Rightarrow>
    (U256, 'e BlockchainError) result" where
  "highest_gas_limit lib state request fees block_env =
     (let highest = unwrap_or (er_gas request) (be_gas_limit block_env);
          gas_price = unwrap_or (fd_gas_price fees) 0
      in case er_from request of
           None \<Rightarrow> Ok highest
         | Some from \<Rightarrow>
            if 0 < gas_price then
              and_then (get_balance_with_state lib state from) (\<lambda>available_funds.
                let value = unwrap_or (er_value request) 0 in
                if available_funds < value then Err (BeInvalidTransaction InsufficientFunds)
                else Ok (min highest ((available_funds - value) div gas_price)))
            else Ok highest)"

definition do_estimate_gas_with_state ::
  "('d, 'e, 'l, 's, 't) node_lib \<Rightarrow> FeeManager \<Rightarrow> EvmEnv \<Rightarrow> EthTransactionRequest \<Rightarrow> 'd \<Rightarrow> BlockEnv \<Rightarrow>
    (U256, 'e BlockchainError) result option" where
  "do_estimate_gas_with_state lib fm env request state block_env =
     (if is_simple_transfer lib state request then Some (Ok MIN_TRANSACTION_GAS)
      else case fd_new (er_gas_price request) (er_max_fee_per_gas request)
                  (er_max_priority_fee_per_gas request) of
        Err e \<Rightarrow> Some (Err (from_fee_error e))
      | Ok fee_details \<Rightarrow>
         (let fees = or_zero_fees fee_details;
              call = (\<lambda>r. call_with_state lib fm env state r fees block_env);
              limit = be_gas_limit (ev_block env);
              has_gas = (er_gas request \<noteq> None \<or> er_gas_price request \<noteq> None)
          in case highest_gas_limit lib state request fees block_env of
               Err e \<Rightarrow> Some (Err e)
             | Ok highest \<Rightarrow>
                (let gas_limit = min (unwrap_or (er_gas request) highest) highest in do {
                   ethres \<leftarrow> call (request\<lparr>er_gas := Some gas_limit\<rparr>);
                   if is_gas_too_high ethres \<and> has_gas then
                     map_option Err (map_out_of_gas_err call limit request gas_limit)
                   else case ethres of
                     Err e \<Rightarrow> Some (Err e)
                   | Ok (exit, out, gas, _) \<Rightarrow>
                      if return_ok exit then do {
                        lowest \<leftarrow> determine_base_gas_by_kind request;
                        gas3 \<leftarrow> mul_chk (ucast gas) 3;
                        s \<leftarrow> add_chk highest lowest;
                        gas_search call request lowest highest (min gas3 (s div 2))
                      }
                      else if exit \<in> {OutOfGas, OutOfFund} then
                        Some (Err (BeInvalidTransaction (BasicOutOfGas gas_limit)))
                      else if return_revert exit then
                        if has_gas then map_option Err (map_out_of_gas_err call limit request gas_limit)
                        else Some (Err (BeInvalidTransaction (RevertError (Some (convert_transact_out out)))))
                      else Some (Err (BeEvmError exit))
                 })))"

section \<open>The search\<close>

definition succeeds :: "(EthTransactionRequest \<Rightarrow> ('e, 's) call_result option) \<Rightarrow> EthTransactionRequest \<Rightarrow> U256 \<Rightarrow> bool" where
  "succeeds call request g \<longleftrightarrow>
     (case call (request\<lparr>er_gas := Some g\<rparr>) of Some (Ok (exit, _)) \<Rightarrow> return_ok exit | _ \<Rightarrow> False)"

definition lacks_gas :: "(EthTransactionRequest \<Rightarrow> ('e, 's) call_result option) \<Rightarrow> EthTransactionRequest \<Rightarrow> U256 \<Rightarrow> bool" where
  "lacks_gas call request g \<longleftrightarrow>
     (case call (request\<lparr>er_gas := Some g\<rparr>) of Some r \<Rightarrow> probe_of r = TooLittle | None \<Rightarrow> False)"

lemma probe_Enough: "probe_of r = Enough \<longleftrightarrow> (\<exists>exit out. r = Ok (exit, out) \<and> return_ok exit)"
  by (auto simp: probe_of_def split: result.splits prod.splits if_splits)

lemma succeeds_iff:
  "succeeds call request g \<longleftrightarrow> (\<exists>r. call (request\<lparr>er_gas := Some g\<rparr>) = Some r \<and> probe_of r = Enough)"
  by (auto simp: succeeds_def probe_Enough split: option.splits result.splits prod.splits)

lemma lacks_gas_iff:
  "lacks_gas call request g \<longleftrightarrow> (\<exists>r. call (request\<lparr>er_gas := Some g\<rparr>) = Some r \<and> probe_of r = TooLittle)"
  by (auto simp: lacks_gas_def split: option.splits)

lemma not_both: "succeeds call request g \<Longrightarrow> \<not> lacks_gas call request g"
  by (auto simp: succeeds_iff lacks_gas_iff)

text \<open>The runs of the loop that return a gas limit, as a case rule and an induction rule.\<close>

lemma gas_search_Ok_cases:
  assumes "gas_search call request l h m = Some (Ok g)"
  obtains (stop) "unat l \<le> unat h" "unat h \<le> Suc (unat l)" "g = h"
  | (enough) s where "Suc (unat l) < unat h" "succeeds call request m" "add_chk m l = Some s"
      "gas_search call request l m (s div 2) = Some (Ok g)"
  | (little) s where "Suc (unat l) < unat h" "lacks_gas call request m" "add_chk h m = Some s"
      "gas_search call request m h (s div 2) = Some (Ok g)"
proof -
  note step = assms [unfolded gas_search.simps [of call request l h m]]
  obtain d where d: "sub_chk h l = Some d"
    using step by (cases "sub_chk h l") simp_all
  show thesis
  proof (cases "1 < d")
    case False
    have "unat l \<le> unat h" using unat_sub_chk [OF d] by simp
    moreover have "unat h \<le> Suc (unat l)" using False wide [OF d] by (simp only: not_less)
    moreover have "g = h" using step d False by simp
    ultimately show thesis by (rule stop)
  next
    case True
    then have w: "Suc (unat l) < unat h" using wide [OF d] by simp
    obtain r where r: "call (request\<lparr>er_gas := Some m\<rparr>) = Some r"
      using step d True by (cases "call (request\<lparr>er_gas := Some m\<rparr>)") simp_all
    show thesis
    proof (cases "probe_of r")
      case Enough
      then show thesis
        using step d True r w enough by (cases "add_chk m l") (auto simp: succeeds_iff)
    next
      case TooLittle
      then show thesis
        using step d True r w little by (cases "add_chk h m") (auto simp: lacks_gas_iff)
    next
      case (Failed e)
      then show thesis using step d True r by simp
    qed
  qed
qed

lemma gas_search_induct [consumes 1, case_names stop enough little]:
  assumes "gas_search call request l h m = Some (Ok g)"
    and "\<And>l h m. unat l \<le> unat h \<Longrightarrow> unat h \<le> Suc (unat l) \<Longrightarrow> P l h m h"
    and "\<And>l h m s g. Suc (unat l) < unat h \<Longrightarrow> succeeds call request m \<Longrightarrow> add_chk m l = Some s \<Longrightarrow>
      gas_search call request l m (s div 2) = Some (Ok g) \<Longrightarrow> P l m (s div 2) g \<Longrightarrow> P l h m g"
    and "\<And>l h m s g. Suc (unat l) < unat h \<Longrightarrow> lacks_gas call request m \<Longrightarrow> add_chk h m = Some s \<Longrightarrow>
      gas_search call request m h (s div 2) = Some (Ok g) \<Longrightarrow> P m h (s div 2) g \<Longrightarrow> P l h m g"
  shows "P l h m g"
proof -
  let ?fs = "[\<lambda>x. if (case x of (l, h, m) \<Rightarrow> bisecting l h m) then 0 else (1 :: nat),
    \<lambda>x. case x of (l, h, m) \<Rightarrow> unat h - unat l]"
  have "\<forall>l h m. x = (l, h, m) \<longrightarrow> gas_search call request l h m = Some (Ok g) \<longrightarrow> P l h m g" for x
  proof (induction x rule: wf_induct_rule [OF wf_measures [of "?fs"]])
    case (1 x)
    show ?case
    proof (intro allI impI)
      fix l h m
      assume x: "x = (l, h, m)" and run: "gas_search call request l h m = Some (Ok g)"
      from run show "P l h m g"
      proof (cases rule: gas_search_Ok_cases)
        case stop
        then show ?thesis using assms(2) by simp
      next
        case (enough s)
        have "((l, m, s div 2), x) \<in> measures ?fs"
          using enough(1) bisecting_midpoint [OF enough(3)] by (auto simp: x bisecting_def)
        then show ?thesis using 1 enough assms(3) by blast
      next
        case (little s)
        have "((m, h, s div 2), x) \<in> measures ?fs"
          using little(1) bisecting_midpoint [OF little(3)] by (auto simp: x bisecting_def)
        then show ?thesis using 1 little assms(4) by blast
      qed
    qed
  qed
  then show ?thesis using assms(1) by blast
qed

lemma gas_search_lower:
  "gas_search call request l h m = Some (Ok g) \<Longrightarrow> bisecting l h m \<longrightarrow> unat l \<le> unat g"
proof (induction rule: gas_search_induct)
  case (enough l h m s g)
  then show ?case using bisecting_midpoint by blast
next
  case (little l h m s g)
  then show ?case using bisecting_midpoint [OF little(3)] by (auto simp: bisecting_def)
qed simp

text \<open>
  The limit found is the initial upper bound or one the call was seen to succeed with, and it cannot be
  lowered: it is next to the initial lower bound or to a limit the call was seen to run out of gas with.
\<close>

lemma gas_search_tight:
  assumes "gas_search call request l h m = Some (Ok g)" "unat m \<le> (unat h + unat l) div 2"
  shows "(g = h \<or> succeeds call request g) \<and> unat g \<le> unat h \<and>
    (unat g \<le> Suc (unat l) \<or> lacks_gas call request (g - 1) \<and> g \<noteq> 0)"
  using assms
proof (induction rule: gas_search_induct)
  case (enough l h m s g)
  then show ?case using unat_midpoint [OF enough(3)] by auto
next
  case (little l h m s g)
  have less: "unat m < unat h" using little(1,6) by linarith
  have ih: "(g = h \<or> succeeds call request g) \<and> unat g \<le> unat h \<and>
    (unat g \<le> Suc (unat m) \<or> lacks_gas call request (g - 1) \<and> g \<noteq> 0)"
    using little(5) unat_midpoint [OF little(3)] by simp
  have "unat m \<le> unat g"
    using gas_search_lower [OF little(4)] bisecting_midpoint [OF little(3)] by blast
  moreover have "g \<noteq> m"
    using ih less little(2) not_both by blast
  ultimately have "unat m < unat g" by (simp add: order_less_le word_unat_eq_iff)
  moreover have "g - 1 = m \<and> g \<noteq> 0" if "unat g = Suc (unat m)"
    using that by (simp add: word_unat_eq_iff unat_sub word_le_nat_alt)
  ultimately show ?case using ih little(2) by (metis Suc_leI le_antisym)
qed simp_all

section \<open>Number of rounds\<close>

text \<open>The loop with at most \<open>n\<close> tests of its condition; \<open>None\<close> when it has not ended by then.\<close>

fun gas_search_n ::
  "nat \<Rightarrow> (EthTransactionRequest \<Rightarrow> ('e, 's) call_result option) \<Rightarrow> EthTransactionRequest \<Rightarrow> U256 \<Rightarrow> U256 \<Rightarrow> U256 \<Rightarrow>
    (U256, 'e BlockchainError) result option option" where
  "gas_search_n 0 call request lowest highest mid = None"
| "gas_search_n (Suc n) call request lowest highest mid =
     (case sub_chk highest lowest of
        None \<Rightarrow> Some None
      | Some d \<Rightarrow>
         if \<not> 1 < d then Some (Some (Ok highest))
         else (case call (request\<lparr>er_gas := Some mid\<rparr>) of
             None \<Rightarrow> Some None
           | Some r \<Rightarrow> (case probe_of r of
                 Failed reason \<Rightarrow> Some (Some (Err reason))
               | Enough \<Rightarrow> (case add_chk mid lowest of
                     None \<Rightarrow> Some None
                   | Some s \<Rightarrow> gas_search_n n call request lowest mid (s div 2))
               | TooLittle \<Rightarrow> (case add_chk highest mid of
                     None \<Rightarrow> Some None
                   | Some s \<Rightarrow> gas_search_n n call request mid highest (s div 2)))))"

lemma gas_search_n_step:
  assumes "\<And>s. Suc (unat l) < unat h \<Longrightarrow> add_chk m l = Some s \<Longrightarrow>
      gas_search_n n call request l m (s div 2) = Some (gas_search call request l m (s div 2))"
    and "\<And>s. Suc (unat l) < unat h \<Longrightarrow> add_chk h m = Some s \<Longrightarrow>
      gas_search_n n call request m h (s div 2) = Some (gas_search call request m h (s div 2))"
  shows "gas_search_n (Suc n) call request l h m = Some (gas_search call request l h m)"
proof -
  have "Suc (unat l) < unat h" if "sub_chk h l = Some d" "1 < d" for d
    using that wide by blast
  then show ?thesis
    by (subst gas_search.simps) (simp add: assms split: option.split probe.split)
qed

lemma gas_search_n_bisecting:
  "bisecting l h m \<Longrightarrow> unat h - unat l \<le> 2 ^ n \<Longrightarrow>
    gas_search_n (Suc n) call request l h m = Some (gas_search call request l h m)"
proof (induction n arbitrary: l h m)
  case 0
  show ?case by (rule gas_search_n_step) (use 0 in simp_all)
next
  case (Suc n)
  show ?case
  proof (rule gas_search_n_step)
    fix s
    assume "Suc (unat l) < unat h" "add_chk m l = Some s"
    then show "gas_search_n (Suc n) call request l m (s div 2) = Some (gas_search call request l m (s div 2))"
      using Suc.prems by (intro Suc.IH bisecting_midpoint) (auto simp: bisecting_def)
  next
    fix s
    assume "Suc (unat l) < unat h" "add_chk h m = Some s"
    then show "gas_search_n (Suc n) call request m h (s div 2) = Some (gas_search call request m h (s div 2))"
      using Suc.prems by (intro Suc.IH bisecting_midpoint) (auto simp: bisecting_def)
  qed
qed

text \<open>
  The search of \<open>eth_estimateGas\<close> ends: whatever the EVM answers and wherever the midpoint starts, the
  loop's condition is tested at most 258 times, so that the handler makes at most 258 calls after the
  first one.
\<close>

theorem gas_search_bound:
  "gas_search_n 258 call request lowest highest mid = Some (gas_search call request lowest highest mid)"
proof -
  define k :: nat where "k = 256"
  have k: "gas_search_n (Suc k) call request l h m = Some (gas_search call request l h m)"
    if "bisecting l h m" for l h m
  proof (rule gas_search_n_bisecting [OF that])
    show "unat h - unat l \<le> 2 ^ k"
      using unat_word_less [of h] by (simp add: k_def)
  qed
  have "gas_search_n (Suc (Suc k)) call request lowest highest mid =
      Some (gas_search call request lowest highest mid)"
    by (rule gas_search_n_step) (rule k, erule bisecting_midpoint)+
  moreover have "Suc (Suc k) = 258" by (simp add: k_def)
  ultimately show ?thesis by (simp only:)
qed

section \<open>Totality\<close>

lemma gas_search_bisecting_returns:
  assumes total: "\<And>g. unat g \<le> cap \<Longrightarrow> succeeds call request g \<or> lacks_gas call request g"
    and cap: "cap + cap < 2 ^ 256"
  shows "bisecting l h m \<Longrightarrow> unat l \<le> unat h \<Longrightarrow> unat h \<le> cap \<Longrightarrow> unat h - unat l \<le> n \<Longrightarrow>
    \<exists>g. gas_search call request l h m = Some (Ok g)"
proof (induction n arbitrary: l h m)
  case 0
  then have d: "sub_chk h l = Some (h - l)" "\<not> 1 < h - l"
    by (auto simp: sub_chk_def word_le_nat_alt word_less_nat_alt unat_sub)
  then show ?case by (subst gas_search.simps) simp
next
  case (Suc n)
  have d: "sub_chk h l = Some (h - l)" using Suc.prems(2) by (simp add: sub_chk_def word_le_nat_alt)
  show ?case
  proof (cases "1 < h - l")
    case False
    then show ?thesis by (subst gas_search.simps) (simp add: d)
  next
    case True
    then have m: "unat l < unat m" "unat m < unat h"
      using wide [OF d] Suc.prems(1) by (auto simp: bisecting_def)
    consider "succeeds call request m" | "lacks_gas call request m"
      using total [of m] m Suc.prems(3) by fastforce
    then show ?thesis
    proof cases
      case 1
      then obtain r where r: "call (request\<lparr>er_gas := Some m\<rparr>) = Some r" "probe_of r = Enough"
        by (auto simp: succeeds_iff)
      obtain s where s: "add_chk m l = Some s"
        using m Suc.prems(3) cap by (simp add: add_chk_def)
      have "\<exists>g. gas_search call request l m (s div 2) = Some (Ok g)"
        using m Suc.prems by (intro Suc.IH bisecting_midpoint [OF s]) auto
      then show ?thesis by (subst gas_search.simps) (simp add: d True r s)
    next
      case 2
      then obtain r where r: "call (request\<lparr>er_gas := Some m\<rparr>) = Some r" "probe_of r = TooLittle"
        by (auto simp: lacks_gas_iff)
      obtain s where s: "add_chk h m = Some s"
        using m Suc.prems(3) cap by (simp add: add_chk_def)
      have "\<exists>g. gas_search call request m h (s div 2) = Some (Ok g)"
        using m Suc.prems by (intro Suc.IH bisecting_midpoint [OF s]) auto
      then show ?thesis by (subst gas_search.simps) (simp add: d True r s)
    qed
  qed
qed

lemma gas_search_returns:
  assumes total: "\<And>g. unat g \<le> cap \<Longrightarrow> succeeds call request g \<or> lacks_gas call request g"
    and cap: "cap + cap < 2 ^ 256"
    and bounds: "unat l \<le> unat h" "unat h \<le> cap" "unat m \<le> unat h"
    and enough: "succeeds call request m \<Longrightarrow> unat l \<le> unat m"
  shows "\<exists>g. gas_search call request l h m = Some (Ok g)"
proof -
  have d: "sub_chk h l = Some (h - l)" using bounds(1) by (simp add: sub_chk_def word_le_nat_alt)
  note rec = gas_search_bisecting_returns [where cap = cap and call = call and request = request, OF total cap]
  show ?thesis
  proof (cases "1 < h - l")
    case False
    then show ?thesis by (subst gas_search.simps) (simp add: d)
  next
    case True
    consider "succeeds call request m" | "lacks_gas call request m"
      using total [of m] bounds by fastforce
    then show ?thesis
    proof cases
      case 1
      then obtain r where r: "call (request\<lparr>er_gas := Some m\<rparr>) = Some r" "probe_of r = Enough"
        by (auto simp: succeeds_iff)
      obtain s where s: "add_chk m l = Some s" using bounds cap by (simp add: add_chk_def)
      have "\<exists>g. gas_search call request l m (s div 2) = Some (Ok g)"
        using bounds enough [OF 1] by (intro rec bisecting_midpoint [OF s]) auto
      then show ?thesis by (subst gas_search.simps) (simp add: d True r s)
    next
      case 2
      then obtain r where r: "call (request\<lparr>er_gas := Some m\<rparr>) = Some r" "probe_of r = TooLittle"
        by (auto simp: lacks_gas_iff)
      obtain s where s: "add_chk h m = Some s" using bounds cap by (simp add: add_chk_def)
      have "\<exists>g. gas_search call request m h (s div 2) = Some (Ok g)"
        using bounds by (intro rec bisecting_midpoint [OF s]) auto
      then show ?thesis by (subst gas_search.simps) (simp add: d True r s)
    qed
  qed
qed

section \<open>The handler as a whole\<close>

text \<open>The call that the handler repeats, for the fee details of the request.\<close>

definition estimate_call ::
  "('d, 'e, 'l, 's, 't) node_lib \<Rightarrow> FeeManager \<Rightarrow> EvmEnv \<Rightarrow> 'd \<Rightarrow> BlockEnv \<Rightarrow> FeeDetails \<Rightarrow> EthTransactionRequest \<Rightarrow>
    ('e, 's) call_result option" where
  "estimate_call lib fm env state block_env fee_details r =
     call_with_state lib fm env state r (or_zero_fees fee_details) block_env"

lemma highest_le_gas:
  "highest_gas_limit lib state request fees block_env = Ok highest \<Longrightarrow>
    min (unwrap_or (er_gas request) highest) highest = highest"
  by (cases "er_gas request"; cases "er_from request")
    (auto simp: highest_gas_limit_def Let_def min_def split: if_splits elim!: and_then.elims)

text \<open>The handler on a request that is no simple transfer, once the first call has succeeded.\<close>

lemma estimate_search:
  assumes "\<not> is_simple_transfer lib state request"
    and "fd_new (er_gas_price request) (er_max_fee_per_gas request) (er_max_priority_fee_per_gas request) = Ok fd"
    and "highest_gas_limit lib state request (or_zero_fees fd) block_env = Ok highest"
    and ok: "succeeds (estimate_call lib fm env state block_env fd) request highest"
  obtains gas where "do_estimate_gas_with_state lib fm env request state block_env = do {
      lowest \<leftarrow> determine_base_gas_by_kind request;
      gas3 \<leftarrow> mul_chk (ucast (gas :: u64)) 3;
      s \<leftarrow> add_chk highest lowest;
      gas_search (estimate_call lib fm env state block_env fd) request lowest highest (min gas3 (s div 2))
    }"
proof -
  obtain exit out gas st where call:
    "estimate_call lib fm env state block_env fd (request\<lparr>er_gas := Some highest\<rparr>) = Some (Ok (exit, out, gas, st))"
    and exit: "return_ok exit"
    using ok by (auto simp: succeeds_def split: option.splits result.splits)
  have e: "estimate_call lib fm env state block_env fd =
      (\<lambda>r. call_with_state lib fm env state r (or_zero_fees fd) block_env)"
    by (simp add: estimate_call_def fun_eq_iff)
  have "do_estimate_gas_with_state lib fm env request state block_env = do {
      lowest \<leftarrow> determine_base_gas_by_kind request;
      gas3 \<leftarrow> mul_chk (ucast gas) 3;
      s \<leftarrow> add_chk highest lowest;
      gas_search (estimate_call lib fm env state block_env fd) request lowest highest (min gas3 (s div 2))
    }"
    using assms(1-3) call exit
    by (simp add: do_estimate_gas_with_state_def Let_def highest_le_gas e)
  then show thesis by (rule that)
qed

lemma estimate_Ok:
  assumes "do_estimate_gas_with_state lib fm env request state block_env = Some (Ok g)"
    and "\<not> is_simple_transfer lib state request"
  obtains fd highest where
    "fd_new (er_gas_price request) (er_max_fee_per_gas request) (er_max_priority_fee_per_gas request) = Ok fd"
    "highest_gas_limit lib state request (or_zero_fees fd) block_env = Ok highest"
    "succeeds (estimate_call lib fm env state block_env fd) request highest"
proof -
  obtain fd where fd:
    "fd_new (er_gas_price request) (er_max_fee_per_gas request) (er_max_priority_fee_per_gas request) = Ok fd"
    using assms
    by (cases "fd_new (er_gas_price request) (er_max_fee_per_gas request) (er_max_priority_fee_per_gas request)")
      (simp_all add: do_estimate_gas_with_state_def)
  obtain highest where highest: "highest_gas_limit lib state request (or_zero_fees fd) block_env = Ok highest"
    using assms fd
    by (cases "highest_gas_limit lib state request (or_zero_fees fd) block_env")
      (simp_all add: do_estimate_gas_with_state_def Let_def)
  have "succeeds (estimate_call lib fm env state block_env fd) request highest"
    using assms fd highest highest_le_gas [OF highest]
    by (auto simp: do_estimate_gas_with_state_def Let_def succeeds_def estimate_call_def
        split: option.splits result.splits if_splits bind_splits)
  then show thesis using fd highest that by blast
qed

section \<open>A concrete EVM\<close>

text \<open>
  A call costs 21003 gas; below the 21000 of a transaction it is refused.  \<open>ex_lib\<close> answers every read of
  the database with an absent account.
\<close>

definition ex_evm :: "EvmEnv \<Rightarrow> (unit ExecutionResult \<times> unit, unit EVMError) result" where
  "ex_evm ev =
     (if te_gas_limit (ev_tx ev) < 21000 then Err (EvTransaction RvCallGasCostMoreThanGasLimit)
      else if te_gas_limit (ev_tx ev) < 21003 then Ok (Halted HaltOutOfGas (te_gas_limit (ev_tx ev)), ())
      else Ok (Success EvalStop 21003 [] (OutputCall []), ()))"

definition ex_lib :: "(unit, unit, unit, unit, unit) node_lib" where
  "ex_lib = \<lparr>nl_inspect_ref = (\<lambda>ev _. ex_evm ev),
     nl_inspect_commit = (\<lambda>ev _ d. (map_ok fst (ex_evm ev), (), d)), nl_basic = (\<lambda>_ _. Ok None),
     nl_code_by_hash = (\<lambda>_ _. Ok []), nl_keccak_empty = 0,
     nl_forks = \<lparr>hf_spurious_dragon = 5, hf_berlin = 11, hf_london = 12, hf_merge = 15\<rparr>\<rparr>"

definition ex_block :: BlockEnv where
  "ex_block = \<lparr>be_number = 1, be_coinbase = 0, be_timestamp = 0, be_difficulty = 0, be_prevrandao = None,
     be_basefee = 0, be_gas_limit = 21004\<rparr>"

definition ex_env :: EvmEnv where
  "ex_env = \<lparr>ev_cfg = \<lparr>ce_spec_id = 12, ce_chain_id = 1, ce_disable_block_gas_limit = False,
       ce_disable_base_fee = False, ce_disable_eip3607 = True\<rparr>,
     ev_block = ex_block,
     ev_tx = \<lparr>te_caller = 0, te_gas_limit = 0, te_gas_price = 0, te_gas_priority_fee = None,
       te_transact_to = TransactCreate, te_value = 0, te_data = [], te_chain_id = None, te_nonce = None,
       te_access_list = []\<rparr>\<rparr>"

definition ex_fm :: FeeManager where "ex_fm = fm_new 12 0 0"

definition ex_call :: EthTransactionRequest where
  "ex_call = \<lparr>er_from = None, er_to = Some 7, er_gas_price = None, er_max_fee_per_gas = None,
     er_max_priority_fee_per_gas = None, er_gas = None, er_value = None, er_data = Some [1],
     er_nonce = None, er_chain_id = None, er_access_list = None, er_transaction_type = None\<rparr>"

lemma ex_call_at:
  assumes "er_nonce r = None"
  shows "estimate_call ex_lib ex_fm ex_env () ex_block fd (r\<lparr>er_gas := Some g\<rparr>) =
     (if 2 ^ 64 \<le> unat g then None
      else Some (if unat g < 21000 then Err (BeInvalidTransaction (GasTooHigh ''CallGasCostMoreThanGasLimit''))
        else if unat g < 21003 then Ok (OutOfGas, None, ucast g, ())
        else Ok (Stop, Some (OutputCall []), 21003, ())))"
proof -
  have "(ucast g :: u64) < n \<longleftrightarrow> unat g < unat n" if "unat g < 2 ^ 64" for n
    using that by (simp add: word_less_nat_alt unsigned_ucast_eq take_bit_nat_eq_self)
  then show ?thesis
    using assms by (simp add: estimate_call_def call_with_state_def build_call_env_def ex_lib_def
      ex_evm_def as_u64_def Let_def)
qed

lemma ex_probes:
  assumes "er_nonce r = None" 
  shows "succeeds (estimate_call ex_lib ex_fm ex_env () ex_block fd) r g \<longleftrightarrow> 21003 \<le> unat g \<and> unat g < 2 ^ 64"
    "lacks_gas (estimate_call ex_lib ex_fm ex_env () ex_block fd) r g \<longleftrightarrow> unat g < 21003"
  by (auto simp: succeeds_def lacks_gas_def ex_call_at [OF assms] probe_of_def)

lemma ex_fd: "fd_new (er_gas_price ex_call) (er_max_fee_per_gas ex_call) (er_max_priority_fee_per_gas ex_call) =
   Ok \<lparr>fd_gas_price = None, fd_max_fee_per_gas = None, fd_max_priority_fee_per_gas = None\<rparr>"
  by (simp add: ex_call_def fd_new_def)
lemma ex_highest: "highest_gas_limit ex_lib () ex_call fees ex_block = Ok 21004"
  by (simp add: ex_call_def highest_gas_limit_def ex_block_def Let_def)
lemma ex_base: "determine_base_gas_by_kind ex_call = Some 21000"
  by (simp add: determine_base_gas_by_kind_def into_typed_request_def ex_call_def Let_def MIN_TRANSACTION_GAS_def)

section \<open>Properties\<close>

text \<open>
  An estimate is a gas limit with which the call was seen to succeed, it is not above the limit that
  the request, the block and the sender's funds allow, and it is tight: the call was seen to lack gas
  with one unit less, unless the estimate is at most one above the base cost of the transaction's kind.
  Nothing is assumed of the EVM, in particular not that success is monotone in the gas limit.
\<close>

theorem estimate_tight:
  assumes "do_estimate_gas_with_state lib fm env request state block_env = Some (Ok g)"
    and "\<not> is_simple_transfer lib state request"
  shows "\<exists>fd highest base.
    fd_new (er_gas_price request) (er_max_fee_per_gas request) (er_max_priority_fee_per_gas request) = Ok fd \<and>
    highest_gas_limit lib state request (or_zero_fees fd) block_env = Ok highest \<and>
    determine_base_gas_by_kind request = Some base \<and>
    succeeds (estimate_call lib fm env state block_env fd) request g \<and> g \<le> highest \<and>
    (unat g \<le> unat base + 1 \<or> lacks_gas (estimate_call lib fm env state block_env fd) request (g - 1))"
proof -
  obtain fd highest where fd:
    "fd_new (er_gas_price request) (er_max_fee_per_gas request) (er_max_priority_fee_per_gas request) = Ok fd"
    and highest: "highest_gas_limit lib state request (or_zero_fees fd) block_env = Ok highest"
    and ok: "succeeds (estimate_call lib fm env state block_env fd) request highest"
    by (rule estimate_Ok [OF assms])
  obtain gas where "do_estimate_gas_with_state lib fm env request state block_env = do {
      lowest \<leftarrow> determine_base_gas_by_kind request;
      gas3 \<leftarrow> mul_chk (ucast (gas :: u64)) 3;
      s \<leftarrow> add_chk highest lowest;
      gas_search (estimate_call lib fm env state block_env fd) request lowest highest (min gas3 (s div 2))
    }"
    by (rule estimate_search [OF assms(2) fd highest ok])
  then obtain base gas3 s where base: "determine_base_gas_by_kind request = Some base"
    and s: "add_chk highest base = Some s"
    and run: "gas_search (estimate_call lib fm env state block_env fd) request base highest (min gas3 (s div 2)) =
      Some (Ok g)"
    using assms(1) by (auto split: bind_splits)
  have "unat (min gas3 (s div 2)) \<le> (unat highest + unat base) div 2"
    using unat_midpoint [OF s] by (auto simp: min_def word_le_nat_alt)
  from gas_search_tight [OF run this] ok fd highest base show ?thesis
    by (auto simp: word_le_nat_alt)
qed

lemma ex_not_transfer: "\<not> is_simple_transfer ex_lib () ex_call"
  by (simp add: is_simple_transfer_def ex_call_def)

lemma ex_estimate: "do_estimate_gas_with_state ex_lib ex_fm ex_env ex_call () ex_block = Some (Ok 21003)"
proof -
  define C where "C = estimate_call ex_lib ex_fm ex_env () ex_block
    \<lparr>fd_gas_price = None, fd_max_fee_per_gas = None, fd_max_priority_fee_per_gas = None\<rparr>"
  have nonce: "er_nonce ex_call = None" by (simp add: ex_call_def)
  have search: "gas_search C ex_call 21000 21004 21002 = Some (Ok 21003)"
    by (subst gas_search.simps, simp add: sub_chk_def add_chk_def C_def ex_call_at [OF nonce] probe_of_def,
        subst gas_search.simps, simp add: sub_chk_def add_chk_def ex_call_at [OF nonce] probe_of_def,
        subst gas_search.simps, simp add: sub_chk_def)
  have "C (ex_call\<lparr>er_gas := Some 21004\<rparr>) = Some (Ok (Stop, Some (OutputCall []), 21003, ()))"
    by (simp add: C_def ex_call_at [OF nonce])
  then show ?thesis
    using search
    by (simp add: do_estimate_gas_with_state_def ex_not_transfer ex_fd ex_highest ex_base Let_def
      highest_le_gas [OF ex_highest] C_def estimate_call_def [abs_def] add_chk_def mul_chk_def)
qed

theorem estimate_tight_witness:
  "do_estimate_gas_with_state ex_lib ex_fm ex_env ex_call () ex_block = Some (Ok 21003) \<and>
   (\<exists>fd. succeeds (estimate_call ex_lib ex_fm ex_env () ex_block fd) ex_call 21003)"
  using estimate_tight [OF ex_estimate ex_not_transfer] ex_estimate by blast

text \<open>
  C11: on an EVM for which success is monotone in the gas limit, needs at least the base cost of the
  transaction's kind and otherwise fails for lack of gas, the handler returns the least gas limit that
  the call succeeds with, or one more than it when that least limit is the base cost itself.
\<close>

theorem estimate_least:
  assumes "\<not> is_simple_transfer lib state request"
    and "fd_new (er_gas_price request) (er_max_fee_per_gas request) (er_max_priority_fee_per_gas request) = Ok fd"
    and "highest_gas_limit lib state request (or_zero_fees fd) block_env = Ok highest"
    and "unat highest < 2 ^ 64"
    and base: "determine_base_gas_by_kind request = Some base"
    and call: "call = estimate_call lib fm env state block_env fd"
    and ok: "succeeds call request highest"
    and total: "\<forall>g. g \<le> highest \<longrightarrow> succeeds call request g \<or> lacks_gas call request g"
    and intrinsic: "\<forall>g. succeeds call request g \<longrightarrow> base \<le> g"
    and mono: "\<forall>a b. a \<le> b \<longrightarrow> b \<le> highest \<longrightarrow> succeeds call request a \<longrightarrow> succeeds call request b"
  shows "\<exists>g. do_estimate_gas_with_state lib fm env request state block_env = Some (Ok g) \<and>
    succeeds call request g \<and> (\<forall>g' < g. succeeds call request g' \<longrightarrow> g' = base \<and> g = base + 1)"
proof -
  obtain gas where est: "do_estimate_gas_with_state lib fm env request state block_env = do {
      lowest \<leftarrow> determine_base_gas_by_kind request;
      gas3 \<leftarrow> mul_chk (ucast (gas :: u64)) 3;
      s \<leftarrow> add_chk highest lowest;
      gas_search call request lowest highest (min gas3 (s div 2))
    }"
    unfolding call by (rule estimate_search [OF assms(1-3) ok [unfolded call]])
  have le: "unat base \<le> unat highest" using intrinsic ok by (simp add: word_le_nat_alt)
  obtain s where s: "add_chk highest base = Some s" using le assms(4) by (simp add: add_chk_def)
  have "unat (ucast gas :: U256) = unat gas" by (simp add: unsigned_ucast_eq take_bit_nat_eq_self unat_u64 order_less_trans [OF unat_u64])
  then obtain gas3 where gas3: "mul_chk (ucast gas :: U256) 3 = Some gas3"
    using unat_u64 [of gas] by (simp add: mul_chk_def)
  define m where "m = min gas3 (s div 2)"
  have m: "unat m \<le> (unat highest + unat base) div 2"
    using unat_midpoint [OF s] by (auto simp: m_def min_def word_le_nat_alt)
  have "\<exists>g. gas_search call request base highest m = Some (Ok g)"
    using le m assms(4) total intrinsic
    by (intro gas_search_returns [where cap = "unat highest"]) (auto simp: word_le_nat_alt)
  then obtain g where g: "gas_search call request base highest m = Some (Ok g)" by blast
  note tight = gas_search_tight [OF g m]
  have "g' = base \<and> g = base + 1" if less: "g' < g" and s': "succeeds call request g'" for g'
  proof -
    have le': "unat base \<le> unat g'" "unat g' < unat g"
      using intrinsic s' less by (auto simp: word_le_nat_alt word_less_nat_alt)
    have "unat (g - 1) = unat g - 1"
      using le' by (intro unat_minus_one) auto
    then have "g' \<le> g - 1" "g - 1 \<le> highest"
      using le' tight by (auto simp: word_le_nat_alt)
    then have "\<not> lacks_gas call request (g - 1)"
      using mono s' not_both by blast
    then have eq: "unat g = unat base + 1" "unat g' = unat base" using tight le' by auto
    then have "unat (base + 1) = unat base + 1"
      using unat_word_less [of g] by (simp add: unat_word_ariths)
    then show ?thesis using eq by (simp add: word_unat_eq_iff)
  qed
  then show ?thesis using est base s gas3 g tight ok by (auto simp: m_def)
qed

theorem estimate_least_witness:
  "\<exists>g. do_estimate_gas_with_state ex_lib ex_fm ex_env ex_call () ex_block = Some (Ok g)"
proof -
  define fd where "fd = \<lparr>fd_gas_price = None :: U256 option, fd_max_fee_per_gas = None :: U256 option,
    fd_max_priority_fee_per_gas = None :: U256 option\<rparr>"
  have nonce: "er_nonce ex_call = None" by (simp add: ex_call_def)
  note probes = ex_probes [OF nonce, of fd]
  have "\<forall>g :: U256. g \<le> 21004 \<longrightarrow> 21003 \<le> unat g \<and> unat g < 2 ^ 64 \<or> unat g < 21003"
    by (auto simp: word_le_nat_alt)
  then show ?thesis
    using estimate_least [OF ex_not_transfer ex_fd [folded fd_def] ex_highest _ ex_base refl, of ex_fm ex_env,
        unfolded probes] by (auto simp: word_le_nat_alt)
qed

text \<open>
  C35: two kinds of request make the handler panic.  A gas limit of 64 bits or more is converted with
  \<open>as_u64\<close> before the first call.  And for a request that is none of the typed transactions (a gas price
  together with the type 2, for example) the search starts from the cost of a contract creation: when the
  call succeeds with less than that, \<open>highest_gas_limit - lowest_gas_limit\<close> underflows.
\<close>

theorem estimate_panics:
  assumes "\<not> is_simple_transfer lib state request"
    and "fd_new (er_gas_price request) (er_max_fee_per_gas request) (er_max_priority_fee_per_gas request) = Ok fd"
    and "highest_gas_limit lib state request (or_zero_fees fd) block_env = Ok highest"
    and "2 ^ 64 \<le> unat highest \<or>
      succeeds (estimate_call lib fm env state block_env fd) request highest \<and>
      into_typed_request request = Some None \<and> highest < MIN_CREATE_GAS"
  shows "do_estimate_gas_with_state lib fm env request state block_env = None"
  using assms(4)
proof
  assume "2 ^ 64 \<le> unat highest"
  then have "call_with_state lib fm env state (request\<lparr>er_gas := Some highest\<rparr>) (or_zero_fees fd) block_env = None"
    by (simp add: call_with_state_def build_call_env_def as_u64_def Let_def)
  then show ?thesis
    using assms(1-3) by (simp add: do_estimate_gas_with_state_def Let_def highest_le_gas)
next
  assume *: "succeeds (estimate_call lib fm env state block_env fd) request highest \<and>
      into_typed_request request = Some None \<and> highest < MIN_CREATE_GAS"
  then have "determine_base_gas_by_kind request = Some MIN_CREATE_GAS"
    by (simp add: determine_base_gas_by_kind_def)
  moreover have "gas_search call request MIN_CREATE_GAS highest m = None"
    for call :: "EthTransactionRequest \<Rightarrow> ('b, 'd) call_result option" and m
  proof -
    have "sub_chk highest MIN_CREATE_GAS = None" using * by (simp add: sub_chk_def not_le)
    then show ?thesis by (subst gas_search.simps) simp
  qed
  moreover obtain gas where "do_estimate_gas_with_state lib fm env request state block_env = do {
      lowest \<leftarrow> determine_base_gas_by_kind request;
      gas3 \<leftarrow> mul_chk (ucast (gas :: u64)) 3;
      s \<leftarrow> add_chk highest lowest;
      gas_search (estimate_call lib fm env state block_env fd) request lowest highest (min gas3 (s div 2))
    }"
    by (rule estimate_search [OF assms(1-3)]) (use * in blast)
  ultimately show ?thesis by (simp split: bind_splits)
qed

definition ex_untyped :: EthTransactionRequest where
  "ex_untyped = ex_call\<lparr>er_gas_price := Some 1, er_transaction_type := Some 2\<rparr>"

theorem estimate_panics_witness:
  "do_estimate_gas_with_state ex_lib ex_fm ex_env ex_untyped () ex_block = None"
proof -
  define fd where "fd = \<lparr>fd_gas_price = Some 1 :: U256 option, fd_max_fee_per_gas = Some 1 :: U256 option,
    fd_max_priority_fee_per_gas = Some 1 :: U256 option\<rparr>"
  have "er_nonce ex_untyped = None" by (simp add: ex_untyped_def ex_call_def)
  note probes = ex_probes [OF this, of fd]
  have "succeeds (estimate_call ex_lib ex_fm ex_env () ex_block fd) ex_untyped 21004"
    by (simp add: probes)
  then have "2 ^ 64 \<le> unat (21004 :: U256) \<or>
      succeeds (estimate_call ex_lib ex_fm ex_env () ex_block fd) ex_untyped 21004 \<and>
      into_typed_request ex_untyped = Some None \<and> 21004 < MIN_CREATE_GAS"
    by (simp add: into_typed_request_def ex_untyped_def ex_call_def MIN_CREATE_GAS_def as_u64_def Let_def)
  then show ?thesis
    by (intro estimate_panics [where fd = fd and highest = 21004])
      (simp_all add: is_simple_transfer_def fd_new_def highest_gas_limit_def ex_untyped_def ex_call_def ex_block_def fd_def Let_def)
qed

end
