(* ===== verification/BlockRlp.thy ===== *)
theory BlockRlp
  imports TransactionRlp
begin

text \<open>
  Blocks, headers, logs and receipts (\<open>anvil/core/src/eth/block.rs\<close>, \<open>receipt.rs\<close>) with both of their
  encodings.  Hashing, the root of an ordered trie, and the crates \<open>rlp\<close> and \<open>open_fastrlp\<close> are parameters.
\<close>

section \<open>Data\<close>

type_synonym Bloom = "2048 word"

record Header =
  hd_parent_hash :: H256
  hd_ommers_hash :: H256
  hd_beneficiary :: Address
  hd_state_root :: H256
  hd_transactions_root :: H256
  hd_receipts_root :: H256
  hd_logs_bloom :: Bloom
  hd_difficulty :: U256
  hd_number :: U256
  hd_gas_limit :: U256
  hd_gas_used :: U256
  hd_timestamp :: u64
  hd_extra_data :: bytes
  hd_mix_hash :: H256
  hd_nonce :: u64
  hd_base_fee_per_gas :: "U256 option"

record PartialHeader =
  ph_parent_hash :: H256
  ph_beneficiary :: Address
  ph_state_root :: H256
  ph_receipts_root :: H256
  ph_logs_bloom :: Bloom
  ph_difficulty :: U256
  ph_number :: U256
  ph_gas_limit :: U256
  ph_gas_used :: U256
  ph_timestamp :: u64
  ph_extra_data :: bytes
  ph_mix_hash :: H256
  ph_nonce :: u64
  ph_base_fee :: "U256 option"

record Block =
  bl_header :: Header
  bl_transactions :: "MaybeImpersonatedTransaction list"
  bl_ommers :: "Header list"

record Log =
  lg_address :: Address
  lg_topics :: "H256 list"
  lg_data :: bytes

record EIP658Receipt =
  rc_status_code :: u8
  rc_gas_used :: U256
  rc_logs_bloom :: Bloom
  rc_logs :: "Log list"

datatype TypedReceipt = LegacyReceipt EIP658Receipt | EIP2930Receipt EIP658Receipt | EIP1559Receipt EIP658Receipt

fun receipt_inner :: "TypedReceipt \<Rightarrow> EIP658Receipt" where
  "receipt_inner (LegacyReceipt r) = r"
| "receipt_inner (EIP2930Receipt r) = r"
| "receipt_inner (EIP1559Receipt r) = r"

definition receipt_gas_used :: "TypedReceipt \<Rightarrow> U256" where
  "receipt_gas_used r = rc_gas_used (receipt_inner r)"

definition receipt_logs_bloom :: "TypedReceipt \<Rightarrow> Bloom" where
  "receipt_logs_bloom r = rc_logs_bloom (receipt_inner r)"

definition header_new :: "PartialHeader \<Rightarrow> H256 \<Rightarrow> H256 \<Rightarrow> Header" where
  "header_new ph ommers_hash transactions_root =
     \<lparr>hd_parent_hash = ph_parent_hash ph, hd_ommers_hash = ommers_hash, hd_beneficiary = ph_beneficiary ph,
      hd_state_root = ph_state_root ph, hd_transactions_root = transactions_root,
      hd_receipts_root = ph_receipts_root ph, hd_logs_bloom = ph_logs_bloom ph,
      hd_difficulty = ph_difficulty ph, hd_number = ph_number ph, hd_gas_limit = ph_gas_limit ph,
      hd_gas_used = ph_gas_used ph, hd_timestamp = ph_timestamp ph, hd_extra_data = ph_extra_data ph,
      hd_mix_hash = ph_mix_hash ph, hd_nonce = ph_nonce ph, hd_base_fee_per_gas = ph_base_fee ph\<rparr>"

definition partial_header_of :: "Header \<Rightarrow> PartialHeader" where
  "partial_header_of h =
     \<lparr>ph_parent_hash = hd_parent_hash h, ph_beneficiary = hd_beneficiary h, ph_state_root = hd_state_root h,
      ph_receipts_root = hd_receipts_root h, ph_logs_bloom = hd_logs_bloom h,
      ph_difficulty = hd_difficulty h, ph_number = hd_number h, ph_gas_limit = hd_gas_limit h,
      ph_gas_used = hd_gas_used h, ph_timestamp = hd_timestamp h, ph_extra_data = hd_extra_data h,
      ph_mix_hash = hd_mix_hash h, ph_nonce = hd_nonce h, ph_base_fee = hd_base_fee_per_gas h\<rparr>"

definition partial_header_default :: PartialHeader where
  "partial_header_default =
     \<lparr>ph_parent_hash = 0, ph_beneficiary = 0, ph_state_root = 0, ph_receipts_root = 0, ph_logs_bloom = 0,
      ph_difficulty = 0, ph_number = 0, ph_gas_limit = 0, ph_gas_used = 0, ph_timestamp = 0,
      ph_extra_data = [], ph_mix_hash = 0, ph_nonce = 0, ph_base_fee = None\<rparr>"

section \<open>The rlp encoding\<close>

definition rlp_hash :: "rlp_lib \<Rightarrow> H256 \<Rightarrow> bytes" where
  "rlp_hash lib h = rlp_value lib (be_bytes 32 h)"

definition header_rlp :: "rlp_lib \<Rightarrow> Header \<Rightarrow> bytes" where
  "header_rlp lib h = rlp_list lib
     ([rlp_hash lib (hd_parent_hash h), rlp_hash lib (hd_ommers_hash h),
       rlp_value lib (address_bytes (hd_beneficiary h)), rlp_hash lib (hd_state_root h),
       rlp_hash lib (hd_transactions_root h), rlp_hash lib (hd_receipts_root h),
       rlp_value lib (be_bytes 256 (hd_logs_bloom h)), rlp_u256 lib (hd_difficulty h),
       rlp_u256 lib (hd_number h), rlp_u256 lib (hd_gas_limit h), rlp_u256 lib (hd_gas_used h),
       rlp_u64 lib (hd_timestamp h), rlp_value lib (hd_extra_data h), rlp_hash lib (hd_mix_hash h),
       rlp_value lib (be_bytes 8 (hd_nonce h))] @
      (case hd_base_fee_per_gas h of Some base_fee \<Rightarrow> [rlp_u256 lib base_fee] | None \<Rightarrow> []))"

text \<open>\<open>Rlp::val_at\<close>, and \<open>Rlp::as_list\<close> with the decoder of the items.\<close>

definition val_at :: "bytes list \<Rightarrow> nat \<Rightarrow> (bytes \<Rightarrow> ('a, DecoderError) result) \<Rightarrow> ('a, DecoderError) result" where
  "val_at xs i dec = (if i < length xs then dec (xs ! i) else Err (DecoderOther 0))"

fun decode_all :: "(bytes \<Rightarrow> ('a, DecoderError) result) \<Rightarrow> bytes list \<Rightarrow> ('a list, DecoderError) result" where
  "decode_all dec [] = Ok []"
| "decode_all dec (x # xs) = and_then (dec x) (\<lambda>y. map_ok ((#) y) (decode_all dec xs))"

definition as_list :: "rlp_lib \<Rightarrow> (bytes \<Rightarrow> ('a, DecoderError) result) \<Rightarrow> bytes \<Rightarrow> ('a list, DecoderError) result" where
  "as_list lib dec b = and_then (rlp_items lib b) (decode_all dec)"

definition header_decode :: "rlp_lib \<Rightarrow> bytes \<Rightarrow> (Header, DecoderError) result" where
  "header_decode lib b =
     and_then (rlp_items lib b) (\<lambda>xs.
       and_then (val_at xs 0 (val_h256 lib)) (\<lambda>parent_hash.
       and_then (val_at xs 1 (val_h256 lib)) (\<lambda>ommers_hash.
       and_then (val_at xs 2 (val_address lib)) (\<lambda>beneficiary.
       and_then (val_at xs 3 (val_h256 lib)) (\<lambda>state_root.
       and_then (val_at xs 4 (val_h256 lib)) (\<lambda>transactions_root.
       and_then (val_at xs 5 (val_h256 lib)) (\<lambda>receipts_root.
       and_then (val_at xs 6 (val_bloom lib)) (\<lambda>logs_bloom.
       and_then (val_at xs 7 (val_u256 lib)) (\<lambda>difficulty.
       and_then (val_at xs 8 (val_u256 lib)) (\<lambda>number.
       and_then (val_at xs 9 (val_u256 lib)) (\<lambda>gas_limit.
       and_then (val_at xs 10 (val_u256 lib)) (\<lambda>gas_used.
       and_then (val_at xs 11 (val_u64 lib)) (\<lambda>timestamp.
       and_then (val_at xs 12 (val_bytes lib)) (\<lambda>extra_data.
       and_then (val_at xs 13 (val_h256 lib)) (\<lambda>mix_hash.
       and_then (val_at xs 14 (val_h64 lib)) (\<lambda>nonce.
       and_then (if 15 < length xs then map_ok Some (val_u256 lib (xs ! 15)) else Ok None) (\<lambda>base_fee.
         Ok \<lparr>hd_parent_hash = parent_hash, hd_ommers_hash = ommers_hash, hd_beneficiary = beneficiary,
             hd_state_root = state_root, hd_transactions_root = transactions_root,
             hd_receipts_root = receipts_root, hd_logs_bloom = logs_bloom, hd_difficulty = difficulty,
             hd_number = number, hd_gas_limit = gas_limit, hd_gas_used = gas_used,
             hd_timestamp = timestamp, hd_extra_data = extra_data, hd_mix_hash = mix_hash,
             hd_nonce = nonce, hd_base_fee_per_gas = base_fee\<rparr>)))))))))))))))))"

definition block_rlp :: "rlp_lib \<Rightarrow> Block \<Rightarrow> bytes" where
  "block_rlp lib b = rlp_list lib
     [header_rlp lib (bl_header b), rlp_list lib (map (mi_rlp lib) (bl_transactions b)),
      rlp_list lib (map (header_rlp lib) (bl_ommers b))]"

definition block_decode :: "rlp_lib \<Rightarrow> bytes \<Rightarrow> (Block, DecoderError) result" where
  "block_decode lib b =
     and_then (rlp_items lib b) (\<lambda>xs.
       and_then (val_at xs 0 (header_decode lib)) (\<lambda>header.
       and_then (val_at xs 1 (as_list lib (mi_decode lib))) (\<lambda>transactions.
       and_then (val_at xs 2 (as_list lib (header_decode lib))) (\<lambda>ommers.
         Ok \<lparr>bl_header = header, bl_transactions = transactions, bl_ommers = ommers\<rparr>))))"

definition log_rlp :: "rlp_lib \<Rightarrow> Log \<Rightarrow> bytes" where
  "log_rlp lib l = rlp_list lib
     [rlp_value lib (address_bytes (lg_address l)), rlp_list lib (map (rlp_hash lib) (lg_topics l)),
      rlp_value lib (lg_data l)]"

definition log_decode :: "rlp_lib \<Rightarrow> bytes \<Rightarrow> (Log, DecoderError) result" where
  "log_decode lib b =
     and_then (rlp_items lib b) (\<lambda>xs.
       and_then (val_at xs 0 (val_address lib)) (\<lambda>address.
       and_then (val_at xs 1 (as_list lib (val_h256 lib))) (\<lambda>topics.
       and_then (val_at xs 2 (val_bytes lib)) (\<lambda>data.
         Ok \<lparr>lg_address = address, lg_topics = topics, lg_data = data\<rparr>))))"

definition eip658_rlp :: "rlp_lib \<Rightarrow> EIP658Receipt \<Rightarrow> bytes" where
  "eip658_rlp lib r = rlp_list lib
     [rlp_u8 lib (rc_status_code r), rlp_u256 lib (rc_gas_used r),
      rlp_value lib (be_bytes 256 (rc_logs_bloom r)), rlp_list lib (map (log_rlp lib) (rc_logs r))]"

definition eip658_decode :: "rlp_lib \<Rightarrow> bytes \<Rightarrow> (EIP658Receipt, DecoderError) result" where
  "eip658_decode lib b =
     and_then (rlp_items lib b) (\<lambda>xs.
       and_then (val_at xs 0 (val_u8 lib)) (\<lambda>status_code.
       and_then (val_at xs 1 (val_u256 lib)) (\<lambda>gas_used.
       and_then (val_at xs 2 (val_bloom lib)) (\<lambda>logs_bloom.
       and_then (val_at xs 3 (as_list lib (log_decode lib))) (\<lambda>logs.
         Ok \<lparr>rc_status_code = status_code, rc_gas_used = gas_used, rc_logs_bloom = logs_bloom,
             rc_logs = logs\<rparr>)))))"

fun receipt_rlp :: "rlp_lib \<Rightarrow> TypedReceipt \<Rightarrow> bytes" where
  "receipt_rlp lib (LegacyReceipt r) = eip658_rlp lib r"
| "receipt_rlp lib (EIP2930Receipt r) = enveloped lib 1 (eip658_rlp lib r)"
| "receipt_rlp lib (EIP1559Receipt r) = enveloped lib 2 (eip658_rlp lib r)"

definition receipt_decode :: "rlp_lib \<Rightarrow> bytes \<Rightarrow> (TypedReceipt, DecoderError) result" where
  "receipt_decode lib b =
     and_then (rlp_data lib b) (\<lambda>slice.
       case slice of
         [] \<Rightarrow> Err (DecoderCustom ''empty receipt'')
       | first # s \<Rightarrow>
           if rlp_is_list lib b then map_ok LegacyReceipt (eip658_decode lib b)
           else if first = 1 then map_ok EIP2930Receipt (eip658_decode lib s)
           else if first = 2 then map_ok EIP1559Receipt (eip658_decode lib s)
           else Err (DecoderCustom ''unknown receipt type''))"

text \<open>
  \<open>Header::hash\<close>, and \<open>Block::new\<close>; \<open>root\<close> is \<open>trie::ordered_trie_root\<close>.
\<close>

definition header_hash :: "crypto \<Rightarrow> rlp_lib \<Rightarrow> Header \<Rightarrow> H256" where
  "header_hash cr lib h = keccak256 cr (header_rlp lib h)"

definition block_new :: "crypto \<Rightarrow> rlp_lib \<Rightarrow> (bytes list \<Rightarrow> H256) \<Rightarrow> PartialHeader \<Rightarrow>
    MaybeImpersonatedTransaction list \<Rightarrow> Header list \<Rightarrow> Block" where
  "block_new cr lib root partial_header transactions ommers =
     \<lparr>bl_header = header_new partial_header
        (keccak256 cr (rlp_list lib (map (header_rlp lib) ommers)))
        (root (map (mi_rlp lib) transactions)),
      bl_transactions = transactions, bl_ommers = ommers\<rparr>"

section \<open>Round trips\<close>

lemma decode_inj:
  assumes "dec (enc x) = Ok x" "dec (enc y) = Ok y" "enc x = enc y"
  shows "x = y"
proof -
  have "Ok x = dec (enc y)" using assms(1) by (simp only: assms(3))
  then show ?thesis using assms(2) by simp
qed

lemma decode_all_map: "(\<And>x. x \<in> set xs \<Longrightarrow> dec (enc x) = Ok (f x)) \<Longrightarrow> decode_all dec (map enc xs) = Ok (map f xs)"
  by (induction xs) simp_all

lemma as_list_roundtrip:
  assumes "rlp_ok lib" "\<And>x. is_item lib (enc x)" "\<And>x. dec (enc x) = Ok (f x)"
  shows "as_list lib dec (rlp_list lib (map enc xs)) = Ok (map f xs)"
  using assms by (simp add: as_list_def rlp_okD decode_all_map)

lemma header_item [simp]: "is_item lib (header_rlp lib h)"
  by (auto simp: header_rlp_def rlp_hash_def split: option.split)

lemma header_roundtrip: "rlp_ok lib \<Longrightarrow> header_decode lib (header_rlp lib h) = Ok h"
  by (cases "hd_base_fee_per_gas h")
    (simp_all add: header_decode_def header_rlp_def rlp_hash_def rlp_okD val_at_def)

lemma typed_item [simp]: "is_item lib (typed_rlp lib tx)"
  by (cases tx) (auto simp: legacy_rlp_def enveloped_def)

lemma mi_item: "is_item lib (mi_rlp lib t)"
  by (simp add: mi_rlp_def)

lemma mi_roundtrip: "rlp_ok lib \<Longrightarrow> mi_decode lib (mi_rlp lib t) = Ok (mi_new (mi_transaction t))"
  by (simp add: mi_decode_def mi_rlp_def mi_new_def typed_roundtrip)

lemma block_roundtrip:
  assumes "rlp_ok lib"
  shows "block_decode lib (block_rlp lib b) =
    Ok (b\<lparr>bl_transactions := map (mi_new \<circ> mi_transaction) (bl_transactions b)\<rparr>)"
proof -
  have "as_list lib (header_decode lib) (rlp_list lib (map (header_rlp lib) (bl_ommers b))) = Ok (map id (bl_ommers b))"
    by (rule as_list_roundtrip) (simp_all add: assms header_roundtrip)
  moreover have "as_list lib (mi_decode lib) (rlp_list lib (map (mi_rlp lib) (bl_transactions b))) =
      Ok (map (mi_new \<circ> mi_transaction) (bl_transactions b))"
    by (rule as_list_roundtrip) (simp_all add: assms mi_item mi_roundtrip)
  ultimately show ?thesis
    by (simp add: block_decode_def block_rlp_def val_at_def rlp_okD assms mi_item header_roundtrip)
qed

lemma log_item [simp]: "is_item lib (log_rlp lib l)"
  by (auto simp: log_rlp_def rlp_hash_def intro!: is_item_list)

lemma log_roundtrip:
  assumes "rlp_ok lib"
  shows "log_decode lib (log_rlp lib l) = Ok l"
proof -
  have "as_list lib (val_h256 lib) (rlp_list lib (map (rlp_hash lib) (lg_topics l))) = Ok (map id (lg_topics l))"
    by (rule as_list_roundtrip) (simp_all add: assms rlp_hash_def rlp_okD)
  moreover have "is_item lib (rlp_list lib (map (rlp_hash lib) (lg_topics l)))"
    by (auto simp: rlp_hash_def intro!: is_item_list)
  ultimately show ?thesis
    by (simp add: log_decode_def log_rlp_def val_at_def rlp_okD assms)
qed

lemma eip658_roundtrip:
  assumes "rlp_ok lib"
  shows "eip658_decode lib (eip658_rlp lib r) = Ok r"
proof -
  have "as_list lib (log_decode lib) (rlp_list lib (map (log_rlp lib) (rc_logs r))) = Ok (map id (rc_logs r))"
    by (rule as_list_roundtrip) (simp_all add: assms log_roundtrip)
  then show ?thesis
    by (simp add: eip658_decode_def eip658_rlp_def val_at_def rlp_okD assms)
qed

lemma receipt_roundtrip:
  assumes "rlp_ok lib"
  shows "receipt_decode lib (receipt_rlp lib r) = Ok r"
proof (cases r)
  case (LegacyReceipt t)
  obtain d where "d \<noteq> []" "rlp_data lib (eip658_rlp lib t) = Ok d"
    unfolding eip658_rlp_def using rlp_okD(8) [OF assms] by blast
  moreover have "rlp_is_list lib (eip658_rlp lib t)" by (simp add: eip658_rlp_def rlp_okD assms)
  ultimately show ?thesis
    using LegacyReceipt by (cases d) (simp_all add: receipt_decode_def eip658_roundtrip assms)
qed (simp_all add: receipt_decode_def enveloped_def rlp_okD eip658_roundtrip assms)

section \<open>The open-fastrlp encoding\<close>

text \<open>The crate's codec for a type: encoder, length, and a decoder that returns the rest of the buffer.\<close>

record 'a coder =
  co_enc :: "'a \<Rightarrow> bytes"
  co_len :: "'a \<Rightarrow> nat"
  co_dec :: "bytes \<Rightarrow> ('a \<times> bytes, FastError) result"

definition coder_ok :: "'a coder \<Rightarrow> bool" where
  "coder_ok c \<longleftrightarrow> (\<forall>x. co_enc c x \<noteq> [] \<and> co_len c x = length (co_enc c x)) \<and>
     (\<forall>x rest. co_dec c (co_enc c x @ rest) = Ok (x, rest))"

text \<open>\<open>fp_list_header n\<close> is \<open>Header { list: true, payload_length: n }\<close>.\<close>

record fast_prims =
  fp_h256 :: "H256 coder"
  fp_address :: "Address coder"
  fp_bloom :: "Bloom coder"
  fp_u256 :: "U256 coder"
  fp_u64 :: "u64 coder"
  fp_bytes :: "bytes coder"
  fp_h64 :: "u64 coder"
  fp_list_header :: "nat \<Rightarrow> bytes"
  fp_list_header_decode :: "bytes \<Rightarrow> (nat \<times> bytes, FastError) result"
  fp_length_of_length :: "nat \<Rightarrow> nat"

definition fast_prims_ok :: "fast_prims \<Rightarrow> bool" where
  "fast_prims_ok fp \<longleftrightarrow> coder_ok (fp_h256 fp) \<and> coder_ok (fp_address fp) \<and> coder_ok (fp_bloom fp) \<and>
     coder_ok (fp_u256 fp) \<and> coder_ok (fp_u64 fp) \<and> coder_ok (fp_bytes fp) \<and> coder_ok (fp_h64 fp) \<and>
     (\<forall>n. length (fp_list_header fp n) = fp_length_of_length fp n) \<and>
     (\<forall>n rest. n \<le> length rest \<longrightarrow> fp_list_header_decode fp (fp_list_header fp n @ rest) = Ok (n, rest))"

definition header_payload_length :: "fast_prims \<Rightarrow> Header \<Rightarrow> nat" where
  "header_payload_length fp h =
     co_len (fp_h256 fp) (hd_parent_hash h) + co_len (fp_h256 fp) (hd_ommers_hash h) +
     co_len (fp_address fp) (hd_beneficiary h) + co_len (fp_h256 fp) (hd_state_root h) +
     co_len (fp_h256 fp) (hd_transactions_root h) + co_len (fp_h256 fp) (hd_receipts_root h) +
     co_len (fp_bloom fp) (hd_logs_bloom h) + co_len (fp_u256 fp) (hd_difficulty h) +
     co_len (fp_u256 fp) (hd_number h) + co_len (fp_u256 fp) (hd_gas_limit h) +
     co_len (fp_u256 fp) (hd_gas_used h) + co_len (fp_u64 fp) (hd_timestamp h) +
     co_len (fp_bytes fp) (hd_extra_data h) + co_len (fp_h256 fp) (hd_mix_hash h) +
     co_len (fp_h64 fp) (hd_nonce h) +
     (case hd_base_fee_per_gas h of Some fee \<Rightarrow> co_len (fp_u256 fp) fee | None \<Rightarrow> 0)"

definition header_fast_length :: "fast_prims \<Rightarrow> Header \<Rightarrow> nat" where
  "header_fast_length fp h =
     (let n = header_payload_length fp h in n + fp_length_of_length fp n)"

definition header_fast_payload :: "fast_prims \<Rightarrow> Header \<Rightarrow> bytes" where
  "header_fast_payload fp h =
     co_enc (fp_h256 fp) (hd_parent_hash h) @ co_enc (fp_h256 fp) (hd_ommers_hash h) @
     co_enc (fp_address fp) (hd_beneficiary h) @ co_enc (fp_h256 fp) (hd_state_root h) @
     co_enc (fp_h256 fp) (hd_transactions_root h) @ co_enc (fp_h256 fp) (hd_receipts_root h) @
     co_enc (fp_bloom fp) (hd_logs_bloom h) @ co_enc (fp_u256 fp) (hd_difficulty h) @
     co_enc (fp_u256 fp) (hd_number h) @ co_enc (fp_u256 fp) (hd_gas_limit h) @
     co_enc (fp_u256 fp) (hd_gas_used h) @ co_enc (fp_u64 fp) (hd_timestamp h) @
     co_enc (fp_bytes fp) (hd_extra_data h) @ co_enc (fp_h256 fp) (hd_mix_hash h) @
     co_enc (fp_h64 fp) (hd_nonce h) @
     (case hd_base_fee_per_gas h of Some fee \<Rightarrow> co_enc (fp_u256 fp) fee | None \<Rightarrow> [])"

definition header_fast_encode :: "fast_prims \<Rightarrow> Header \<Rightarrow> bytes" where
  "header_fast_encode fp h = fp_list_header fp (header_payload_length fp h) @ header_fast_payload fp h"

definition take_field :: "'a coder \<Rightarrow> bytes \<Rightarrow> ('a \<Rightarrow> bytes \<Rightarrow> ('b, FastError) result) \<Rightarrow> ('b, FastError) result" where
  "take_field c buf k = and_then (co_dec c buf) (\<lambda>(x, rest). k x rest)"

definition header_fast_fields :: "fast_prims \<Rightarrow> bytes \<Rightarrow> (Header \<times> bytes, FastError) result" where
  "header_fast_fields fp buf =
     take_field (fp_h256 fp) buf (\<lambda>parent_hash buf.
     take_field (fp_h256 fp) buf (\<lambda>ommers_hash buf.
     take_field (fp_address fp) buf (\<lambda>beneficiary buf.
     take_field (fp_h256 fp) buf (\<lambda>state_root buf.
     take_field (fp_h256 fp) buf (\<lambda>transactions_root buf.
     take_field (fp_h256 fp) buf (\<lambda>receipts_root buf.
     take_field (fp_bloom fp) buf (\<lambda>logs_bloom buf.
     take_field (fp_u256 fp) buf (\<lambda>difficulty buf.
     take_field (fp_u256 fp) buf (\<lambda>number buf.
     take_field (fp_u256 fp) buf (\<lambda>gas_limit buf.
     take_field (fp_u256 fp) buf (\<lambda>gas_used buf.
     take_field (fp_u64 fp) buf (\<lambda>timestamp buf.
     take_field (fp_bytes fp) buf (\<lambda>extra_data buf.
     take_field (fp_h256 fp) buf (\<lambda>mix_hash buf.
     take_field (fp_h64 fp) buf (\<lambda>nonce buf.
       Ok (\<lparr>hd_parent_hash = parent_hash, hd_ommers_hash = ommers_hash, hd_beneficiary = beneficiary,
            hd_state_root = state_root, hd_transactions_root = transactions_root,
            hd_receipts_root = receipts_root, hd_logs_bloom = logs_bloom, hd_difficulty = difficulty,
            hd_number = number, hd_gas_limit = gas_limit, hd_gas_used = gas_used,
            hd_timestamp = timestamp, hd_extra_data = extra_data, hd_mix_hash = mix_hash,
            hd_nonce = nonce, hd_base_fee_per_gas = None\<rparr>, buf))))))))))))))))"

text \<open>\<open>None\<close> is the underflow of \<open>start_len - header.payload_length\<close>.\<close>

definition header_fast_decode :: "fast_prims \<Rightarrow> bytes \<Rightarrow> (Header \<times> bytes, FastError) result option" where
  "header_fast_decode fp buf =
     (case fp_list_header_decode fp buf of
        Err e \<Rightarrow> Some (Err e)
      | Ok (payload_length, buf1) \<Rightarrow>
         (case header_fast_fields fp buf1 of
            Err e \<Rightarrow> Some (Err e)
          | Ok (h, buf2) \<Rightarrow>
              if length buf1 < payload_length then None
              else if length buf1 - payload_length < length buf2 then
                Some (map_ok (\<lambda>(fee, rest). (h\<lparr>hd_base_fee_per_gas := Some fee\<rparr>, rest)) (co_dec (fp_u256 fp) buf2))
              else Some (Ok (h, buf2))))"

lemma take_field_enc: "coder_ok c \<Longrightarrow> take_field c (co_enc c x @ rest) k = k x rest"
  by (simp add: take_field_def coder_ok_def)

lemma header_fast_fields_enc:
  assumes "fast_prims_ok fp"
  shows "header_fast_fields fp (header_fast_payload fp h @ rest) =
    Ok (h\<lparr>hd_base_fee_per_gas := None\<rparr>,
        (case hd_base_fee_per_gas h of Some fee \<Rightarrow> co_enc (fp_u256 fp) fee | None \<Rightarrow> []) @ rest)"
  using assms by (simp add: header_fast_fields_def header_fast_payload_def fast_prims_ok_def take_field_enc)

lemma header_payload_length_exact:
  "fast_prims_ok fp \<Longrightarrow> header_payload_length fp h = length (header_fast_payload fp h)"
  by (simp add: header_payload_length_def header_fast_payload_def fast_prims_ok_def coder_ok_def
      split: option.split)

lemma header_fast_roundtrip:
  assumes "fast_prims_ok fp"
  shows "header_fast_decode fp (header_fast_encode fp h @ rest) = Some (Ok (h, rest))"
proof -
  have c: "coder_ok (fp_u256 fp)" using assms by (simp add: fast_prims_ok_def)
  have "fp_list_header_decode fp (header_fast_encode fp h @ rest) =
      Ok (length (header_fast_payload fp h), header_fast_payload fp h @ rest)"
    using assms by (simp add: header_fast_encode_def header_payload_length_exact fast_prims_ok_def)
  moreover have "h\<lparr>hd_base_fee_per_gas := hd_base_fee_per_gas h\<rparr> = h" by simp
  ultimately show ?thesis
    using c by (cases "hd_base_fee_per_gas h")
      (simp_all add: header_fast_decode_def header_fast_fields_enc assms coder_ok_def)
qed

lemma header_fast_length_exact:
  "fast_prims_ok fp \<Longrightarrow> header_fast_length fp h = length (header_fast_encode fp h)"
  by (simp add: header_fast_length_def header_fast_encode_def header_payload_length_exact Let_def)
    (simp add: fast_prims_ok_def)

text \<open>Receipts; \<open>c\<close> is the derived codec of \<open>EIP658Receipt\<close>, a list.\<close>

fun receipt_fast_encode :: "fast_lib \<Rightarrow> EIP658Receipt coder \<Rightarrow> TypedReceipt \<Rightarrow> bytes" where
  "receipt_fast_encode fl c (LegacyReceipt r) = co_enc c r"
| "receipt_fast_encode fl c (EIP2930Receipt r) = fl_header fl (co_len c r + 1) @ 1 # co_enc c r"
| "receipt_fast_encode fl c (EIP1559Receipt r) = fl_header fl (co_len c r + 1) @ 2 # co_enc c r"

fun receipt_fast_length :: "fast_lib \<Rightarrow> EIP658Receipt coder \<Rightarrow> TypedReceipt \<Rightarrow> nat" where
  "receipt_fast_length fl c (LegacyReceipt r) = co_len c r"
| "receipt_fast_length fl c (EIP2930Receipt r) =
     (let payload_len = co_len c r + 1 in payload_len + fl_length_of_length fl payload_len)"
| "receipt_fast_length fl c (EIP1559Receipt r) =
     (let payload_len = co_len c r + 1 in payload_len + fl_length_of_length fl payload_len)"

definition receipt_fast_decode ::
  "fast_lib \<Rightarrow> EIP658Receipt coder \<Rightarrow> bytes \<Rightarrow> (TypedReceipt \<times> bytes, FastError) result" where
  "receipt_fast_decode fl c buf =
     (case buf of
        [] \<Rightarrow> Err (FastCustom ''cannot decode a receipt from empty bytes'')
      | rlp_type # _ \<Rightarrow>
          if rlp_type < 0xc0 then
            and_then (fl_header_decode fl buf) (\<lambda>buf.
              case buf of
                [] \<Rightarrow> Err (FastCustom ''typed receipt cannot be decoded from an empty slice'')
              | receipt_type # rest \<Rightarrow>
                  if receipt_type = 1 then map_ok (\<lambda>(r, b). (EIP2930Receipt r, b)) (co_dec c rest)
                  else if receipt_type = 2 then map_ok (\<lambda>(r, b). (EIP1559Receipt r, b)) (co_dec c rest)
                  else Err (FastCustom ''invalid receipt type''))
          else if rlp_type = 0xc0 then
            Err (FastCustom ''an empty list is not a valid receipt encoding'')
          else map_ok (\<lambda>(r, b). (LegacyReceipt r, b)) (co_dec c buf))"

lemma receipt_fast_decode_typed:
  assumes "fast_ok fl" "coder_ok c" "ty = 1 \<or> ty = 2"
  shows "receipt_fast_decode fl c (fl_header fl (co_len c r + 1) @ ty # co_enc c r @ rest) =
    Ok (if ty = 1 then EIP2930Receipt r else EIP1559Receipt r, rest)"
proof -
  have "\<exists>b bs. fl_header fl (co_len c r + 1) = b # bs \<and> b < 0xc0"
    using assms(1) by (simp add: fast_ok_def)
  then obtain b bs where b: "fl_header fl (co_len c r + 1) = b # bs" "b < 0xc0" by blast
  have "co_enc c r \<noteq> []" "co_len c r = length (co_enc c r)"
    and dec: "co_dec c (co_enc c r @ rest) = Ok (r, rest)"
    using assms(2) by (simp_all add: coder_ok_def)
  then have "fl_header_decode fl (fl_header fl (co_len c r + 1) @ ty # co_enc c r @ rest) =
      Ok (ty # co_enc c r @ rest)"
    using assms(1) by (simp add: fast_ok_def Suc_le_eq)
  then show ?thesis
    using assms(3) b dec by (auto simp: receipt_fast_decode_def)
qed

lemma receipt_fast_roundtrip:
  assumes "fast_ok fl" "coder_ok c" "\<forall>r. \<exists>b bs. co_enc c r = b # bs \<and> 0xc0 < b"
  shows "receipt_fast_decode fl c (receipt_fast_encode fl c t @ rest) = Ok (t, rest)"
proof (cases t)
  case (LegacyReceipt r)
  obtain b bs where b: "co_enc c r = b # bs" "0xc0 < b" using assms(3) by blast
  moreover from b(2) have "b \<noteq> 0xc0" "\<not> b < 0xc0" by auto
  moreover have "co_dec c (co_enc c r @ rest) = Ok (r, rest)" using assms(2) by (simp add: coder_ok_def)
  ultimately show ?thesis using LegacyReceipt by (simp add: receipt_fast_decode_def)
next
  case (EIP2930Receipt r)
  then show ?thesis using receipt_fast_decode_typed [OF assms(1,2), of 1 r rest] by simp
next
  case (EIP1559Receipt r)
  then show ?thesis using receipt_fast_decode_typed [OF assms(1,2), of 2 r rest] by simp
qed

lemma receipt_fast_length_exact:
  "fast_ok fl \<Longrightarrow> coder_ok c \<Longrightarrow> receipt_fast_length fl c t = length (receipt_fast_encode fl c t)"
  by (cases t) (simp_all add: fast_ok_def coder_ok_def Let_def)

section \<open>A crate that keeps the contract\<close>

definition ex_coder :: "('a \<Rightarrow> bytes) \<Rightarrow> (bytes \<Rightarrow> ('a, DecoderError) result) \<Rightarrow> 'a coder" where
  "ex_coder enc dec = \<lparr>co_enc = \<lambda>x. ex_delim (enc x), co_len = \<lambda>x. length (ex_delim (enc x)),
     co_dec = ex_undelim dec\<rparr>"

lemma ex_coder_ok:
  assumes "\<And>x. dec (enc x) = Ok x" "\<And>x. \<forall>b \<in> set (enc x). b = 0xC0"
  shows "coder_ok (ex_coder enc dec)"
  using assms by (simp add: coder_ok_def ex_coder_def ex_undelim_delim) (simp add: ex_delim_def)

definition ex_prims :: fast_prims where
  "ex_prims = \<lparr>fp_h256 = ex_coder (rlp_u256 ex_rlp) (val_u256 ex_rlp),
     fp_address = ex_coder (\<lambda>a. rlp_value ex_rlp (address_bytes a)) (val_address ex_rlp),
     fp_bloom = ex_coder (\<lambda>x. rlp_value ex_rlp (be_bytes 256 x)) (val_bloom ex_rlp),
     fp_u256 = ex_coder (rlp_u256 ex_rlp) (val_u256 ex_rlp), fp_u64 = ex_coder (rlp_u64 ex_rlp) (val_u64 ex_rlp),
     fp_bytes = ex_coder (rlp_value ex_rlp) (val_bytes ex_rlp), fp_h64 = ex_coder (rlp_u64 ex_rlp) (val_u64 ex_rlp),
     fp_list_header = \<lambda>n. replicate n 0 @ [1],
     fp_list_header_decode = (\<lambda>b. let zs = takeWhile (\<lambda>x. x = 0) b in Ok (length zs, drop (length zs + 1) b)),
     fp_length_of_length = Suc\<rparr>"

lemma ex_prims_ok: "fast_prims_ok ex_prims"
proof -
  have "takeWhile (\<lambda>x. x = 0) (replicate n 0 @ 1 # rest) = replicate n (0 :: u8)" for n rest
    by (induction n) simp_all
  moreover have "\<forall>b \<in> set (ex_enc y). b = 0xC0" for y by (simp add: ex_enc_def)
  ultimately show ?thesis
    using rlp_okD [OF ex_rlp_ok]
    by (simp add: fast_prims_ok_def ex_prims_def Let_def) (simp add: ex_coder_ok ex_rlp_def)
qed

definition ex_receipt_coder :: "EIP658Receipt coder" where
  "ex_receipt_coder = ex_coder (eip658_rlp ex_rlp) (eip658_decode ex_rlp)"

lemma ex_receipt_coder_ok: "coder_ok ex_receipt_coder"
  unfolding ex_receipt_coder_def
  by (rule ex_coder_ok) (simp add: eip658_roundtrip ex_rlp_ok, auto simp: eip658_rlp_def dest: ex_rlp_byte)

lemma ex_receipt_coder_list: "\<forall>r. \<exists>b bs. co_enc ex_receipt_coder r = b # bs \<and> 0xc0 < b"
  by (simp add: ex_receipt_coder_def ex_coder_def ex_delim_def)

definition ex_header :: Header where
  "ex_header = header_new (partial_header_default\<lparr>ph_number := 3, ph_base_fee := Some 7\<rparr>) 1 2"

definition ex_receipt :: TypedReceipt where
  "ex_receipt = EIP1559Receipt \<lparr>rc_status_code = 1, rc_gas_used = 21000, rc_logs_bloom = 0,
     rc_logs = [\<lparr>lg_address = 5, lg_topics = [6, 7], lg_data = [8]\<rparr>]\<rparr>"

section \<open>Properties\<close>



text \<open>
  The second encoding of headers and receipts.  The announced lengths are exact, and decoding a buffer
  that starts with an encoded header or receipt returns it and leaves the rest of the buffer; the test for
  a base fee after the other fields never underflows and never mistakes what follows the header for one.
\<close>

theorem block_fast_roundtrip:
  assumes "fast_prims_ok fp" "fast_ok fl" "coder_ok c" "\<forall>r. \<exists>b bs. co_enc c r = b # bs \<and> 0xc0 < b"
  shows "header_fast_decode fp (header_fast_encode fp h @ rest) = Some (Ok (h, rest)) \<and>
    header_fast_length fp h = length (header_fast_encode fp h) \<and>
    receipt_fast_decode fl c (receipt_fast_encode fl c t @ rest) = Ok (t, rest) \<and>
    receipt_fast_length fl c t = length (receipt_fast_encode fl c t)"
  using header_fast_roundtrip header_fast_length_exact receipt_fast_roundtrip receipt_fast_length_exact assms
  by blast

theorem block_fast_roundtrip_witness:
  "header_fast_decode ex_prims (header_fast_encode ex_prims ex_header @ [9]) = Some (Ok (ex_header, [9])) \<and>
   receipt_fast_decode ex_fast ex_receipt_coder (receipt_fast_encode ex_fast ex_receipt_coder ex_receipt @ [9]) =
     Ok (ex_receipt, [9])"
  using block_fast_roundtrip [OF ex_prims_ok ex_fast_ok ex_receipt_coder_ok ex_receipt_coder_list, of ex_header "[9]" ex_receipt] by blast

end
