(* ===== verification/Executor.thy ===== *)
theory Executor
  imports NodeEnv BlockRlp
begin

text \<open>
  The executor of a block (\<open>anvil/src/eth/backend/executor.rs\<close>): it validates and executes the
  transactions one after the other on the database and builds the block, the receipts and the transaction
  infos.  The EVM and the database come with \<open>node_lib\<close>; \<open>exec_lib\<close> adds the bloom filter, the root of an
  ordered trie, the state root, Keccak and RLP.  The type variable \<open>'t\<close> is the trace of a transaction.
\<close>

section \<open>Data\<close>

record ('d, 'e, 's, 't) exec_lib =
  xl_node :: "('d, 'e, Log, 's, 't) node_lib"
  xl_accrue :: "bytes \<Rightarrow> Bloom \<Rightarrow> Bloom"
  xl_root :: "bytes list \<Rightarrow> H256"
  xl_state_root :: "'d \<Rightarrow> H256 option"
  xl_crypto :: crypto
  xl_rlp :: rlp_lib

record 't ExecutedTransaction =
  xt_transaction :: PoolTransaction
  xt_exit_reason :: InstructionResult
  xt_out :: "Output option"
  xt_gas_used :: u64
  xt_logs :: "Log list"
  xt_traces :: 't

datatype ('e, 't) TransactionExecutionOutcome =
    Executed "'t ExecutedTransaction"
  | Invalid PoolTransaction InvalidTransactionError
  | Exhausted PoolTransaction
  | DatabaseFailure PoolTransaction 'e

record 't TransactionInfo =
  ti_transaction_hash :: H256
  ti_transaction_index :: "32 word"
  ti_from :: Address
  ti_to :: "Address option"
  ti_contract_address :: "Address option"
  ti_logs :: "Log list"
  ti_logs_bloom :: Bloom
  ti_traces :: 't
  ti_exit :: InstructionResult
  ti_out :: "bytes option"

record 't BlockInfo =
  bi_block :: Block
  bi_transactions :: "'t TransactionInfo list"
  bi_receipts :: "TypedReceipt list"

record 't ExecutedTransactions =
  ets_block :: "'t BlockInfo"
  ets_included :: "PoolTransaction list"
  ets_invalid :: "PoolTransaction list"

record 'd TransactionExecutor =
  te_db :: 'd
  te_pending :: "PoolTransaction list"
  te_block_env :: BlockEnv
  te_cfg_env :: CfgEnv
  te_parent_hash :: H256
  te_gas_used :: U256
  te_enable_steps_tracing :: bool

section \<open>Receipts\<close>

definition logs_bloom :: "(bytes \<Rightarrow> Bloom \<Rightarrow> Bloom) \<Rightarrow> Log list \<Rightarrow> Bloom \<Rightarrow> Bloom" where
  "logs_bloom accrue logs bloom =
     foldl (\<lambda>b log. foldl (\<lambda>b topic. accrue (be_bytes 32 topic) b)
        (accrue (address_bytes (lg_address log)) b) (lg_topics log)) bloom logs"

text \<open>
  \<open>exit_reason as u8 <= SelfDestruct as u8\<close>: the discriminants up to \<open>SelfDestruct\<close> are those of
  \<open>return_ok!()\<close>.
\<close>

definition create_receipt :: "(bytes \<Rightarrow> Bloom \<Rightarrow> Bloom) \<Rightarrow> 't ExecutedTransaction \<Rightarrow> TypedReceipt" where
  "create_receipt accrue xt =
     (let r = \<lparr>rc_status_code = (if return_ok (xt_exit_reason xt) then 1 else 0),
               rc_gas_used = ucast (xt_gas_used xt), rc_logs_bloom = logs_bloom accrue (xt_logs xt) 0,
               rc_logs = xt_logs xt\<rparr>
      in case mi_transaction (pd_transaction (pt_pending_transaction (xt_transaction xt))) of
           Legacy _ \<Rightarrow> LegacyReceipt r | EIP2930 _ \<Rightarrow> EIP2930Receipt r | EIP1559 _ \<Rightarrow> EIP1559Receipt r)"

section \<open>One transaction\<close>

definition env_for :: "'d TransactionExecutor \<Rightarrow> PendingTransaction \<Rightarrow> EvmEnv option" where
  "env_for ex tx = map_option (\<lambda>t. \<lparr>ev_cfg = te_cfg_env ex, ev_block = te_block_env ex, ev_tx = t\<rparr>) (to_revm_tx_env tx)"

text \<open>
  \<open>Iterator::next\<close>, for the transaction it takes from \<open>pending\<close>.  \<open>None\<close> is a panic: of the conversions in
  \<open>to_revm_tx_env\<close> and the validation, and the explicit one on an EVM error that is neither of the
  transaction nor of the database.  The statement \<open>self.gas_used.saturating_add(..)\<close> drops its result, so
  that \<open>te_gas_used\<close> is unchanged.  \<open>chain_id\<close> is the validator's chain id.
\<close>

definition execute_one ::
  "('d, 'e, 's, 't) exec_lib \<Rightarrow> U256 \<Rightarrow> PoolTransaction \<Rightarrow> 'd TransactionExecutor \<Rightarrow>
    (('e, 't) TransactionExecutionOutcome \<times> 'd TransactionExecutor) option" where
  "execute_one lib chain_id transaction ex =
     (let nl = xl_node lib; pending = pt_pending_transaction transaction in
      case nl_basic nl (te_db ex) (pd_sender pending) of
        Err err \<Rightarrow> Some (DatabaseFailure transaction err, ex)
      | Ok a \<Rightarrow>
         (let account = unwrap_or a (account_default (nl_keccak_empty nl)) in do {
            env \<leftarrow> env_for ex pending;
            let max_gas = saturating_add (te_gas_used ex) (ucast (te_gas_limit (ev_tx env)));
            if be_gas_limit (ev_block env) < max_gas then Some (Exhausted transaction, ex)
            else do {
              v \<leftarrow> validate_pool_transaction_for (nl_forks nl) chain_id pending account env;
              (case v of
                 Err err \<Rightarrow> Some (Invalid transaction err, ex)
               | Ok _ \<Rightarrow>
                  (case nl_inspect_commit nl env (te_enable_steps_tracing ex) (te_db ex) of
                     (Err (EvDatabase err), _, db) \<Rightarrow> Some (DatabaseFailure transaction err, ex\<lparr>te_db := db\<rparr>)
                   | (Err (EvTransaction err), _, db) \<Rightarrow>
                       Some (Invalid transaction (from_invalid_transaction err), ex\<lparr>te_db := db\<rparr>)
                   | (Err EvPrevrandaoNotSet, _, _) \<Rightarrow> None
                   | (Ok exec_result, traces, db) \<Rightarrow>
                       (case exec_outcome exec_result of
                          (exit_reason, gas_used, out, logs) \<Rightarrow>
                            (let dropped = saturating_add (te_gas_used ex) (ucast gas_used) in
                             Some (Executed \<lparr>xt_transaction = transaction, xt_exit_reason = exit_reason,
                                 xt_out = out, xt_gas_used = gas_used, xt_logs = logs, xt_traces = traces\<rparr>,
                               ex\<lparr>te_db := db\<rparr>)))))
            }
          }))"

section \<open>A block of transactions\<close>

text \<open>The local variables of \<open>execute\<close>.\<close>

record 't exec_acc =
  xa_transactions :: "MaybeImpersonatedTransaction list"
  xa_infos :: "'t TransactionInfo list"
  xa_receipts :: "TypedReceipt list"
  xa_bloom :: Bloom
  xa_gas :: U256
  xa_invalid :: "PoolTransaction list"
  xa_included :: "PoolTransaction list"

definition acc_empty :: "'t exec_acc" where
  "acc_empty = \<lparr>xa_transactions = [], xa_infos = [], xa_receipts = [], xa_bloom = 0, xa_gas = 0,
     xa_invalid = [], xa_included = []\<rparr>"

fun output_contract :: "Output option \<Rightarrow> Address option" where
  "output_contract (Some (OutputCreate _ contract_address)) = contract_address"
| "output_contract _ = None"

fun output_bytes :: "Output option \<Rightarrow> bytes option" where
  "output_bytes (Some (OutputCall b)) = Some b"
| "output_bytes (Some (OutputCreate b _)) = Some b"
| "output_bytes None = None"

definition record_executed :: "(bytes \<Rightarrow> Bloom \<Rightarrow> Bloom) \<Rightarrow> 't ExecutedTransaction \<Rightarrow> 't exec_acc \<Rightarrow> 't exec_acc" where
  "record_executed accrue xt acc =
     (let receipt = create_receipt accrue xt;
          transaction = xt_transaction xt;
          pending = pt_pending_transaction transaction;
          info = \<lparr>ti_transaction_hash = pd_hash pending,
                  ti_transaction_index = of_nat (length (xa_infos acc)),
                  ti_from = pd_sender pending, ti_to = tx_to (mi_transaction (pd_transaction pending)),
                  ti_contract_address = output_contract (xt_out xt), ti_logs = xt_logs xt,
                  ti_logs_bloom = receipt_logs_bloom receipt, ti_traces = xt_traces xt,
                  ti_exit = xt_exit_reason xt, ti_out = output_bytes (xt_out xt)\<rparr>
      in acc\<lparr>xa_included := xa_included acc @ [transaction],
             xa_gas := saturating_add (xa_gas acc) (receipt_gas_used receipt),
             xa_bloom := logs_bloom accrue (xt_logs xt) (xa_bloom acc),
             xa_infos := xa_infos acc @ [info], xa_receipts := xa_receipts acc @ [receipt],
             xa_transactions := xa_transactions acc @ [pd_transaction pending]\<rparr>)"

fun record_outcome :: "(bytes \<Rightarrow> Bloom \<Rightarrow> Bloom) \<Rightarrow> ('e, 't) TransactionExecutionOutcome \<Rightarrow> 't exec_acc \<Rightarrow> 't exec_acc" where
  "record_outcome accrue (Executed xt) acc = record_executed accrue xt acc"
| "record_outcome accrue (Exhausted _) acc = acc"
| "record_outcome accrue (Invalid tx _) acc = acc\<lparr>xa_invalid := xa_invalid acc @ [tx]\<rparr>"
| "record_outcome accrue (DatabaseFailure _ _) acc = acc"

fun execute_loop ::
  "('d, 'e, 's, 't) exec_lib \<Rightarrow> U256 \<Rightarrow> PoolTransaction list \<Rightarrow> 't exec_acc \<Rightarrow> 'd TransactionExecutor \<Rightarrow>
    ('t exec_acc \<times> 'd TransactionExecutor) option" where
  "execute_loop lib chain_id [] acc ex = Some (acc, ex)"
| "execute_loop lib chain_id (tx # txs) acc ex =
     (case execute_one lib chain_id tx (ex\<lparr>te_pending := txs\<rparr>) of
        None \<Rightarrow> None
      | Some (r, ex') \<Rightarrow> execute_loop lib chain_id txs (record_outcome (xl_accrue lib) r acc) ex')"

definition execute ::
  "('d, 'e, 's, 't) exec_lib \<Rightarrow> U256 \<Rightarrow> 'd TransactionExecutor \<Rightarrow> ('t ExecutedTransactions \<times> 'd) option" where
  "execute lib chain_id ex = do {
     timestamp \<leftarrow> as_u64 (be_timestamp (te_block_env ex));
     (acc, ex') \<leftarrow> execute_loop lib chain_id (te_pending ex) acc_empty ex;
     let block_env = te_block_env ex;
     let base_fee = (if hf_london (nl_forks (xl_node lib)) \<le> ce_spec_id (te_cfg_env ex)
                     then Some (be_basefee block_env) else None);
     let partial_header =
       \<lparr>ph_parent_hash = te_parent_hash ex, ph_beneficiary = be_coinbase block_env,
        ph_state_root = unwrap_or (xl_state_root lib (te_db ex')) 0,
        ph_receipts_root = xl_root lib (map (receipt_rlp (xl_rlp lib)) (xa_receipts acc)),
        ph_logs_bloom = xa_bloom acc, ph_difficulty = be_difficulty block_env,
        ph_number = be_number block_env, ph_gas_limit = be_gas_limit block_env, ph_gas_used = xa_gas acc,
        ph_timestamp = timestamp, ph_extra_data = [], ph_mix_hash = 0, ph_nonce = 0,
        ph_base_fee = base_fee\<rparr>;
     let block = block_new (xl_crypto lib) (xl_rlp lib) (xl_root lib) partial_header (xa_transactions acc) [];
     Some (\<lparr>ets_block = \<lparr>bi_block = block, bi_transactions = xa_infos acc, bi_receipts = xa_receipts acc\<rparr>,
            ets_included = xa_included acc, ets_invalid = xa_invalid acc\<rparr>, te_db ex')
   }"

section \<open>Outcomes\<close>

text \<open>The outcomes that the executor's iterator yields.\<close>

fun outcomes ::
  "('d, 'e, 's, 't) exec_lib \<Rightarrow> U256 \<Rightarrow> PoolTransaction list \<Rightarrow> 'd TransactionExecutor \<Rightarrow>
    (('e, 't) TransactionExecutionOutcome list \<times> 'd TransactionExecutor) option" where
  "outcomes lib chain_id [] ex = Some ([], ex)"
| "outcomes lib chain_id (tx # txs) ex =
     (case execute_one lib chain_id tx (ex\<lparr>te_pending := txs\<rparr>) of
        None \<Rightarrow> None
      | Some (r, ex') \<Rightarrow> map_option (\<lambda>(rs, ex''). (r # rs, ex'')) (outcomes lib chain_id txs ex'))"

fun outcome_tx :: "('e, 't) TransactionExecutionOutcome \<Rightarrow> PoolTransaction" where
  "outcome_tx (Executed xt) = xt_transaction xt"
| "outcome_tx (Invalid tx _) = tx"
| "outcome_tx (Exhausted tx) = tx"
| "outcome_tx (DatabaseFailure tx _) = tx"

fun executed_of :: "('e, 't) TransactionExecutionOutcome list \<Rightarrow> 't ExecutedTransaction list" where
  "executed_of [] = []"
| "executed_of (Executed xt # rs) = xt # executed_of rs"
| "executed_of (_ # rs) = executed_of rs"

fun invalid_of :: "('e, 't) TransactionExecutionOutcome list \<Rightarrow> PoolTransaction list" where
  "invalid_of [] = []"
| "invalid_of (Invalid tx _ # rs) = tx # invalid_of rs"
| "invalid_of (_ # rs) = invalid_of rs"

fun skipped_of :: "('e, 't) TransactionExecutionOutcome list \<Rightarrow> PoolTransaction list" where
  "skipped_of [] = []"
| "skipped_of (Exhausted tx # rs) = tx # skipped_of rs"
| "skipped_of (DatabaseFailure tx _ # rs) = tx # skipped_of rs"
| "skipped_of (_ # rs) = skipped_of rs"

lemma execute_one_tx:
  assumes "execute_one lib chain_id tx ex = Some (r, ex')"
  shows "outcome_tx r = tx" "te_gas_used ex' = te_gas_used ex" "te_block_env ex' = te_block_env ex"
    "te_cfg_env ex' = te_cfg_env ex" "te_parent_hash ex' = te_parent_hash ex"
  using assms
  by (auto simp: execute_one_def Let_def
      split: result.splits prod.splits EVMError.splits bind_splits if_splits)

lemma to_revm_gas_limit:
  assumes "to_revm_tx_env p = Some t"
  shows "ucast (te_gas_limit t) = tx_gas_limit (mi_transaction (pd_transaction p))"
proof -
  have "ucast g = x" if "as_u64 x = Some g" for x :: U256 and g
  proof -
    have "unat (ucast g :: U256) = unat g"
      using unat_u64 [of g] by (simp add: unsigned_ucast_eq take_bit_nat_eq_self)
    then show ?thesis using that by (simp add: as_u64_Some word_unat_eq_iff)
  qed
  then show ?thesis
    using assms by (cases "mi_transaction (pd_transaction p)") (auto simp: to_revm_tx_env_def split: bind_splits)
qed

text \<open>The only reason to skip a transaction as exhausted is its own gas limit.\<close>

lemma execute_one_exhausted:
  assumes "execute_one lib chain_id tx ex = Some (Exhausted t, ex')" "te_gas_used ex = 0"
  shows "be_gas_limit (te_block_env ex) < tx_gas_limit (mi_transaction (pd_transaction (pt_pending_transaction tx)))"
proof -
  obtain env where env: "env_for ex (pt_pending_transaction tx) = Some env"
    and less: "be_gas_limit (ev_block env) < saturating_add (te_gas_used ex) (ucast (te_gas_limit (ev_tx env)))"
    using assms(1)
    by (auto simp: execute_one_def Let_def
      split: result.splits prod.splits EVMError.splits bind_splits if_splits)
  obtain e where e: "to_revm_tx_env (pt_pending_transaction tx) = Some e"
    "env = \<lparr>ev_cfg = te_cfg_env ex, ev_block = te_block_env ex, ev_tx = e\<rparr>"
    using env by (auto simp: env_for_def)
  have zero: "saturating_add 0 x = x" for x :: U256
    using unat_word_less [of x] by (simp add: saturating_add_def)
  show ?thesis using less e(2) assms(2) to_revm_gas_limit [OF e(1)] by (simp add: zero)
qed

lemma execute_loop_outcomes:
  "execute_loop lib chain_id txs acc ex =
     map_option (\<lambda>(rs, ex'). (foldl (\<lambda>a r. record_outcome (xl_accrue lib) r a) acc rs, ex'))
       (outcomes lib chain_id txs ex)"
  by (induction txs arbitrary: acc ex)
    (auto simp: option.map_comp comp_def split_def split: option.split)

lemma outcomes_txs: "outcomes lib chain_id txs ex = Some (rs, ex') \<Longrightarrow> map outcome_tx rs = txs"
  by (induction txs arbitrary: ex rs ex') (auto dest: execute_one_tx split: option.splits)

lemma execute_one_const:
  "execute_one lib chain_id tx ex = Some (r, ex') \<Longrightarrow>
    te_gas_used ex' = te_gas_used ex \<and> te_block_env ex' = te_block_env ex"
  using execute_one_tx(2,3) by blast

lemma outcomes_const:
  "outcomes lib chain_id txs ex = Some (rs, ex') \<Longrightarrow>
    te_gas_used ex' = te_gas_used ex \<and> te_block_env ex' = te_block_env ex"
  by (induction txs arbitrary: ex rs ex') (auto dest!: execute_one_const split: option.splits)

lemma outcomes_exhausted:
  "outcomes lib chain_id txs ex = Some (rs, ex') \<Longrightarrow> te_gas_used ex = 0 \<Longrightarrow> Exhausted tx \<in> set rs \<Longrightarrow>
    be_gas_limit (te_block_env ex) < tx_gas_limit (mi_transaction (pd_transaction (pt_pending_transaction tx)))"
proof (induction txs arbitrary: ex rs)
  case (Cons t txs)
  obtain r ex1 rs1 where one: "execute_one lib chain_id t (ex\<lparr>te_pending := txs\<rparr>) = Some (r, ex1)"
    and rest: "outcomes lib chain_id txs ex1 = Some (rs1, ex')" and rs: "rs = r # rs1"
    using Cons.prems(1) by (auto split: option.splits)
  show ?case
  proof (cases "r = Exhausted tx")
    case True
    then show ?thesis
      using execute_one_exhausted [of lib chain_id t "ex\<lparr>te_pending := txs\<rparr>" tx ex1] one
        execute_one_tx(1) [OF one] Cons.prems(2) by simp
  next
    case False
    then show ?thesis
      using Cons.IH [OF rest] execute_one_tx(2,3) [OF one] Cons.prems rs by simp
  qed
qed simp

lemma receipt_gas_used_create [simp]:
  "receipt_gas_used (create_receipt accrue xt) = ucast (xt_gas_used xt)"
  by (simp add: create_receipt_def receipt_gas_used_def Let_def split: TypedTransaction.split)

lemma acc_empty_simps [simp]:
  "xa_transactions acc_empty = []" "xa_infos acc_empty = []" "xa_receipts acc_empty = []"
  "xa_bloom acc_empty = 0" "xa_gas acc_empty = 0" "xa_invalid acc_empty = []" "xa_included acc_empty = []"
  by (simp_all add: acc_empty_def)

text \<open>What the loop has recorded, in terms of the outcomes.\<close>

lemma record_outcomes:
  defines "rec accrue acc rs \<equiv> foldl (\<lambda>a r. record_outcome accrue r a) acc rs"
  shows "xa_included (rec accrue acc rs) = xa_included acc @ map xt_transaction (executed_of rs)"
    "xa_invalid (rec accrue acc rs) = xa_invalid acc @ invalid_of rs"
    "xa_receipts (rec accrue acc rs) = xa_receipts acc @ map (create_receipt accrue) (executed_of rs)"
    "xa_transactions (rec accrue acc rs) =
       xa_transactions acc @ map (\<lambda>xt. pd_transaction (pt_pending_transaction (xt_transaction xt))) (executed_of rs)"
    "xa_gas (rec accrue acc rs) =
       foldl saturating_add (xa_gas acc) (map (\<lambda>xt. ucast (xt_gas_used xt)) (executed_of rs))"
    "map ti_transaction_hash (xa_infos (rec accrue acc rs)) =
       map ti_transaction_hash (xa_infos acc) @ map (\<lambda>xt. pt_hash (xt_transaction xt)) (executed_of rs)"
  unfolding rec_def
proof (induction rs arbitrary: acc)
  case (Cons r rs)
  case 1 show ?case using Cons(1) by (cases r) (simp_all add: record_executed_def Let_def)
  case 2 show ?case using Cons(2) by (cases r) (simp_all add: record_executed_def Let_def)
  case 3 show ?case using Cons(3) by (cases r) (simp_all add: record_executed_def Let_def)
  case 4 show ?case using Cons(4) by (cases r) (simp_all add: record_executed_def Let_def)
  case 5 show ?case using Cons(5)
    by (cases r) (simp_all add: record_executed_def create_receipt_def receipt_gas_used_def Let_def
      split: TypedTransaction.split)
  case 6 show ?case using Cons(6) by (cases r) (simp_all add: record_executed_def pt_hash_def Let_def)
qed simp_all

lemma record_indices:
  "map ti_transaction_index (xa_infos acc) = map of_nat [0..<length (xa_infos acc)] \<Longrightarrow>
   (let infos = xa_infos (foldl (\<lambda>a r. record_outcome accrue r a) acc rs)
    in map ti_transaction_index infos = map of_nat [0..<length infos])"
proof (induction rs arbitrary: acc)
  case (Cons r rs)
  show ?case
    using Cons.IH [of "record_outcome accrue r acc"] Cons.prems
    by (cases r) (simp_all add: record_executed_def Let_def)
qed simp

lemma execute_contents:
  assumes "execute lib chain_id ex = Some (ets, db)"
  shows "\<exists>rs ex'. outcomes lib chain_id (te_pending ex) ex = Some (rs, ex') \<and> db = te_db ex' \<and>
    map outcome_tx rs = te_pending ex \<and>
    ets_included ets = map xt_transaction (executed_of rs) \<and> ets_invalid ets = invalid_of rs \<and>
    bi_receipts (ets_block ets) = map (create_receipt (xl_accrue lib)) (executed_of rs) \<and>
    map ti_transaction_hash (bi_transactions (ets_block ets)) = map pt_hash (ets_included ets) \<and>
    map ti_transaction_index (bi_transactions (ets_block ets)) = map of_nat [0..<length (ets_included ets)] \<and>
    bl_transactions (bi_block (ets_block ets)) = map (pd_transaction \<circ> pt_pending_transaction) (ets_included ets) \<and>
    (let h = bl_header (bi_block (ets_block ets)) in
      hd_parent_hash h = te_parent_hash ex \<and> hd_number h = be_number (te_block_env ex) \<and>
      hd_gas_limit h = be_gas_limit (te_block_env ex) \<and> hd_beneficiary h = be_coinbase (te_block_env ex) \<and>
      hd_gas_used h = foldl saturating_add 0 (map receipt_gas_used (bi_receipts (ets_block ets))))"
proof -
  obtain timestamp rs ex' where t: "as_u64 (be_timestamp (te_block_env ex)) = Some timestamp"
    and rs: "outcomes lib chain_id (te_pending ex) ex = Some (rs, ex')"
    using assms by (auto simp: execute_def execute_loop_outcomes split: bind_splits)
  define acc where "acc = foldl (\<lambda>a r. record_outcome (xl_accrue lib) r a) acc_empty rs"
  have acc: "execute_loop lib chain_id (te_pending ex) acc_empty ex = Some (acc, ex')"
    by (simp add: execute_loop_outcomes rs acc_def)
  note facts = record_outcomes [of "xl_accrue lib" acc_empty rs, folded acc_def]
  have idx: "map ti_transaction_index (xa_infos acc) = map of_nat [0..<length (xa_infos acc)]"
    using record_indices [of acc_empty "xl_accrue lib" rs] by (simp add: acc_def Let_def)
  have len: "length (xa_infos acc) = length (executed_of rs)"
    using arg_cong [OF facts(6), of length] by simp
  show ?thesis
    using assms rs facts idx len outcomes_txs [OF rs]
    by (intro exI [of _ rs] exI [of _ ex'])
      (simp add: execute_def acc t block_new_def header_new_def Let_def comp_def pt_hash_def
        split: bind_splits, auto simp: comp_def pt_hash_def)
qed

section \<open>Properties\<close>

text \<open>
  C10: what a mined block holds.  The executor tries the transactions in the order it was given them; the
  included ones, in that order, are the executed ones, with one receipt and one info each, numbered from 0;
  the invalid ones are reported and the others skipped.  The header names the parent, carries the number,
  gas limit and coinbase of the block environment and the saturating sum of the receipts' gas.
\<close>

theorem block_contents:
  assumes "execute lib chain_id ex = Some (ets, db)"
  shows "\<exists>rs ex'. outcomes lib chain_id (te_pending ex) ex = Some (rs, ex') \<and> db = te_db ex' \<and>
    map outcome_tx rs = te_pending ex \<and>
    ets_included ets = map xt_transaction (executed_of rs) \<and> ets_invalid ets = invalid_of rs \<and>
    bi_receipts (ets_block ets) = map (create_receipt (xl_accrue lib)) (executed_of rs) \<and>
    map ti_transaction_hash (bi_transactions (ets_block ets)) = map pt_hash (ets_included ets) \<and>
    map ti_transaction_index (bi_transactions (ets_block ets)) = map of_nat [0..<length (ets_included ets)] \<and>
    bl_transactions (bi_block (ets_block ets)) = map (pd_transaction \<circ> pt_pending_transaction) (ets_included ets) \<and>
    (let h = bl_header (bi_block (ets_block ets)) in
      hd_parent_hash h = te_parent_hash ex \<and> hd_number h = be_number (te_block_env ex) \<and>
      hd_gas_limit h = be_gas_limit (te_block_env ex) \<and> hd_beneficiary h = be_coinbase (te_block_env ex) \<and>
      hd_gas_used h = foldl saturating_add 0 (map receipt_gas_used (bi_receipts (ets_block ets))))"
  using assms by (rule execute_contents)

text \<open>An EVM on which every transaction succeeds and uses all of its gas, and a rich sender.\<close>

definition ex_xlib :: "(unit, unit, unit, unit) exec_lib" where
  "ex_xlib = \<lparr>xl_node =
       \<lparr>nl_inspect_ref = (\<lambda>ev _. Ok (Success EvalStop (te_gas_limit (ev_tx ev)) [] (OutputCall []), ())),
        nl_inspect_commit = (\<lambda>ev _ d. (Ok (Success EvalStop (te_gas_limit (ev_tx ev)) [] (OutputCall [])), (), d)),
        nl_basic = (\<lambda>_ _. Ok (Some \<lparr>ac_balance = 1000000, ac_nonce = 0, ac_code_hash = 0, ac_code = None\<rparr>)),
        nl_code_by_hash = (\<lambda>_ _. Ok []), nl_keccak_empty = 0,
        nl_forks = \<lparr>hf_spurious_dragon = 5, hf_berlin = 11, hf_london = 12, hf_merge = 15\<rparr>\<rparr>,
     xl_accrue = (\<lambda>_ b. b), xl_root = (\<lambda>_. 0), xl_state_root = (\<lambda>_. None),
     xl_crypto = \<lparr>keccak256 = (\<lambda>_. 0), sig_recover = (\<lambda>_ _. Err 0), sig_try_from = (\<lambda>_. Err 0)\<rparr>,
     xl_rlp = ex_rlp\<rparr>"

definition ex_transfer :: "H256 \<Rightarrow> U256 \<Rightarrow> PoolTransaction" where
  "ex_transfer h nonce =
     \<lparr>pt_pending_transaction =
        \<lparr>pd_transaction = \<lparr>mi_transaction = Legacy \<lparr>lt_nonce = nonce, lt_gas_price = 1, lt_gas_limit = 30000,
            lt_kind = Call 9, lt_value = 0, lt_input = [], lt_signature = IMPERSONATED_SIGNATURE\<rparr>,
          mi_impersonated_sender = Some 3\<rparr>,
         pd_sender = 3, pd_hash = h\<rparr>,
      pt_requires = [], pt_provides = [to_marker (ucast nonce) 3], pt_priority = 0\<rparr>"

definition ex_executor :: "PoolTransaction list \<Rightarrow> unit TransactionExecutor" where
  "ex_executor txs =
     \<lparr>te_db = (), te_pending = txs,
      te_block_env = \<lparr>be_number = 1, be_coinbase = 0, be_timestamp = 5, be_difficulty = 0, be_prevrandao = None,
        be_basefee = 1, be_gas_limit = 40000\<rparr>,
      te_cfg_env = \<lparr>ce_spec_id = 12, ce_chain_id = 1, ce_disable_block_gas_limit = False,
        ce_disable_base_fee = False, ce_disable_eip3607 = True\<rparr>,
      te_parent_hash = 0, te_gas_used = 0, te_enable_steps_tracing = False\<rparr>"

lemma ex_execute_one:
  assumes "nonce = 0 \<or> nonce = 1"
  shows "execute_one ex_xlib 1 (ex_transfer h nonce) ((ex_executor txs)\<lparr>te_pending := rest\<rparr>) =
    Some (Executed \<lparr>xt_transaction = ex_transfer h nonce, xt_exit_reason = Stop,
      xt_out = Some (OutputCall []), xt_gas_used = 30000, xt_logs = [], xt_traces = ()\<rparr>,
      (ex_executor txs)\<lparr>te_pending := rest\<rparr>)"
  using assms
  by (auto simp: execute_one_def Let_def ex_xlib_def ex_executor_def ex_transfer_def env_for_def
    to_revm_tx_env_def as_u64_def saturating_add_def validate_pool_transaction_for_def check_chain_id_def
    legacy_chain_id_def IMPERSONATED_SIGNATURE_def MIN_TRANSACTION_GAS_def check_fees_def add_chk_def
    tx_max_cost_def saturating_mul_def)

lemma ex_outcomes:
  "\<exists>rs ex'. outcomes ex_xlib 1 [ex_transfer 1 0, ex_transfer 2 1] (ex_executor [ex_transfer 1 0, ex_transfer 2 1]) =
    Some (rs, ex') \<and> map xt_transaction (executed_of rs) = [ex_transfer 1 0, ex_transfer 2 1] \<and>
    map xt_gas_used (executed_of rs) = [30000, 30000]"
  by (simp add: ex_execute_one)

lemma ex_execute:
  "\<exists>ets db. execute ex_xlib 1 (ex_executor [ex_transfer 1 0, ex_transfer 2 1]) = Some (ets, db)"
proof -
  obtain rs ex' where "outcomes ex_xlib 1 [ex_transfer 1 0, ex_transfer 2 1]
      (ex_executor [ex_transfer 1 0, ex_transfer 2 1]) = Some (rs, ex')"
    using ex_outcomes by blast
  moreover have "te_pending (ex_executor txs) = txs" "be_timestamp (te_block_env (ex_executor txs)) = 5" for txs
    by (simp_all add: ex_executor_def)
  ultimately show ?thesis by (simp add: execute_def execute_loop_outcomes as_u64_def Let_def)
qed

theorem block_contents_witness:
  "\<exists>ets db. execute ex_xlib 1 (ex_executor [ex_transfer 1 0, ex_transfer 2 1]) = Some (ets, db) \<and>
    map ti_transaction_hash (bi_transactions (ets_block ets)) = [1, 2]"
proof -
  obtain ets db where run: "execute ex_xlib 1 (ex_executor [ex_transfer 1 0, ex_transfer 2 1]) = Some (ets, db)"
    using ex_execute by (elim exE)
  have pend: "te_pending (ex_executor txs) = txs" for txs by (simp add: ex_executor_def)
  have "map ti_transaction_hash (bi_transactions (ets_block ets)) = [1, 2]"
    using block_contents [OF run] ex_outcomes by (auto simp: pend pt_hash_def ex_transfer_def)
  with run show ?thesis by (intro exI conjI)
qed


end
