(* ===== verification/BlockStates.thy ===== *)
theory BlockStates
  imports Prelude
begin

text \<open>
  The history of states (\<open>InMemoryBlockStates\<close> of \<open>anvil/src/eth/backend/mem/storage.rs\<close>): the newest
  states are held in memory, older ones are written to disk, the oldest are dropped.

  A state is a trait object of the source: \<open>sl_clear\<close> is \<open>clear_into_snapshot\<close>, which empties the state and
  returns a snapshot, and \<open>sl_init\<close> is \<open>init_from_snapshot\<close>.  \<open>DiskStateCache\<close> is the map from hashes to the
  snapshots its files hold; a write that is delayed or fails is not modelled.  The two loops of
  \<open>enforce_limits\<close> are partial functions, whose \<open>None\<close> is a loop that does not end.
\<close>

section \<open>Data and operations\<close>

definition DEFAULT_HISTORY_LIMIT :: nat where "DEFAULT_HISTORY_LIMIT = 500"
definition MIN_HISTORY_LIMIT :: nat where "MIN_HISTORY_LIMIT = 10"
definition MAX_ON_DISK_HISTORY_LIMIT :: nat where "MAX_ON_DISK_HISTORY_LIMIT = 3600"

record ('st, 'sn) state_lib =
  sl_clear :: "'st \<Rightarrow> 'sn \<times> 'st"
  sl_init :: "'sn \<Rightarrow> 'st \<Rightarrow> 'st"

definition state_lib_ok :: "('st, 'sn) state_lib \<Rightarrow> bool" where
  "state_lib_ok sl \<longleftrightarrow> (\<forall>st. sl_init sl (fst (sl_clear sl st)) (snd (sl_clear sl st)) = st)"

record ('st, 'sn) InMemoryBlockStates =
  bs_states :: "(H256, 'st) fmap"
  bs_on_disk_states :: "(H256, 'st) fmap"
  bs_in_memory_limit :: nat
  bs_min_in_memory_limit :: nat
  bs_max_on_disk_limit :: nat
  bs_oldest_on_disk :: "H256 list"
  bs_present :: "H256 list"
  bs_disk_cache :: "(H256, 'sn) fmap"

definition bs_new :: "nat \<Rightarrow> ('st, 'sn) InMemoryBlockStates" where
  "bs_new limit = \<lparr>bs_states = fmempty, bs_on_disk_states = fmempty, bs_in_memory_limit = limit,
     bs_min_in_memory_limit = min limit MIN_HISTORY_LIMIT, bs_max_on_disk_limit = MAX_ON_DISK_HISTORY_LIMIT,
     bs_oldest_on_disk = [], bs_present = [], bs_disk_cache = fmempty\<rparr>"

definition bs_default :: "('st, 'sn) InMemoryBlockStates" where
  "bs_default = bs_new DEFAULT_HISTORY_LIMIT"

definition memory_only :: "('st, 'sn) InMemoryBlockStates \<Rightarrow> ('st, 'sn) InMemoryBlockStates" where
  "memory_only s = s\<lparr>bs_max_on_disk_limit := 0\<rparr>"

definition is_memory_only :: "('st, 'sn) InMemoryBlockStates \<Rightarrow> bool" where
  "is_memory_only s \<longleftrightarrow> bs_max_on_disk_limit s = 0"

text \<open>The body of the first loop: the oldest state in memory goes to disk, if that is supported.\<close>

definition evict_present :: "('st, 'sn) state_lib \<Rightarrow> ('st, 'sn) InMemoryBlockStates \<Rightarrow> ('st, 'sn) InMemoryBlockStates" where
  "evict_present sl s =
     (case bs_present s of
        [] \<Rightarrow> s
      | hash # rest \<Rightarrow>
         (let s1 = s\<lparr>bs_present := rest\<rparr> in
          case fmlookup (bs_states s1) hash of
            None \<Rightarrow> s1
          | Some state \<Rightarrow>
             (let s2 = s1\<lparr>bs_states := fmdrop hash (bs_states s1)\<rparr> in
              if is_memory_only s2 then s2
              else (case sl_clear sl state of (snapshot, state') \<Rightarrow>
                s2\<lparr>bs_disk_cache := fmupd hash snapshot (bs_disk_cache s2),
                   bs_on_disk_states := fmupd hash state' (bs_on_disk_states s2),
                   bs_oldest_on_disk := bs_oldest_on_disk s2 @ [hash]\<rparr>))))"

partial_function (option) enforce_memory ::
  "('st, 'sn) state_lib \<Rightarrow> ('st, 'sn) InMemoryBlockStates \<Rightarrow> ('st, 'sn) InMemoryBlockStates option" where
  "enforce_memory sl s =
     (if bs_in_memory_limit s \<le> length (bs_present s) then enforce_memory sl (evict_present sl s) else Some s)"

definition evict_on_disk :: "('st, 'sn) InMemoryBlockStates \<Rightarrow> ('st, 'sn) InMemoryBlockStates" where
  "evict_on_disk s =
     (case bs_oldest_on_disk s of
        [] \<Rightarrow> s
      | hash # rest \<Rightarrow>
         s\<lparr>bs_oldest_on_disk := rest, bs_on_disk_states := fmdrop hash (bs_on_disk_states s),
           bs_disk_cache := fmdrop hash (bs_disk_cache s)\<rparr>)"

partial_function (option) enforce_on_disk ::
  "('st, 'sn) InMemoryBlockStates \<Rightarrow> ('st, 'sn) InMemoryBlockStates option" where
  "enforce_on_disk s =
     (if \<not> is_memory_only s \<and> bs_max_on_disk_limit s \<le> length (bs_oldest_on_disk s)
      then enforce_on_disk (evict_on_disk s) else Some s)"

definition enforce_limits ::
  "('st, 'sn) state_lib \<Rightarrow> ('st, 'sn) InMemoryBlockStates \<Rightarrow> ('st, 'sn) InMemoryBlockStates option" where
  "enforce_limits sl s = Option.bind (enforce_memory sl s) enforce_on_disk"

definition bs_insert ::
  "('st, 'sn) state_lib \<Rightarrow> H256 \<Rightarrow> 'st \<Rightarrow> ('st, 'sn) InMemoryBlockStates \<Rightarrow> ('st, 'sn) InMemoryBlockStates option" where
  "bs_insert sl hash state s =
     (let s1 = (if \<not> is_memory_only s \<and> bs_in_memory_limit s \<le> length (bs_present s)
                then s\<lparr>bs_in_memory_limit := max (bs_in_memory_limit s - 1) (bs_min_in_memory_limit s)\<rparr> else s)
      in map_option (\<lambda>s2. s2\<lparr>bs_states := fmupd hash state (bs_states s2), bs_present := bs_present s2 @ [hash]\<rparr>)
           (enforce_limits sl s1))"

text \<open>\<open>get\<close> restores a state from its snapshot in place.\<close>

definition bs_get ::
  "('st, 'sn) state_lib \<Rightarrow> H256 \<Rightarrow> ('st, 'sn) InMemoryBlockStates \<Rightarrow> 'st option \<times> ('st, 'sn) InMemoryBlockStates" where
  "bs_get sl hash s =
     (case fmlookup (bs_states s) hash of
        Some state \<Rightarrow> (Some state, s)
      | None \<Rightarrow> (case fmlookup (bs_on_disk_states s) hash of
          None \<Rightarrow> (None, s)
        | Some state \<Rightarrow> (case fmlookup (bs_disk_cache s) hash of
            None \<Rightarrow> (None, s)
          | Some cached \<Rightarrow>
             (let state' = sl_init sl cached state in
              (Some state', s\<lparr>bs_on_disk_states := fmupd hash state' (bs_on_disk_states s)\<rparr>)))))"

definition set_cache_limit :: "nat \<Rightarrow> ('st, 'sn) InMemoryBlockStates \<Rightarrow> ('st, 'sn) InMemoryBlockStates" where
  "set_cache_limit limit s = s\<lparr>bs_in_memory_limit := limit\<rparr>"

definition bs_update_interval_mine_block_time ::
  "('st, 'sn) state_lib \<Rightarrow> u64 \<Rightarrow> ('st, 'sn) InMemoryBlockStates \<Rightarrow> ('st, 'sn) InMemoryBlockStates option" where
  "bs_update_interval_mine_block_time sl block_time s =
     (if block_time \<le> 2 then enforce_limits sl (s\<lparr>bs_in_memory_limit := DEFAULT_HISTORY_LIMIT * 3\<rparr>) else Some s)"

definition bs_clear :: "('st, 'sn) InMemoryBlockStates \<Rightarrow> ('st, 'sn) InMemoryBlockStates" where
  "bs_clear s = s\<lparr>bs_states := fmempty, bs_on_disk_states := fmempty, bs_present := [], bs_oldest_on_disk := [],
     bs_disk_cache := fold fmdrop (bs_oldest_on_disk s) (bs_disk_cache s)\<rparr>"

section \<open>Termination of the loops\<close>

lemma evict_present_params [simp]:
  "bs_in_memory_limit (evict_present sl s) = bs_in_memory_limit s"
  "bs_min_in_memory_limit (evict_present sl s) = bs_min_in_memory_limit s"
  "bs_max_on_disk_limit (evict_present sl s) = bs_max_on_disk_limit s"
  "bs_present (evict_present sl s) = tl (bs_present s)"
  by (auto simp: evict_present_def Let_def split: list.split option.split prod.split)

lemma evict_on_disk_params [simp]:
  "bs_in_memory_limit (evict_on_disk s) = bs_in_memory_limit s"
  "bs_min_in_memory_limit (evict_on_disk s) = bs_min_in_memory_limit s"
  "bs_max_on_disk_limit (evict_on_disk s) = bs_max_on_disk_limit s"
  "bs_present (evict_on_disk s) = bs_present s" "bs_states (evict_on_disk s) = bs_states s"
  "bs_oldest_on_disk (evict_on_disk s) = tl (bs_oldest_on_disk s)"
  by (auto simp: evict_on_disk_def split: list.split)

lemma enforce_memory_diverges: "enforce_memory sl s = Some s' \<Longrightarrow> 0 < bs_in_memory_limit s"
  by (rule enforce_memory.raw_induct [where P = "\<lambda>sl s s'. 0 < bs_in_memory_limit s"])
    (auto split: if_splits, metis evict_present_params(1))

lemma enforce_memory_returns:
  "0 < bs_in_memory_limit s \<Longrightarrow> \<exists>s'. enforce_memory sl s = Some s'"
proof (induction "length (bs_present s)" arbitrary: s rule: less_induct)
  case less
  show ?case
  proof (cases "bs_in_memory_limit s \<le> length (bs_present s)")
    case True
    then have "length (bs_present (evict_present sl s)) < length (bs_present s)"
      using less.prems by (cases "bs_present s") simp_all
    then show ?thesis
      using less.hyps [of "evict_present sl s"] less.prems True by (simp add: enforce_memory.simps [of sl s])
  qed (simp add: enforce_memory.simps)
qed

lemma enforce_on_disk_returns: "\<exists>s'. enforce_on_disk s = Some s'"
proof (induction "length (bs_oldest_on_disk s)" arbitrary: s rule: less_induct)
  case less
  show ?case
  proof (cases "\<not> is_memory_only s \<and> bs_max_on_disk_limit s \<le> length (bs_oldest_on_disk s)")
    case True
    then have "length (bs_oldest_on_disk (evict_on_disk s)) < length (bs_oldest_on_disk s)"
      by (cases "bs_oldest_on_disk s") (auto simp: is_memory_only_def)
    then show ?thesis
      using less.hyps [of "evict_on_disk s"] True by (simp add: enforce_on_disk.simps [of s])
  qed (auto simp: enforce_on_disk.simps [of s])
qed

text \<open>The limit that \<open>insert\<close> enforces.\<close>

definition adjusted_limit :: "('st, 'sn) InMemoryBlockStates \<Rightarrow> nat" where
  "adjusted_limit s =
     (if \<not> is_memory_only s \<and> bs_in_memory_limit s \<le> length (bs_present s)
      then max (bs_in_memory_limit s - 1) (bs_min_in_memory_limit s) else bs_in_memory_limit s)"

lemma bs_insert_adjusted:
  "bs_insert sl hash state s =
    map_option (\<lambda>s2. s2\<lparr>bs_states := fmupd hash state (bs_states s2), bs_present := bs_present s2 @ [hash]\<rparr>)
      (enforce_limits sl (s\<lparr>bs_in_memory_limit := adjusted_limit s\<rparr>))"
  by (simp add: bs_insert_def adjusted_limit_def)

text \<open>
  C37: storing a state returns exactly when the limit for the states in memory is positive.  With the limit
  0, which \<open>--prune-history 0\<close> configures, the first block that is mined never returns: the loop evicts the
  oldest state while there are at least 0 of them.
\<close>

theorem insert_returns_iff:
  "((\<exists>s'. bs_insert sl hash state s = Some s') \<longleftrightarrow> 0 < adjusted_limit s) \<and>
   bs_insert sl hash state (memory_only (bs_new 0)) = None"
proof -
  have iff: "(\<exists>s'. bs_insert sl hash state s = Some s') \<longleftrightarrow> 0 < adjusted_limit s" for s
    using enforce_memory_diverges [of sl "s\<lparr>bs_in_memory_limit := adjusted_limit s\<rparr>"]
      enforce_memory_returns [of "s\<lparr>bs_in_memory_limit := adjusted_limit s\<rparr>" sl] enforce_on_disk_returns
    by (fastforce simp: bs_insert_adjusted enforce_limits_def bind_eq_Some_conv)
  have "adjusted_limit (memory_only (bs_new 0) :: ('a, 'b) InMemoryBlockStates) = 0"
    by (simp add: adjusted_limit_def memory_only_def bs_new_def is_memory_only_def)
  then have "bs_insert sl hash state (memory_only (bs_new 0)) = None"
    using iff [of "memory_only (bs_new 0)"] by (cases "bs_insert sl hash state (memory_only (bs_new 0))") simp_all
  with iff show ?thesis by blast
qed

section \<open>Invariant\<close>

text \<open>The hashes whose states are kept, oldest first, and what \<open>get\<close> returns for a hash.\<close>

definition bs_history :: "('st, 'sn) InMemoryBlockStates \<Rightarrow> H256 list" where
  "bs_history s = bs_oldest_on_disk s @ bs_present s"

definition bs_lookup :: "('st, 'sn) state_lib \<Rightarrow> ('st, 'sn) InMemoryBlockStates \<Rightarrow> H256 \<Rightarrow> 'st option" where
  "bs_lookup sl s hash = fst (bs_get sl hash s)"

definition bs_wf :: "('st, 'sn) InMemoryBlockStates \<Rightarrow> bool" where
  "bs_wf s \<longleftrightarrow> distinct (bs_history s) \<and> fset (fmdom (bs_states s)) = set (bs_present s) \<and>
     fset (fmdom (bs_on_disk_states s)) = set (bs_oldest_on_disk s) \<and>
     fset (fmdom (bs_disk_cache s)) = set (bs_oldest_on_disk s) \<and>
     (is_memory_only s \<longrightarrow> bs_oldest_on_disk s = []) \<and>
     0 < bs_min_in_memory_limit s \<and> bs_min_in_memory_limit s \<le> bs_in_memory_limit s"

lemma bs_wf_new: "0 < limit \<Longrightarrow> bs_wf (bs_new limit)" "0 < limit \<Longrightarrow> bs_wf (memory_only (bs_new limit))"
  by (simp_all add: bs_wf_def bs_new_def memory_only_def bs_history_def MIN_HISTORY_LIMIT_def)

lemma bs_lookup_def':
  "bs_lookup sl s hash =
     (case fmlookup (bs_states s) hash of
        Some state \<Rightarrow> Some state
      | None \<Rightarrow> (case (fmlookup (bs_on_disk_states s) hash, fmlookup (bs_disk_cache s) hash) of
          (Some state, Some cached) \<Rightarrow> Some (sl_init sl cached state) | _ \<Rightarrow> None))"
  by (simp add: bs_lookup_def bs_get_def Let_def split: option.split)

text \<open>
  \<open>dropped k s s'\<close>: the oldest \<open>k\<close> states are gone and the others are still found.
\<close>

definition dropped :: "('st, 'sn) state_lib \<Rightarrow> nat \<Rightarrow> ('st, 'sn) InMemoryBlockStates \<Rightarrow> ('st, 'sn) InMemoryBlockStates \<Rightarrow> bool" where
  "dropped sl k s s' \<longleftrightarrow> bs_history s' = drop k (bs_history s) \<and>
     (\<forall>h \<in> set (bs_history s'). bs_lookup sl s' h = bs_lookup sl s h) \<and>
     bs_in_memory_limit s' = bs_in_memory_limit s \<and> bs_min_in_memory_limit s' = bs_min_in_memory_limit s \<and>
     bs_max_on_disk_limit s' = bs_max_on_disk_limit s"

lemma dropped_refl: "dropped sl 0 s s"
  by (simp add: dropped_def)

lemma dropped_trans: "dropped sl k s s' \<Longrightarrow> dropped sl j s' s'' \<Longrightarrow> dropped sl (k + j) s s''"
  using set_drop_subset_set_drop [of k "k + j" "bs_history s"]
  by (auto simp: dropped_def add.commute)

lemma fmdom_lookup: "fset (fmdom m) = A \<Longrightarrow> fmlookup m x = None \<longleftrightarrow> x \<notin> A"
  by (auto simp: fmlookup_dom_iff)

lemma evict_present_ok:
  assumes sl: "state_lib_ok sl" and wf: "bs_wf s" and ne: "bs_present s \<noteq> []"
  shows "bs_wf (evict_present sl s) \<and> dropped sl (if is_memory_only s then 1 else 0) s (evict_present sl s)"
proof -
  obtain hash rest where p: "bs_present s = hash # rest" using ne by (cases "bs_present s") auto
  have "hash \<in> fset (fmdom (bs_states s))" using wf p by (simp add: bs_wf_def)
  then obtain state where st: "fmlookup (bs_states s) hash = Some state" by (auto simp: fmlookup_dom_iff)
  obtain sn state' where sn: "sl_clear sl state = (sn, state')" by (cases "sl_clear sl state")
  have init: "sl_init sl sn state' = state" using sl sn by (auto simp: state_lib_ok_def dest: spec [of _ state])
  have d: "distinct (bs_oldest_on_disk s)" "hash \<notin> set rest" "hash \<notin> set (bs_oldest_on_disk s)" "distinct rest"
    "set (bs_oldest_on_disk s) \<inter> set rest = {}"
    using wf p by (auto simp: bs_wf_def bs_history_def)
  have dom: "fset (fmdom (fmdrop hash (bs_states s))) = set rest"
    "fset (fmdom (bs_on_disk_states s)) = set (bs_oldest_on_disk s)"
    "fset (fmdom (bs_disk_cache s)) = set (bs_oldest_on_disk s)"
    using wf p d(2) by (auto simp: bs_wf_def)
  show ?thesis
  proof (cases "is_memory_only s")
    case True
    then have e: "evict_present sl s = s\<lparr>bs_present := rest, bs_states := fmdrop hash (bs_states s)\<rparr>"
      using p st by (simp add: evict_present_def is_memory_only_def)
    have "bs_lookup sl (evict_present sl s) h = bs_lookup sl s h" if "h \<in> set rest" for h
      using that d(2) by (auto simp: e bs_lookup_def' cong: option.case_cong)
    then show ?thesis
      using True wf p d dom by (auto simp: e bs_wf_def bs_history_def dropped_def is_memory_only_def)
  next
    case False
    then have e: "evict_present sl s = s\<lparr>bs_present := rest, bs_states := fmdrop hash (bs_states s),
        bs_disk_cache := fmupd hash sn (bs_disk_cache s), bs_on_disk_states := fmupd hash state' (bs_on_disk_states s),
        bs_oldest_on_disk := bs_oldest_on_disk s @ [hash]\<rparr>"
      using p st sn by (simp add: evict_present_def is_memory_only_def)
    have "bs_wf (evict_present sl s)"
      using False wf p d dom by (auto simp: e bs_wf_def bs_history_def is_memory_only_def)
    moreover have "bs_lookup sl (evict_present sl s) h = bs_lookup sl s h" for h
      by (cases "h = hash") (simp_all add: e bs_lookup_def' st init cong: option.case_cong)
    ultimately show ?thesis using False p by (simp add: dropped_def bs_history_def e)
  qed
qed

lemma enforce_memory_ok:
  assumes sl: "state_lib_ok sl"
  shows "bs_wf s \<Longrightarrow> \<exists>s' k. enforce_memory sl s = Some s' \<and> bs_wf s' \<and> dropped sl k s s' \<and>
    length (bs_present s') < bs_in_memory_limit s \<and>
    (k \<noteq> 0 \<longrightarrow> is_memory_only s \<and> bs_in_memory_limit s \<le> length (bs_present s))"
proof (induction "length (bs_present s)" arbitrary: s rule: less_induct)
  case less
  show ?case
  proof (cases "bs_in_memory_limit s \<le> length (bs_present s)")
    case True
    have ne: "bs_present s \<noteq> []" using less.prems True by (auto simp: bs_wf_def)
    note ev = evict_present_ok [OF sl less.prems ne]
    have "length (bs_present (evict_present sl s)) < length (bs_present s)" using ne by simp
    then obtain s' k where s': "enforce_memory sl (evict_present sl s) = Some s'" "bs_wf s'"
      "dropped sl k (evict_present sl s) s'" "length (bs_present s') < bs_in_memory_limit s"
      "k \<noteq> 0 \<longrightarrow> is_memory_only s"
      using less.hyps [of "evict_present sl s"] ev by (auto simp: is_memory_only_def)
    have "dropped sl ((if is_memory_only s then 1 else 0) + k) s s'"
      using ev s'(3) dropped_trans by blast
    then show ?thesis
      using s' True by (intro exI [of _ s'] exI [of _ "(if is_memory_only s then 1 else 0) + k"])
        (simp add: enforce_memory.simps [of sl s])
  next
    case False
    then show ?thesis using less.prems dropped_refl [of sl s]
      by (intro exI [of _ s] exI [of _ 0]) (simp add: enforce_memory.simps [of sl s])
  qed
qed

lemma evict_on_disk_ok:
  assumes wf: "bs_wf s" and ne: "bs_oldest_on_disk s \<noteq> []"
  shows "bs_wf (evict_on_disk s) \<and> dropped sl 1 s (evict_on_disk s)"
proof -
  obtain hash rest where p: "bs_oldest_on_disk s = hash # rest" using ne by (cases "bs_oldest_on_disk s") auto
  have "hash \<notin> set rest" "hash \<notin> set (bs_present s)" using wf p by (auto simp: bs_wf_def bs_history_def)
  moreover have e: "evict_on_disk s = s\<lparr>bs_oldest_on_disk := rest,
      bs_on_disk_states := fmdrop hash (bs_on_disk_states s), bs_disk_cache := fmdrop hash (bs_disk_cache s)\<rparr>"
    using p by (simp add: evict_on_disk_def)
  moreover have "bs_lookup sl (evict_on_disk s) h = bs_lookup sl s h" if "h \<in> set rest \<or> h \<in> set (bs_present s)" for h
    using that \<open>hash \<notin> set rest\<close> \<open>hash \<notin> set (bs_present s)\<close> by (auto simp: e bs_lookup_def' cong: option.case_cong)
  ultimately show ?thesis
    using wf p by (auto simp: bs_wf_def dropped_def bs_history_def is_memory_only_def)
qed

lemma enforce_on_disk_ok:
  "bs_wf s \<Longrightarrow> \<exists>s' k. enforce_on_disk s = Some s' \<and> bs_wf s' \<and> dropped sl k s s' \<and> bs_present s' = bs_present s \<and>
    (is_memory_only s \<or> length (bs_oldest_on_disk s') < bs_max_on_disk_limit s) \<and>
    (k \<noteq> 0 \<longrightarrow> \<not> is_memory_only s \<and> bs_max_on_disk_limit s \<le> length (bs_oldest_on_disk s))"
proof (induction "length (bs_oldest_on_disk s)" arbitrary: s rule: less_induct)
  case less
  show ?case
  proof (cases "\<not> is_memory_only s \<and> bs_max_on_disk_limit s \<le> length (bs_oldest_on_disk s)")
    case True
    then have ne: "bs_oldest_on_disk s \<noteq> []" by (auto simp: is_memory_only_def)
    note ev = evict_on_disk_ok [OF less.prems ne, of sl]
    have "length (bs_oldest_on_disk (evict_on_disk s)) < length (bs_oldest_on_disk s)" using ne by simp
    then obtain s' k where s': "enforce_on_disk (evict_on_disk s) = Some s'" "bs_wf s'"
      "dropped sl k (evict_on_disk s) s'" "bs_present s' = bs_present s"
      "is_memory_only s \<or> length (bs_oldest_on_disk s') < bs_max_on_disk_limit s"
      using less.hyps [of "evict_on_disk s"] ev by (auto simp: is_memory_only_def)
    have "dropped sl (1 + k) s s'" using ev s'(3) dropped_trans by blast
    then show ?thesis
      using s' True by (intro exI [of _ s'] exI [of _ "1 + k"]) (simp add: enforce_on_disk.simps [of s])
  next
    case False
    then show ?thesis using less.prems dropped_refl [of sl s]
      by (intro exI [of _ s] exI [of _ 0]) (auto simp: enforce_on_disk.simps [of s])
  qed
qed

section \<open>Properties\<close>


definition ex_states :: "(nat, nat) state_lib" where
  "ex_states = \<lparr>sl_clear = (\<lambda>st. (st, 0)), sl_init = (\<lambda>sn _. sn)\<rparr>"


end
