(* ===== verification/Chain.thy ===== *)
theory Chain
  imports Executor BlockStates
begin

text \<open>
  The chain of the node: the storage of blocks (\<open>BlockchainStorage\<close> of
  \<open>anvil/src/eth/backend/mem/storage.rs\<close>), and the operations of the backend
  (\<open>anvil/src/eth/backend/mem/mod.rs\<close>) that change it: mining a block, taking a snapshot and reverting to one.

  The backend is a record of what its locks protect; a call is the sequence of its critical sections.  Not
  modelled: fork mode, the notification of listeners and the log output of a block.  \<open>mine_lib\<close> has the
  methods of the database that these operations call.  \<open>None\<close> is a call that does not return: a panic, or the
  loop of the state history.
\<close>

section \<open>Storage\<close>

record 't MinedTransaction =
  mt_info :: "'t TransactionInfo"
  mt_receipt :: TypedReceipt
  mt_block_hash :: H256
  mt_block_number :: u64

record 't BlockchainStorage =
  st_blocks :: "(H256, Block) fmap"
  st_hashes :: "(u64, H256) fmap"
  st_best_hash :: H256
  st_best_number :: u64
  st_genesis_hash :: H256
  st_transactions :: "(H256, 't MinedTransaction) fmap"
  st_total_difficulty :: U256

definition storage_new :: "('d, 'e, 's, 't) exec_lib \<Rightarrow> EvmEnv \<Rightarrow> U256 option \<Rightarrow> u64 \<Rightarrow> 't BlockchainStorage" where
  "storage_new lib env base_fee timestamp =
     (let partial_header = partial_header_default\<lparr>ph_timestamp := timestamp, ph_base_fee := base_fee,
            ph_gas_limit := be_gas_limit (ev_block env), ph_beneficiary := be_coinbase (ev_block env),
            ph_difficulty := be_difficulty (ev_block env)\<rparr>;
          block = block_new (xl_crypto lib) (xl_rlp lib) (xl_root lib) partial_header [] [];
          genesis_hash = header_hash (xl_crypto lib) (xl_rlp lib) (bl_header block)
      in \<lparr>st_blocks = fmupd genesis_hash block fmempty, st_hashes = fmupd 0 genesis_hash fmempty,
          st_best_hash = genesis_hash, st_best_number = 0, st_genesis_hash = genesis_hash,
          st_transactions = fmempty, st_total_difficulty = 0\<rparr>)"

definition storage_forked :: "u64 \<Rightarrow> H256 \<Rightarrow> U256 \<Rightarrow> 't BlockchainStorage" where
  "storage_forked block_number block_hash total_difficulty =
     \<lparr>st_blocks = fmempty, st_hashes = fmupd block_number block_hash fmempty, st_best_hash = block_hash,
      st_best_number = block_number, st_genesis_hash = 0, st_transactions = fmempty,
      st_total_difficulty = total_difficulty\<rparr>"

definition storage_empty :: "'t BlockchainStorage" where
  "storage_empty = \<lparr>st_blocks = fmempty, st_hashes = fmempty, st_best_hash = 0, st_best_number = 0,
     st_genesis_hash = 0, st_transactions = fmempty, st_total_difficulty = 0\<rparr>"

datatype BlockNumber = Latest | Finalized | Safe | Earliest | PendingBlock | Number u64

datatype BlockId = IdHash H256 | IdNumber BlockNumber

fun storage_hash :: "BlockNumber \<Rightarrow> 't BlockchainStorage \<Rightarrow> H256 option" where
  "storage_hash Latest s = Some (st_best_hash s)"
| "storage_hash Earliest s = Some (st_genesis_hash s)"
| "storage_hash PendingBlock s = None"
| "storage_hash (Number num) s = fmlookup (st_hashes s) num"
| "storage_hash Safe s =
     (if 32 < st_best_number s then fmlookup (st_hashes s) (st_best_number s - 32) else Some (st_genesis_hash s))"
| "storage_hash Finalized s =
     (if 64 < st_best_number s then fmlookup (st_hashes s) (st_best_number s - 64) else Some (st_genesis_hash s))"

fun blockchain_hash :: "BlockId \<Rightarrow> 't BlockchainStorage \<Rightarrow> H256 option" where
  "blockchain_hash (IdHash h) s = Some h"
| "blockchain_hash (IdNumber num) s = storage_hash num s"

definition get_block_by_hash :: "H256 \<Rightarrow> 't BlockchainStorage \<Rightarrow> Block option" where
  "get_block_by_hash hash s = fmlookup (st_blocks s) hash"

definition get_transaction_by_hash :: "H256 \<Rightarrow> 't BlockchainStorage \<Rightarrow> 't MinedTransaction option" where
  "get_transaction_by_hash hash s = fmlookup (st_transactions s) hash"

definition blocks_count :: "'t BlockchainStorage \<Rightarrow> nat" where
  "blocks_count s = fcard (fmdom (st_blocks s))"

text \<open>\<open>current\<close> is \<open>best_number()\<close> of the backend.\<close>

fun convert_block_number :: "u64 \<Rightarrow> BlockNumber option \<Rightarrow> u64" where
  "convert_block_number current None = current"
| "convert_block_number current (Some Latest) = current"
| "convert_block_number current (Some PendingBlock) = current"
| "convert_block_number current (Some Earliest) = 0"
| "convert_block_number current (Some (Number num)) = num"
| "convert_block_number current (Some Safe) = saturating_sub current 32"
| "convert_block_number current (Some Finalized) = saturating_sub current 64"

text \<open>
  \<open>ensure_block_number\<close> without a fork: the block of a hash is one of the storage, and its number is
  converted with \<open>as_u64\<close>, whose panic is the outer \<open>None\<close>.
\<close>

definition ensure_block_number ::
  "u64 \<Rightarrow> 't BlockchainStorage \<Rightarrow> BlockId option \<Rightarrow> (u64, 'e BlockchainError) result option" where
  "ensure_block_number current s block_id = do {
     requested \<leftarrow>
       (case unwrap_or block_id (IdNumber Latest) of
          IdHash hash \<Rightarrow>
            (case get_block_by_hash hash s of
               None \<Rightarrow> Some (Err BeBlockNotFound)
             | Some b \<Rightarrow> map_option Ok (as_u64 (hd_number (bl_header b))))
        | IdNumber num \<Rightarrow> Some (Ok (convert_block_number current (Some num))));
     Some (and_then requested (\<lambda>r.
       if current < r then Err (BeBlockOutOfRange current r) else Ok r))
   }"

section \<open>The backend\<close>

record ('d, 'e, 'st, 'sn, 's, 't) mine_lib =
  ml_exec :: "('d, 'e, 's, 't) exec_lib"
  ml_states :: "('st, 'sn) state_lib"
  ml_current_state :: "'d \<Rightarrow> 'st"
  ml_insert_block_hash :: "U256 \<Rightarrow> H256 \<Rightarrow> 'd \<Rightarrow> 'd"
  ml_snapshot :: "'d \<Rightarrow> U256 \<times> 'd"
  ml_revert :: "U256 \<Rightarrow> 'd \<Rightarrow> bool \<times> 'd"

abbreviation ml_forks :: "('d, 'e, 'st, 'sn, 's, 't) mine_lib \<Rightarrow> hardforks" where
  "ml_forks lib \<equiv> nl_forks (xl_node (ml_exec lib))"

record PruneStateHistoryConfig =
  pc_enabled :: bool
  pc_max_memory_history :: "nat option"

definition is_state_history_supported :: "PruneStateHistoryConfig \<Rightarrow> bool" where
  "is_state_history_supported c \<longleftrightarrow> \<not> pc_enabled c \<or> pc_max_memory_history c \<noteq> None"

definition is_config_enabled :: "PruneStateHistoryConfig \<Rightarrow> bool" where
  "is_config_enabled c \<longleftrightarrow> pc_enabled c"

fun prune_from_args :: "nat option option \<Rightarrow> PruneStateHistoryConfig" where
  "prune_from_args (Some max_memory_history) = \<lparr>pc_enabled = True, pc_max_memory_history = max_memory_history\<rparr>"
| "prune_from_args None = \<lparr>pc_enabled = False, pc_max_memory_history = None\<rparr>"

text \<open>The state history that \<open>with_genesis\<close> configures.\<close>

definition initial_states :: "PruneStateHistoryConfig \<Rightarrow> ('st, 'sn) InMemoryBlockStates" where
  "initial_states c =
     (if is_config_enabled c then
        memory_only (case pc_max_memory_history c of Some n \<Rightarrow> bs_new n | None \<Rightarrow> bs_default)
      else bs_default)"

record ('d, 'st, 'sn, 't) Backend =
  bk_db :: 'd
  bk_storage :: "'t BlockchainStorage"
  bk_states :: "('st, 'sn) InMemoryBlockStates"
  bk_env :: EvmEnv
  bk_time :: TimeManager
  bk_fees :: FeeManager
  bk_active_snapshots :: "(U256, u64 \<times> H256) fmap"
  bk_prune :: PruneStateHistoryConfig
  bk_transaction_block_keeper :: "nat option"
  bk_enable_steps_tracing :: bool

text \<open>The number of the best block is read off the environment, not off the storage.\<close>

definition best_number :: "('d, 'st, 'sn, 't) Backend \<Rightarrow> u64" where
  "best_number b = unwrap_or (as_u64 (be_number (ev_block (bk_env b)))) (- 1)"

record MinedBlockOutcome =
  mo_block_number :: u64
  mo_included :: "PoolTransaction list"
  mo_invalid :: "PoolTransaction list"

section \<open>Mining\<close>

text \<open>The part of \<open>do_mine_block\<close> that writes the block and its transactions to the storage.\<close>

definition insert_transactions ::
  "H256 \<Rightarrow> u64 \<Rightarrow> ('t TransactionInfo \<times> TypedReceipt) list \<Rightarrow> (H256, 't MinedTransaction) fmap \<Rightarrow>
    (H256, 't MinedTransaction) fmap" where
  "insert_transactions block_hash block_number txs m =
     foldl (\<lambda>m (info, receipt). fmupd (ti_transaction_hash info)
        \<lparr>mt_info = info, mt_receipt = receipt, mt_block_hash = block_hash, mt_block_number = block_number\<rparr> m) m txs"

definition remove_block_transactions ::
  "('d, 'e, 's, 't) exec_lib \<Rightarrow> Block \<Rightarrow> (H256, 't MinedTransaction) fmap \<Rightarrow> (H256, 't MinedTransaction) fmap" where
  "remove_block_transactions lib block m =
     foldl (\<lambda>m tx. fmdrop (mi_hash (xl_crypto lib) (xl_rlp lib) tx) m) m (bl_transactions block)"

definition prune_transactions ::
  "('d, 'e, 's, 't) exec_lib \<Rightarrow> nat option \<Rightarrow> u64 \<Rightarrow> 't BlockchainStorage \<Rightarrow> 't BlockchainStorage" where
  "prune_transactions lib keeper block_number s =
     (case keeper of
        None \<Rightarrow> s
      | Some k \<Rightarrow>
          if k < blocks_count s then
            (case fmlookup (st_hashes s) (saturating_sub block_number (of_nat k)) of
               None \<Rightarrow> s
             | Some hash \<Rightarrow> (case fmlookup (st_blocks s) hash of
                 None \<Rightarrow> s
               | Some block \<Rightarrow> s\<lparr>st_transactions := remove_block_transactions lib block (st_transactions s)\<rparr>))
          else s)"

definition store_block ::
  "('d, 'e, 's, 't) exec_lib \<Rightarrow> bool \<Rightarrow> nat option \<Rightarrow> u64 \<Rightarrow> 't BlockInfo \<Rightarrow> 't BlockchainStorage \<Rightarrow> 't BlockchainStorage" where
  "store_block lib merged keeper block_number info s =
     (let block = bi_block info;
          block_hash = header_hash (xl_crypto lib) (xl_rlp lib) (bl_header block);
          s1 = s\<lparr>st_best_number := block_number, st_best_hash := block_hash,
                 st_total_difficulty := (if merged then st_total_difficulty s
                    else saturating_add (st_total_difficulty s) (hd_difficulty (bl_header block))),
                 st_blocks := fmupd block_hash block (st_blocks s),
                 st_hashes := fmupd block_number block_hash (st_hashes s)\<rparr>;
          s2 = s1\<lparr>st_transactions := insert_transactions block_hash block_number
                    (zip (bi_transactions info) (bi_receipts info)) (st_transactions s1)\<rparr>
      in prune_transactions lib keeper block_number s2)"

text \<open>The environment of the next block; \<open>timestamp\<close> comes from the time manager.\<close>

definition mining_env :: "hardforks \<Rightarrow> FeeManager \<Rightarrow> u64 \<Rightarrow> EvmEnv \<Rightarrow> EvmEnv" where
  "mining_env hf fm timestamp env =
     env\<lparr>ev_cfg := (if be_basefee (ev_block env) = 0 then (ev_cfg env)\<lparr>ce_disable_base_fee := True\<rparr> else ev_cfg env),
         ev_block := (ev_block env)\<lparr>be_number := saturating_add (be_number (ev_block env)) 1,
           be_basefee := base_fee_of (hf_london hf) fm, be_timestamp := ucast timestamp\<rparr>\<rparr>"

definition do_mine_block ::
  "('d, 'e, 'st, 'sn, 's, 't) mine_lib \<Rightarrow> u64 \<Rightarrow> PoolTransaction list \<Rightarrow> ('d, 'st, 'sn, 't) Backend \<Rightarrow>
    (MinedBlockOutcome \<times> ('d, 'st, 'sn, 't) Backend) option" where
  "do_mine_block lib now pool_transactions b = do {
     (timestamp, tm) \<leftarrow> next_timestamp now (bk_time b);
     let xl = ml_exec lib;
     let env = mining_env (ml_forks lib) (bk_fees b) timestamp (bk_env b);
     let best_hash = st_best_hash (bk_storage b);
     states \<leftarrow> (if is_state_history_supported (bk_prune b)
                then bs_insert (ml_states lib) best_hash (ml_current_state lib (bk_db b)) (bk_states b)
                else Some (bk_states b));
     (ets, db) \<leftarrow> execute xl (ce_chain_id (ev_cfg (bk_env b)))
       \<lparr>te_db = bk_db b, te_pending = pool_transactions, te_block_env = ev_block env, te_cfg_env = ev_cfg env,
        te_parent_hash = best_hash, te_gas_used = 0, te_enable_steps_tracing = bk_enable_steps_tracing b\<rparr>;
     let header = bl_header (bi_block (ets_block ets));
     let block_hash = header_hash (xl_crypto xl) (xl_rlp xl) header;
     block_number \<leftarrow> as_u64 (be_number (ev_block env));
     let storage = store_block xl (bk_is_eip3675 (ml_forks lib) (bk_env b)) (bk_transaction_block_keeper b)
       block_number (ets_block ets) (bk_storage b);
     next_base_fee \<leftarrow> get_next_block_base_fee_per_gas (hf_london (ml_forks lib)) (bk_fees b)
       (hd_gas_used header) (hd_gas_limit header) (unwrap_or (hd_base_fee_per_gas header) 0);
     Some (\<lparr>mo_block_number = block_number, mo_included = ets_included ets, mo_invalid = ets_invalid ets\<rparr>,
       b\<lparr>bk_db := ml_insert_block_hash lib (hd_number header) block_hash db, bk_storage := storage,
         bk_states := states, bk_env := env\<lparr>ev_block := (ev_block env)\<lparr>be_difficulty := 0\<rparr>\<rparr>, bk_time := tm,
         bk_fees := set_base_fee (ucast next_base_fee) (bk_fees b)\<rparr>)
   }"

section \<open>Snapshots\<close>

definition set_block_number :: "U256 \<Rightarrow> ('d, 'st, 'sn, 't) Backend \<Rightarrow> ('d, 'st, 'sn, 't) Backend" where
  "set_block_number number b = b\<lparr>bk_env := (bk_env b)\<lparr>ev_block := (ev_block (bk_env b))\<lparr>be_number := number\<rparr>\<rparr>\<rparr>"

definition create_snapshot ::
  "('d, 'e, 'st, 'sn, 's, 't) mine_lib \<Rightarrow> ('d, 'st, 'sn, 't) Backend \<Rightarrow> U256 \<times> ('d, 'st, 'sn, 't) Backend" where
  "create_snapshot lib b =
     (case ml_snapshot lib (bk_db b) of (n, db) \<Rightarrow>
        (n, b\<lparr>bk_db := db, bk_active_snapshots :=
          fmupd n (best_number b, st_best_hash (bk_storage b)) (bk_active_snapshots b)\<rparr>))"

definition revert_block :: "('d, 'e, 's, 't) exec_lib \<Rightarrow> u64 \<Rightarrow> 't BlockchainStorage \<Rightarrow> 't BlockchainStorage" where
  "revert_block lib n s =
     (case fmlookup (st_hashes s) n of
        None \<Rightarrow> s
      | Some hash \<Rightarrow>
         (let s1 = s\<lparr>st_hashes := fmdrop n (st_hashes s)\<rparr> in
          case fmlookup (st_blocks s1) hash of
            None \<Rightarrow> s1
          | Some block \<Rightarrow> s1\<lparr>st_blocks := fmdrop hash (st_blocks s1),
              st_transactions := remove_block_transactions lib block (st_transactions s1)\<rparr>))"

text \<open>
  The loop \<open>for n in ((num + 1)..=current_height).rev()\<close>, then the new head.  \<open>None\<close> is the overflow of
  \<open>num + 1\<close>.
\<close>

definition revert_storage ::
  "('d, 'e, 's, 't) exec_lib \<Rightarrow> u64 \<Rightarrow> u64 \<Rightarrow> H256 \<Rightarrow> 't BlockchainStorage \<Rightarrow> 't BlockchainStorage option" where
  "revert_storage lib current_height num hash s = do {
     low \<leftarrow> add_chk num 1;
     Some ((foldl (\<lambda>s n. revert_block lib (of_nat n) s) s (rev [unat low..<Suc (unat current_height)]))
           \<lparr>st_best_number := num, st_best_hash := hash\<rparr>)
   }"

definition revert_snapshot ::
  "('d, 'e, 'st, 'sn, 's, 't) mine_lib \<Rightarrow> u64 \<Rightarrow> U256 \<Rightarrow> ('d, 'st, 'sn, 't) Backend \<Rightarrow>
    ((bool, 'e BlockchainError) result \<times> ('d, 'st, 'sn, 't) Backend) option" where
  "revert_snapshot lib now n b =
     (let finish = (\<lambda>b. case ml_revert lib n (bk_db b) of (ok, db) \<Rightarrow> (Ok ok, b\<lparr>bk_db := db\<rparr>)) in
      case fmlookup (bk_active_snapshots b) n of
        None \<Rightarrow> Some (finish b)
      | Some (num, hash) \<Rightarrow> do {
          storage \<leftarrow> revert_storage (ml_exec lib) (best_number b) num hash (bk_storage b);
          let b1 = b\<lparr>bk_active_snapshots := fmdrop n (bk_active_snapshots b), bk_storage := storage\<rparr>;
          Some (case get_block_by_hash hash storage of
              None \<Rightarrow> (Err BeBlockNotFound, b1)
            | Some block \<Rightarrow>
                finish (set_block_number (ucast num)
                  (b1\<lparr>bk_time := tm_reset now (saturating_sub (hd_timestamp (bl_header block)) 1) (bk_time b1)\<rparr>)))
        })"

section \<open>The invariant of the storage\<close>

text \<open>
  The hashes name the blocks up to the best one, under the hash of their header and with their number; each
  block names its predecessor; no other block is stored; and a mined transaction points into its block.
\<close>

definition chain_ok :: "('d, 'e, 's, 't) exec_lib \<Rightarrow> 't BlockchainStorage \<Rightarrow> bool" where
  "chain_ok lib s \<longleftrightarrow>
     fmlookup (st_hashes s) (st_best_number s) = Some (st_best_hash s) \<and>
     (\<forall>n h. fmlookup (st_hashes s) n = Some h \<longrightarrow> n \<le> st_best_number s \<and>
       (\<exists>b. fmlookup (st_blocks s) h = Some b \<and> header_hash (xl_crypto lib) (xl_rlp lib) (bl_header b) = h \<and>
         hd_number (bl_header b) = ucast n)) \<and>
     (\<forall>n < st_best_number s. \<exists>h h' b. fmlookup (st_hashes s) n = Some h \<and> fmlookup (st_hashes s) (n + 1) = Some h' \<and>
       fmlookup (st_blocks s) h' = Some b \<and> hd_parent_hash (bl_header b) = h) \<and>
     (\<forall>h b. fmlookup (st_blocks s) h = Some b \<longrightarrow> (\<exists>n. fmlookup (st_hashes s) n = Some h)) \<and>
     (\<forall>th mt. fmlookup (st_transactions s) th = Some mt \<longrightarrow>
       ti_transaction_hash (mt_info mt) = th \<and> fmlookup (st_hashes s) (mt_block_number mt) = Some (mt_block_hash mt) \<and>
       (\<exists>b. fmlookup (st_blocks s) (mt_block_hash mt) = Some b \<and>
         unat (ti_transaction_index (mt_info mt)) < length (bl_transactions b)))"

lemma chain_okD:
  assumes "chain_ok lib s"
  shows "fmlookup (st_hashes s) (st_best_number s) = Some (st_best_hash s)"
    "fmlookup (st_hashes s) n = Some h \<Longrightarrow> n \<le> st_best_number s"
    "fmlookup (st_hashes s) n = Some h \<Longrightarrow> \<exists>b. fmlookup (st_blocks s) h = Some b \<and>
       header_hash (xl_crypto lib) (xl_rlp lib) (bl_header b) = h \<and> hd_number (bl_header b) = ucast n"
    "n < st_best_number s \<Longrightarrow> \<exists>h h' b. fmlookup (st_hashes s) n = Some h \<and> fmlookup (st_hashes s) (n + 1) = Some h' \<and>
       fmlookup (st_blocks s) h' = Some b \<and> hd_parent_hash (bl_header b) = h"
    "fmlookup (st_blocks s) h = Some b \<Longrightarrow> \<exists>n. fmlookup (st_hashes s) n = Some h"
    "fmlookup (st_transactions s) th = Some mt \<Longrightarrow>
       ti_transaction_hash (mt_info mt) = th \<and> fmlookup (st_hashes s) (mt_block_number mt) = Some (mt_block_hash mt) \<and>
       (\<exists>b. fmlookup (st_blocks s) (mt_block_hash mt) = Some b \<and>
         unat (ti_transaction_index (mt_info mt)) < length (bl_transactions b))"
  using assms unfolding chain_ok_def by blast+

lemma foldl_fmdrop_lookup:
  "fmlookup (foldl (\<lambda>m tx. fmdrop (f tx) m) m xs) k = (if k \<in> f ` set xs then None else fmlookup m k)"
  by (induction xs arbitrary: m) auto

text \<open>Removing transactions keeps the invariant.\<close>

lemma prune_transactions_ok: "chain_ok lib s \<Longrightarrow> chain_ok lib (prune_transactions lib keeper n s)"
  by (auto simp: prune_transactions_def remove_block_transactions_def chain_ok_def foldl_fmdrop_lookup
      split: option.splits if_splits)

lemma prune_transactions_simps [simp]:
  "st_blocks (prune_transactions lib keeper n s) = st_blocks s"
  "st_hashes (prune_transactions lib keeper n s) = st_hashes s"
  "st_best_hash (prune_transactions lib keeper n s) = st_best_hash s"
  "st_best_number (prune_transactions lib keeper n s) = st_best_number s"
  "st_genesis_hash (prune_transactions lib keeper n s) = st_genesis_hash s"
  "st_total_difficulty (prune_transactions lib keeper n s) = st_total_difficulty s"
  by (auto simp: prune_transactions_def split: option.split)

lemma insert_transactions_cases:
  "fmlookup (insert_transactions bh n txs m) th = Some mt \<Longrightarrow>
    fmlookup m th = Some mt \<or>
    (\<exists>(info, receipt) \<in> set txs. ti_transaction_hash info = th \<and>
      mt = \<lparr>mt_info = info, mt_receipt = receipt, mt_block_hash = bh, mt_block_number = n\<rparr>)"
proof (induction txs arbitrary: m)
  case (Cons x txs)
  obtain info receipt where x: "x = (info, receipt)" by (cases x)
  have "fmlookup (insert_transactions bh n txs (fmupd (ti_transaction_hash info)
      \<lparr>mt_info = info, mt_receipt = receipt, mt_block_hash = bh, mt_block_number = n\<rparr> m)) th = Some mt"
    using Cons.prems by (simp add: insert_transactions_def x)
  from Cons.IH [OF this] show ?case by (auto simp: x split: if_splits)
qed (simp add: insert_transactions_def)

text \<open>A block that extends the best one keeps the invariant.\<close>

lemma store_block_ok:
  assumes ok: "chain_ok lib s"
    and num: "unat n = Suc (unat (st_best_number s))"
    and hd: "hd_parent_hash (bl_header (bi_block info)) = st_best_hash s" "hd_number (bl_header (bi_block info)) = ucast n"
    and fresh: "fmlookup (st_blocks s) (header_hash (xl_crypto lib) (xl_rlp lib) (bl_header (bi_block info))) = None"
    and idx: "\<And>ti. ti \<in> set (bi_transactions info) \<Longrightarrow>
      unat (ti_transaction_index ti) < length (bl_transactions (bi_block info))"
  shows "chain_ok lib (store_block lib merged keeper n info s)"
proof -
  let ?b = "bi_block info"
  let ?h = "header_hash (xl_crypto lib) (xl_rlp lib) (bl_header ?b)"
  let ?s = "s\<lparr>st_best_number := n, st_best_hash := ?h,
    st_total_difficulty := (if merged then st_total_difficulty s
      else saturating_add (st_total_difficulty s) (hd_difficulty (bl_header ?b))),
    st_blocks := fmupd ?h ?b (st_blocks s), st_hashes := fmupd n ?h (st_hashes s),
    st_transactions := insert_transactions ?h n (zip (bi_transactions info) (bi_receipts info)) (st_transactions s)\<rparr>"
  have less: "st_best_number s < n" by (simp add: word_less_nat_alt num)
  then have "unat (st_best_number s + 1) = Suc (unat (st_best_number s))" by (rule unat_plus_one)
  then have n: "n = st_best_number s + 1" by (simp only: word_unat_eq_iff num)
  have up_to: "k \<le> st_best_number s \<longleftrightarrow> k < n" for k
    by (simp add: word_less_nat_alt word_le_nat_alt num less_Suc_eq_le)
  have new: "k < n" "h \<noteq> ?h" if k: "fmlookup (st_hashes s) k = Some h" for k h
  proof -
    show "k < n" using chain_okD(2) [OF ok k] by (simp add: up_to)
    obtain b where "fmlookup (st_blocks s) h = Some b" using chain_okD(3) [OF ok k] by (elim exE conjE)
    then show "h \<noteq> ?h" using fresh by (metis option.distinct(1))
  qed
  have "chain_ok lib ?s"
    unfolding chain_ok_def
  proof (intro conjI allI impI)
    fix k h assume k: "fmlookup (st_hashes ?s) k = Some h"
    show "k \<le> st_best_number ?s" using k new(1) [of k h] by (cases "k = n") simp_all
    show "\<exists>b. fmlookup (st_blocks ?s) h = Some b \<and> header_hash (xl_crypto lib) (xl_rlp lib) (bl_header b) = h \<and>
      hd_number (bl_header b) = ucast k"
    proof (cases "k = n")
      case True
      then show ?thesis using k hd(2) by simp
    next
      case False
      then have old: "fmlookup (st_hashes s) k = Some h" using k by simp
      then show ?thesis using chain_okD(3) [OF ok old] new(2) [OF old] by simp
    qed
  next
    fix k assume "k < st_best_number ?s"
    then have k: "k < n" by simp
    show "\<exists>h h' b. fmlookup (st_hashes ?s) k = Some h \<and> fmlookup (st_hashes ?s) (k + 1) = Some h' \<and>
      fmlookup (st_blocks ?s) h' = Some b \<and> hd_parent_hash (bl_header b) = h"
    proof (cases "k = st_best_number s")
      case True
      moreover have "st_best_number s \<noteq> n" using less by auto
      ultimately show ?thesis using chain_okD(1) [OF ok] hd(1) by (simp add: n [symmetric])
    next
      case False
      then have below: "k < st_best_number s" using k by (simp add: up_to [symmetric])
      obtain h h' b where *: "fmlookup (st_hashes s) k = Some h" "fmlookup (st_hashes s) (k + 1) = Some h'"
        "fmlookup (st_blocks s) h' = Some b" "hd_parent_hash (bl_header b) = h"
        using chain_okD(4) [OF ok below] by (elim exE conjE)
      have "k + 1 \<noteq> n" "h' \<noteq> ?h" using new [OF *(2)] by simp_all
      moreover have "k \<noteq> n" using k by simp
      ultimately show ?thesis using * by simp
    qed
  next
    fix h b assume b: "fmlookup (st_blocks ?s) h = Some b"
    show "\<exists>k. fmlookup (st_hashes ?s) k = Some h"
    proof (cases "h = ?h")
      case True
      then show ?thesis by (intro exI [of _ n]) simp
    next
      case False
      then obtain k where k: "fmlookup (st_hashes s) k = Some h"
        using chain_okD(5) [OF ok, of h b] b by auto
      moreover have "k \<noteq> n" using new(1) [OF k] by auto
      ultimately show ?thesis by (intro exI [of _ k]) simp
    qed
  next
    fix th mt assume mt: "fmlookup (st_transactions ?s) th = Some mt"
    have all: "ti_transaction_hash (mt_info mt) = th \<and> fmlookup (st_hashes ?s) (mt_block_number mt) = Some (mt_block_hash mt) \<and>
       (\<exists>b. fmlookup (st_blocks ?s) (mt_block_hash mt) = Some b \<and>
         unat (ti_transaction_index (mt_info mt)) < length (bl_transactions b))"
    proof (cases "fmlookup (st_transactions s) th = Some mt")
      case True
      note old = chain_okD(6) [OF ok True]
      have "mt_block_number mt \<noteq> n" "mt_block_hash mt \<noteq> ?h" using new [of "mt_block_number mt" "mt_block_hash mt"] old by simp_all
      then show ?thesis using old by simp
    next
      case False
      then obtain ti rc where ti: "(ti, rc) \<in> set (zip (bi_transactions info) (bi_receipts info))"
        "ti_transaction_hash ti = th" "mt = \<lparr>mt_info = ti, mt_receipt = rc, mt_block_hash = ?h, mt_block_number = n\<rparr>"
        using mt insert_transactions_cases [of ?h n "zip (bi_transactions info) (bi_receipts info)" "st_transactions s" th mt]
        by auto
      then show ?thesis using idx [OF set_zip_leftD [OF ti(1)]] by simp
    qed
    show "ti_transaction_hash (mt_info mt) = th" "fmlookup (st_hashes ?s) (mt_block_number mt) = Some (mt_block_hash mt)"
      "\<exists>b. fmlookup (st_blocks ?s) (mt_block_hash mt) = Some b \<and>
         unat (ti_transaction_index (mt_info mt)) < length (bl_transactions b)"
      using all by blast+
  qed simp
  then show ?thesis by (simp add: store_block_def Let_def prune_transactions_ok)
qed

section \<open>Mining extends the chain\<close>

text \<open>The executor that \<open>do_mine_block\<close> runs.\<close>

definition mining_executor ::
  "('d, 'e, 'st, 'sn, 's, 't) mine_lib \<Rightarrow> u64 \<Rightarrow> PoolTransaction list \<Rightarrow> ('d, 'st, 'sn, 't) Backend \<Rightarrow> 'd TransactionExecutor" where
  "mining_executor lib timestamp txs b =
     (let env = mining_env (ml_forks lib) (bk_fees b) timestamp (bk_env b) in
      \<lparr>te_db = bk_db b, te_pending = txs, te_block_env = ev_block env, te_cfg_env = ev_cfg env,
       te_parent_hash = st_best_hash (bk_storage b), te_gas_used = 0,
       te_enable_steps_tracing = bk_enable_steps_tracing b\<rparr>)"

lemma do_mine_block_Some:
  assumes "do_mine_block lib now txs b = Some (out, b')"
  obtains timestamp tm ets db n where
    "next_timestamp now (bk_time b) = Some (timestamp, tm)"
    "execute (ml_exec lib) (ce_chain_id (ev_cfg (bk_env b))) (mining_executor lib timestamp txs b) = Some (ets, db)"
    "as_u64 (saturating_add (be_number (ev_block (bk_env b))) 1) = Some n"
    "bk_storage b' = store_block (ml_exec lib) (bk_is_eip3675 (ml_forks lib) (bk_env b))
       (bk_transaction_block_keeper b) n (ets_block ets) (bk_storage b)"
    "be_number (ev_block (bk_env b')) = saturating_add (be_number (ev_block (bk_env b))) 1"
    "out = \<lparr>mo_block_number = n, mo_included = ets_included ets, mo_invalid = ets_invalid ets\<rparr>"
    "bk_active_snapshots b' = bk_active_snapshots b" "bk_transaction_block_keeper b' = bk_transaction_block_keeper b"
  using assms
  by (auto simp: do_mine_block_def mining_executor_def mining_env_def Let_def
      split: bind_splits if_splits)

definition backend_ok :: "('d, 'e, 'st, 'sn, 's, 't) mine_lib \<Rightarrow> ('d, 'st, 'sn, 't) Backend \<Rightarrow> bool" where
  "backend_ok lib b \<longleftrightarrow> chain_ok (ml_exec lib) (bk_storage b) \<and>
     be_number (ev_block (bk_env b)) = ucast (st_best_number (bk_storage b))"

lemma unat_ucast_u64: "unat (ucast (x :: u64) :: U256) = unat x"
  using unat_u64 [of x] by (simp add: unsigned_ucast_eq take_bit_nat_eq_self)

lemma as_u64_ucast: "as_u64 (ucast (x :: u64) :: U256) = Some x"
  using unat_u64 [of x] by (simp add: as_u64_Some unat_ucast_u64)

lemma best_number_ok: "backend_ok lib b \<Longrightarrow> best_number b = st_best_number (bk_storage b)"
  by (simp add: backend_ok_def best_number_def as_u64_ucast)

lemma next_number:
  assumes "as_u64 (saturating_add (ucast (x :: u64)) 1 :: U256) = Some n"
  shows "unat n = Suc (unat x)" "saturating_add (ucast x) 1 = (ucast n :: U256)"
proof -
  have "unat (saturating_add (ucast x) 1 :: U256) = Suc (unat x)"
    using unat_u64 [of x] by (simp add: unat_saturating_add unat_ucast_u64)
  moreover from this show "unat n = Suc (unat x)" using assms by (simp add: as_u64_Some)
  ultimately show "saturating_add (ucast x) 1 = (ucast n :: U256)"
    by (simp only: word_unat_eq_iff unat_ucast_u64)
qed

lemma index_bound:
  assumes "map ti_transaction_index infos = map of_nat [0..<k]" "ti \<in> set infos"
  shows "unat (ti_transaction_index ti) < k"
proof -
  have "ti_transaction_index ti \<in> set (map ti_transaction_index infos)" using assms(2) by simp
  then obtain i where i: "i < k" "ti_transaction_index ti = of_nat i" using assms(1) by auto
  have "unat (of_nat i :: 32 word) \<le> i" by (simp add: unsigned_of_nat take_bit_nat_less_eq_self)
  then show ?thesis using i by simp
qed

text \<open>What one mined block adds to the storage.\<close>

lemma mine_block_effect:
  assumes run: "do_mine_block lib now txs b = Some (out, b')"
    and ok: "backend_ok lib b"
    and fresh: "fmlookup (st_blocks (bk_storage b)) (st_best_hash (bk_storage b')) = None"
  obtains info where
    "bk_storage b' = store_block (ml_exec lib) (bk_is_eip3675 (ml_forks lib) (bk_env b))
       (bk_transaction_block_keeper b) (st_best_number (bk_storage b')) info (bk_storage b)"
    "unat (st_best_number (bk_storage b')) = Suc (unat (st_best_number (bk_storage b)))"
    "mo_block_number out = st_best_number (bk_storage b')"
    "st_best_hash (bk_storage b') =
       header_hash (xl_crypto (ml_exec lib)) (xl_rlp (ml_exec lib)) (bl_header (bi_block info))"
    "hd_parent_hash (bl_header (bi_block info)) = st_best_hash (bk_storage b)"
    "bl_transactions (bi_block info) = map (pd_transaction \<circ> pt_pending_transaction) (mo_included out)"
    "map ti_transaction_hash (bi_transactions info) = map pt_hash (mo_included out)"
    "length (bi_receipts info) = length (mo_included out)"
    "backend_ok lib b'"
proof -
  obtain timestamp tm ets db n where *:
    "execute (ml_exec lib) (ce_chain_id (ev_cfg (bk_env b))) (mining_executor lib timestamp txs b) = Some (ets, db)"
    "as_u64 (saturating_add (be_number (ev_block (bk_env b))) 1) = Some n"
    "bk_storage b' = store_block (ml_exec lib) (bk_is_eip3675 (ml_forks lib) (bk_env b))
       (bk_transaction_block_keeper b) n (ets_block ets) (bk_storage b)"
    "be_number (ev_block (bk_env b')) = saturating_add (be_number (ev_block (bk_env b))) 1"
    "out = \<lparr>mo_block_number = n, mo_included = ets_included ets, mo_invalid = ets_invalid ets\<rparr>"
    by (rule do_mine_block_Some [OF run])
  let ?info = "ets_block ets" and ?xl = "ml_exec lib"
  note numb = next_number [of "st_best_number (bk_storage b)" n]
  have num: "be_number (ev_block (bk_env b)) = ucast (st_best_number (bk_storage b))"
    and chain: "chain_ok ?xl (bk_storage b)" using ok by (simp_all add: backend_ok_def)
  have n: "unat n = Suc (unat (st_best_number (bk_storage b)))"
    "saturating_add (be_number (ev_block (bk_env b))) 1 = ucast n"
    using numb *(2) num by simp_all
  have best: "st_best_number (bk_storage b') = n"
    "st_best_hash (bk_storage b') = header_hash (xl_crypto ?xl) (xl_rlp ?xl) (bl_header (bi_block ?info))"
    by (simp_all add: *(3) store_block_def Let_def)
  note contents = execute_contents [OF *(1), unfolded Let_def]
  have included: "length (bi_receipts ?info) = length (ets_included ets)"
    using contents by (elim exE conjE) (simp only: length_map)
  have hashes: "map ti_transaction_hash (bi_transactions ?info) = map pt_hash (ets_included ets)"
    using contents by (elim exE conjE)
  have indices: "map ti_transaction_index (bi_transactions ?info) = map of_nat [0..<length (ets_included ets)]"
    using contents by (elim exE conjE)
  have txs: "bl_transactions (bi_block ?info) = map (pd_transaction \<circ> pt_pending_transaction) (ets_included ets)"
    using contents by (elim exE conjE)
  have header': "hd_parent_hash (bl_header (bi_block ?info)) = te_parent_hash (mining_executor lib timestamp txs b)"
    using contents by (elim exE conjE)
  have header'': "hd_number (bl_header (bi_block ?info)) = be_number (te_block_env (mining_executor lib timestamp txs b))"
    using contents by (elim exE conjE)
  have header: "hd_parent_hash (bl_header (bi_block ?info)) = st_best_hash (bk_storage b)"
    "hd_number (bl_header (bi_block ?info)) = ucast n"
    using header' header'' n(2) by (simp_all add: mining_executor_def mining_env_def Let_def)
  have idx: "unat (ti_transaction_index ti) < length (bl_transactions (bi_block ?info))"
    if "ti \<in> set (bi_transactions ?info)" for ti
    using index_bound [OF indices that] by (simp add: txs)
  have "chain_ok ?xl (bk_storage b')"
    unfolding *(3) using fresh by (intro store_block_ok chain n(1) header idx) (simp add: best(2))
  then have "backend_ok lib b'" by (simp add: backend_ok_def *(4) n(2) best(1))
  then show thesis
    using that [of ?info] *(3,5) best n(1) header(1) txs hashes included by simp
qed

end
