(* ===== verification/ChainSafety.thy ===== *)
theory ChainSafety
  imports Chain
begin

text \<open>
  What mining and snapshots do to the chain: a mined block extends it, and reverting to a snapshot undoes the
  blocks mined since.  The hash function of the node is a parameter; where a result needs that two headers or two
  transactions do not collide, it says so of the blocks it is about.
\<close>

section \<open>A mined block\<close>

lemma insert_transactions_rec [simp]:
  "insert_transactions bh n [] m = m"
  "insert_transactions bh n (txs @ [x]) m = fmupd (ti_transaction_hash (fst x))
     \<lparr>mt_info = fst x, mt_receipt = snd x, mt_block_hash = bh, mt_block_number = n\<rparr> (insert_transactions bh n txs m)"
  by (simp only: insert_transactions_def foldl.simps) (cases x, simp only: insert_transactions_def foldl_append foldl.simps split prod.sel)

lemma insert_transactions_hit:
  assumes "th \<in> (ti_transaction_hash \<circ> fst) ` set txs"
  shows "\<exists>mt. fmlookup (insert_transactions bh n txs m) th = Some mt \<and> mt_block_hash mt = bh \<and> mt_block_number mt = n"
  using assms
proof (induction txs rule: rev_induct)
  case (snoc x txs)
  then show ?case by (cases "ti_transaction_hash (fst x) = th") simp_all
qed simp

lemma insert_transactions_miss:
  "th \<notin> (ti_transaction_hash \<circ> fst) ` set txs \<Longrightarrow> fmlookup (insert_transactions bh n txs m) th = fmlookup m th"
proof (induction txs rule: rev_induct)
  case (snoc x txs)
  then show ?case by (cases "ti_transaction_hash (fst x) = th") simp_all
qed simp

lemma set_zip_fst: "length xs = length ys \<Longrightarrow> (f \<circ> fst) ` set (zip xs ys) = f ` set xs"
  by (metis image_comp list.set_map map_fst_zip)

lemma mined_block_effect:
  assumes run: "do_mine_block lib now txs b = Some (out, b')"
    and ok: "backend_ok lib b"
    and fresh: "get_block_by_hash (st_best_hash (bk_storage b')) (bk_storage b) = None"
  shows "backend_ok lib b'"
    and "unat (mo_block_number out) = Suc (unat (st_best_number (bk_storage b)))"
    and "st_best_number (bk_storage b') = mo_block_number out"
    and "\<exists>block. get_block_by_hash (st_best_hash (bk_storage b')) (bk_storage b') = Some block \<and>
      hd_parent_hash (bl_header block) = st_best_hash (bk_storage b) \<and>
      bl_transactions block = map (pd_transaction \<circ> pt_pending_transaction) (mo_included out)"
    and "get_block_by_hash h (bk_storage b) = Some old \<Longrightarrow> get_block_by_hash h (bk_storage b') = Some old"
    and "k \<le> st_best_number (bk_storage b) \<Longrightarrow> storage_hash (Number k) (bk_storage b') = storage_hash (Number k) (bk_storage b)"
    and "bk_transaction_block_keeper b = None \<Longrightarrow> tx \<in> set (mo_included out) \<Longrightarrow>
      \<exists>mt. get_transaction_by_hash (pt_hash tx) (bk_storage b') = Some mt \<and>
        mt_block_hash mt = st_best_hash (bk_storage b') \<and> mt_block_number mt = mo_block_number out"
proof -
  have fresh': "fmlookup (st_blocks (bk_storage b)) (st_best_hash (bk_storage b')) = None"
    using fresh by (simp add: get_block_by_hash_def)
  obtain info where *:
    "bk_storage b' = store_block (ml_exec lib) (bk_is_eip3675 (ml_forks lib) (bk_env b))
       (bk_transaction_block_keeper b) (st_best_number (bk_storage b')) info (bk_storage b)"
    "unat (st_best_number (bk_storage b')) = Suc (unat (st_best_number (bk_storage b)))"
    "mo_block_number out = st_best_number (bk_storage b')"
    "st_best_hash (bk_storage b') =
       header_hash (xl_crypto (ml_exec lib)) (xl_rlp (ml_exec lib)) (bl_header (bi_block info))"
    "hd_parent_hash (bl_header (bi_block info)) = st_best_hash (bk_storage b)"
    "bl_transactions (bi_block info) = map (pd_transaction \<circ> pt_pending_transaction) (mo_included out)"
    "map ti_transaction_hash (bi_transactions info) = map pt_hash (mo_included out)"
    "length (bi_receipts info) = length (mo_included out)"
    "backend_ok lib b'"
    by (rule mine_block_effect [OF run ok fresh'])
  have blocks: "st_blocks (bk_storage b') = fmupd (st_best_hash (bk_storage b')) (bi_block info) (st_blocks (bk_storage b))"
    by (subst (1) *(1)) (simp add: store_block_def Let_def *(4))
  have hashes: "st_hashes (bk_storage b') =
      fmupd (st_best_number (bk_storage b')) (st_best_hash (bk_storage b')) (st_hashes (bk_storage b))"
    by (subst (1) *(1)) (simp add: store_block_def Let_def *(4))
  show "backend_ok lib b'" by (rule *(9))
  show "unat (mo_block_number out) = Suc (unat (st_best_number (bk_storage b)))" by (simp add: *(2,3))
  show "st_best_number (bk_storage b') = mo_block_number out" by (simp add: *(3))
  show "\<exists>block. get_block_by_hash (st_best_hash (bk_storage b')) (bk_storage b') = Some block \<and>
      hd_parent_hash (bl_header block) = st_best_hash (bk_storage b) \<and>
      bl_transactions block = map (pd_transaction \<circ> pt_pending_transaction) (mo_included out)"
    by (simp add: get_block_by_hash_def blocks *(5,6))
  show "get_block_by_hash h (bk_storage b') = Some old" if "get_block_by_hash h (bk_storage b) = Some old"
    using that fresh by (cases "h = st_best_hash (bk_storage b')") (simp_all add: get_block_by_hash_def blocks)
  show "storage_hash (Number k) (bk_storage b') = storage_hash (Number k) (bk_storage b)"
    if "k \<le> st_best_number (bk_storage b)"
  proof -
    have "st_best_number (bk_storage b') \<noteq> k" using that *(2) by (auto simp: word_le_nat_alt)
    then show ?thesis by (simp add: hashes)
  qed
  show "\<exists>mt. get_transaction_by_hash (pt_hash tx) (bk_storage b') = Some mt \<and>
        mt_block_hash mt = st_best_hash (bk_storage b') \<and> mt_block_number mt = mo_block_number out"
    if keep: "bk_transaction_block_keeper b = None" and tx: "tx \<in> set (mo_included out)"
  proof -
    have "st_transactions (bk_storage b') = insert_transactions (st_best_hash (bk_storage b')) (mo_block_number out)
        (zip (bi_transactions info) (bi_receipts info)) (st_transactions (bk_storage b))"
      by (subst (1) *(1)) (simp add: store_block_def Let_def prune_transactions_def keep *(3,4))
    moreover have "pt_hash tx \<in> (ti_transaction_hash \<circ> fst) ` set (zip (bi_transactions info) (bi_receipts info))"
    proof -
      have "length (bi_transactions info) = length (bi_receipts info)"
        using *(8) arg_cong [OF *(7), of length] by simp
      then show ?thesis using tx arg_cong [OF *(7), of set] by (subst set_zip_fst) simp_all
    qed
    ultimately show ?thesis by (simp add: get_transaction_by_hash_def insert_transactions_hit)
  qed
qed

section \<open>Reverting\<close>

text \<open>
  \<open>fresh_block\<close> says that a block does not collide with the storage it is added to: its hash is new, and so are
  the hashes of its transactions, which are the ones that \<open>tx.hash()\<close> computes.
\<close>

definition fresh_block ::
  "('d, 'e, 'st, 'sn, 's, 't) mine_lib \<Rightarrow> ('d, 'st, 'sn, 't) Backend \<Rightarrow> MinedBlockOutcome \<Rightarrow> ('d, 'st, 'sn, 't) Backend \<Rightarrow> bool" where
  "fresh_block lib b out b' \<longleftrightarrow>
     get_block_by_hash (st_best_hash (bk_storage b')) (bk_storage b) = None \<and>
     (\<forall>tx \<in> set (mo_included out). get_transaction_by_hash (pt_hash tx) (bk_storage b) = None \<and>
       mi_hash (xl_crypto (ml_exec lib)) (xl_rlp (ml_exec lib)) (pd_transaction (pt_pending_transaction tx)) = pt_hash tx)"

inductive mined_since ::
  "('d, 'e, 'st, 'sn, 's, 't) mine_lib \<Rightarrow> ('d, 'st, 'sn, 't) Backend \<Rightarrow> ('d, 'st, 'sn, 't) Backend \<Rightarrow> bool"
  for lib b where
  mined_none: "mined_since lib b b"
| mined_block: "mined_since lib b b1 \<Longrightarrow> do_mine_block lib now txs b1 = Some (out, b2) \<Longrightarrow> fresh_block lib b1 out b2 \<Longrightarrow>
    mined_since lib b b2"

lemma fmdrop_fmupd_new: "fmlookup m k = None \<Longrightarrow> fmdrop k (fmupd k v m) = m"
  by (rule fmap_ext) simp

text \<open>The head of a storage is not read while blocks are removed.\<close>

definition set_head :: "u64 \<Rightarrow> H256 \<Rightarrow> U256 \<Rightarrow> 't BlockchainStorage \<Rightarrow> 't BlockchainStorage" where
  "set_head n h td s = s\<lparr>st_best_number := n, st_best_hash := h, st_total_difficulty := td\<rparr>"

lemma set_head_simps [simp]:
  "st_blocks (set_head n h td s) = st_blocks s" "st_hashes (set_head n h td s) = st_hashes s"
  "st_transactions (set_head n h td s) = st_transactions s" "st_best_number (set_head n h td s) = n"
  "st_best_hash (set_head n h td s) = h" "st_total_difficulty (set_head n h td s) = td"
  "set_head n h td (set_head n' h' td' s) = set_head n h td s"
  "(set_head n h td s)\<lparr>st_best_number := n', st_best_hash := h'\<rparr> = set_head n' h' td s"
  "set_head (st_best_number s) (st_best_hash s) (st_total_difficulty s) s = s"
  by (simp_all add: set_head_def)

lemma revert_block_head: "revert_block lib k (set_head n h td s) = set_head n h td (revert_block lib k s)"
  by (simp add: revert_block_def set_head_def Let_def split: option.split)

lemma revert_blocks_head:
  "foldl (\<lambda>s k. revert_block lib (of_nat k) s) (set_head n h td s) ks =
     set_head n h td (foldl (\<lambda>s k. revert_block lib (of_nat k) s) s ks)"
  by (induction ks arbitrary: s) (simp_all add: revert_block_head)

lemma revert_block_store:
  assumes n: "fmlookup (st_hashes s) n = None"
    and h: "fmlookup (st_blocks s) (header_hash (xl_crypto lib) (xl_rlp lib) (bl_header (bi_block info))) = None"
    and len: "length (bi_transactions info) = length (bi_receipts info)"
    and txs: "ti_transaction_hash ` set (bi_transactions info) =
      mi_hash (xl_crypto lib) (xl_rlp lib) ` set (bl_transactions (bi_block info))"
    and fresh: "\<And>ti. ti \<in> set (bi_transactions info) \<Longrightarrow> fmlookup (st_transactions s) (ti_transaction_hash ti) = None"
  shows "revert_block lib n (store_block lib merged None n info s) =
    set_head n (header_hash (xl_crypto lib) (xl_rlp lib) (bl_header (bi_block info)))
      (st_total_difficulty (store_block lib merged None n info s)) s"
proof -
  have "remove_block_transactions lib (bi_block info)
      (insert_transactions bh n (zip (bi_transactions info) (bi_receipts info)) (st_transactions s)) = st_transactions s" for bh
  proof (rule fmap_ext)
    fix k
    have "fmlookup (st_transactions s) k = None" if "k \<in> ti_transaction_hash ` set (bi_transactions info)"
      using that by (elim imageE) (simp only: fresh)
    moreover have "fmlookup (insert_transactions bh n (zip (bi_transactions info) (bi_receipts info)) (st_transactions s)) k =
        fmlookup (st_transactions s) k" if "k \<notin> ti_transaction_hash ` set (bi_transactions info)"
      by (rule insert_transactions_miss) (use that in \<open>simp only: set_zip_fst [OF len] not_False_eq_True\<close>)
    ultimately show "fmlookup (remove_block_transactions lib (bi_block info)
        (insert_transactions bh n (zip (bi_transactions info) (bi_receipts info)) (st_transactions s))) k =
      fmlookup (st_transactions s) k"
      unfolding remove_block_transactions_def foldl_fmdrop_lookup txs [symmetric] by simp
  qed
  then show ?thesis
    by (simp add: revert_block_def store_block_def prune_transactions_def Let_def fmdrop_fmupd_new n h)
      (simp add: set_head_def)
qed

text \<open>Reverting the block that was just mined gives back the storage, but for its head.\<close>

lemma revert_mined:
  assumes run: "do_mine_block lib now txs b = Some (out, b')" and fresh: "fresh_block lib b out b'"
    and ok: "backend_ok lib b" and keep: "bk_transaction_block_keeper b = None"
  shows "backend_ok lib b'" "bk_transaction_block_keeper b' = None" "bk_active_snapshots b' = bk_active_snapshots b"
    "unat (st_best_number (bk_storage b')) = Suc (unat (st_best_number (bk_storage b)))"
    "revert_block (ml_exec lib) (st_best_number (bk_storage b')) (bk_storage b') =
       set_head (st_best_number (bk_storage b')) (st_best_hash (bk_storage b')) (st_total_difficulty (bk_storage b')) (bk_storage b)"
proof -
  show "bk_active_snapshots b' = bk_active_snapshots b" "bk_transaction_block_keeper b' = None"
    by (rule do_mine_block_Some [OF run], simp add: keep)+
  have new: "fmlookup (st_blocks (bk_storage b)) (st_best_hash (bk_storage b')) = None"
    using fresh by (simp add: fresh_block_def get_block_by_hash_def)
  obtain info where *:
    "bk_storage b' = store_block (ml_exec lib) (bk_is_eip3675 (ml_forks lib) (bk_env b))
       (bk_transaction_block_keeper b) (st_best_number (bk_storage b')) info (bk_storage b)"
    "unat (st_best_number (bk_storage b')) = Suc (unat (st_best_number (bk_storage b)))"
    "st_best_hash (bk_storage b') =
       header_hash (xl_crypto (ml_exec lib)) (xl_rlp (ml_exec lib)) (bl_header (bi_block info))"
    "bl_transactions (bi_block info) = map (pd_transaction \<circ> pt_pending_transaction) (mo_included out)"
    "map ti_transaction_hash (bi_transactions info) = map pt_hash (mo_included out)"
    "length (bi_receipts info) = length (mo_included out)"
    "backend_ok lib b'"
    by (rule mine_block_effect [OF run ok new]) (rule that)
  show "backend_ok lib b'" "unat (st_best_number (bk_storage b')) = Suc (unat (st_best_number (bk_storage b)))"
    by (rule *)+
  let ?n = "st_best_number (bk_storage b')"
  have less: "st_best_number (bk_storage b) < ?n" by (simp add: word_less_nat_alt *(2))
  have chain: "chain_ok (ml_exec lib) (bk_storage b)" using ok by (simp add: backend_ok_def)
  have hashes: "ti_transaction_hash ` set (bi_transactions info) = pt_hash ` set (mo_included out)"
    using arg_cong [OF *(5), of set] by simp
  have tx: "mi_hash (xl_crypto (ml_exec lib)) (xl_rlp (ml_exec lib)) (pd_transaction (pt_pending_transaction tx)) = pt_hash tx"
    "fmlookup (st_transactions (bk_storage b)) (pt_hash tx) = None" if "tx \<in> set (mo_included out)" for tx
    using that fresh by (simp_all add: fresh_block_def get_transaction_by_hash_def)
  show "revert_block (ml_exec lib) ?n (bk_storage b') =
    set_head ?n (st_best_hash (bk_storage b')) (st_total_difficulty (bk_storage b')) (bk_storage b)"
    unfolding *(3)
  proof (subst (1 2) *(1), unfold keep, rule revert_block_store)
    show "fmlookup (st_hashes (bk_storage b)) ?n = None"
      using chain_okD(2) [OF chain, of ?n] less by (cases "fmlookup (st_hashes (bk_storage b)) ?n") auto
    show "fmlookup (st_blocks (bk_storage b))
        (header_hash (xl_crypto (ml_exec lib)) (xl_rlp (ml_exec lib)) (bl_header (bi_block info))) = None"
      using new by (simp only: *(3))
    show "length (bi_transactions info) = length (bi_receipts info)"
      using *(6) arg_cong [OF *(5), of length] by simp
    show "ti_transaction_hash ` set (bi_transactions info) =
        mi_hash (xl_crypto (ml_exec lib)) (xl_rlp (ml_exec lib)) ` set (bl_transactions (bi_block info))"
      by (simp add: hashes *(4) image_image tx(1) cong: image_cong)
    fix ti assume "ti \<in> set (bi_transactions info)"
    then have "ti_transaction_hash ti \<in> pt_hash ` set (mo_included out)" by (simp flip: hashes)
    then show "fmlookup (st_transactions (bk_storage b)) (ti_transaction_hash ti) = None"
      by (elim imageE) (simp only: tx(2))
  qed
qed

lemma mined_since_revert:
  assumes "mined_since lib b b'" "backend_ok lib b" "bk_transaction_block_keeper b = None"
  shows "backend_ok lib b' \<and> bk_transaction_block_keeper b' = None \<and> bk_active_snapshots b' = bk_active_snapshots b \<and>
    unat (st_best_number (bk_storage b)) \<le> unat (st_best_number (bk_storage b')) \<and>
    foldl (\<lambda>s k. revert_block (ml_exec lib) (of_nat k) s) (bk_storage b')
       (rev [Suc (unat (st_best_number (bk_storage b)))..<Suc (unat (st_best_number (bk_storage b')))]) =
     set_head (st_best_number (bk_storage b')) (st_best_hash (bk_storage b')) (st_total_difficulty (bk_storage b')) (bk_storage b)"
  using assms
proof (induction rule: mined_since.induct)
  case mined_none
  then show ?case by simp
next
  case (mined_block b1 now txs out b2)
  then have ok: "backend_ok lib b1" and keep: "bk_transaction_block_keeper b1 = None"
    and snaps: "bk_active_snapshots b1 = bk_active_snapshots b"
    and le: "unat (st_best_number (bk_storage b)) \<le> unat (st_best_number (bk_storage b1))"
    and IH: "foldl (\<lambda>s k. revert_block (ml_exec lib) (of_nat k) s) (bk_storage b1)
      (rev [Suc (unat (st_best_number (bk_storage b)))..<Suc (unat (st_best_number (bk_storage b1)))]) =
    set_head (st_best_number (bk_storage b1)) (st_best_hash (bk_storage b1)) (st_total_difficulty (bk_storage b1)) (bk_storage b)"
    by simp_all
  note step = revert_mined [OF mined_block.hyps(2,3) ok keep]
  have "rev [Suc (unat (st_best_number (bk_storage b)))..<Suc (unat (st_best_number (bk_storage b2)))] =
    unat (st_best_number (bk_storage b2)) # rev [Suc (unat (st_best_number (bk_storage b)))..<Suc (unat (st_best_number (bk_storage b1)))]"
    using le by (simp add: step(4))
  then have "foldl (\<lambda>s k. revert_block (ml_exec lib) (of_nat k) s) (bk_storage b2)
       (rev [Suc (unat (st_best_number (bk_storage b)))..<Suc (unat (st_best_number (bk_storage b2)))]) =
     set_head (st_best_number (bk_storage b2)) (st_best_hash (bk_storage b2)) (st_total_difficulty (bk_storage b2)) (bk_storage b)"
    by (simp only: foldl.simps of_nat_unat ucast_id step(5) revert_blocks_head IH set_head_simps)
  then show ?case using step snaps le by simp
qed

text \<open>What \<open>revert_snapshot\<close> does when removing the newer blocks gives the storage \<open>s\<close> of the snapshot.\<close>

lemma revert_active:
  assumes active: "fmlookup (bk_active_snapshots b2) i = Some (st_best_number s, st_best_hash s)"
    and undo: "foldl (\<lambda>s k. revert_block (ml_exec lib) (of_nat k) s) (bk_storage b2)
      (rev [Suc (unat (st_best_number s))..<Suc (unat (st_best_number (bk_storage b2)))]) = set_head n h td s"
    and ok: "backend_ok lib b2" and chain: "chain_ok (ml_exec lib) s" and bound: "unat (st_best_number s) + 1 < 2 ^ 64"
  obtains b3 where "revert_snapshot lib now i b2 = Some (Ok (fst (ml_revert lib i (bk_db b2))), b3)"
    "bk_db b3 = snd (ml_revert lib i (bk_db b2))"
    "bk_storage b3 = s\<lparr>st_total_difficulty := td\<rparr>"
    "bk_active_snapshots b3 = fmdrop i (bk_active_snapshots b2)" "backend_ok lib b3"
proof -
  have low: "add_chk (st_best_number s) 1 = Some (st_best_number s + 1)"
    "unat (st_best_number s + 1) = Suc (unat (st_best_number s))"
    using bound by (simp_all add: add_chk_def unat_word_ariths)
  have storage: "revert_storage (ml_exec lib) (best_number b2) (st_best_number s) (st_best_hash s) (bk_storage b2) =
      Some (s\<lparr>st_total_difficulty := td\<rparr>)"
    by (simp add: revert_storage_def low undo best_number_ok [OF ok] del: upt_Suc) (simp add: set_head_def)
  obtain block where block: "get_block_by_hash (st_best_hash s) (s\<lparr>st_total_difficulty := td\<rparr>) = Some block"
    using chain_okD(3) [OF chain chain_okD(1) [OF chain]] by (auto simp: get_block_by_hash_def)
  have chain': "chain_ok (ml_exec lib) (s\<lparr>st_total_difficulty := td\<rparr>)"
    using chain by (simp add: chain_ok_def)
  let ?b3 = "set_block_number (ucast (st_best_number s))
    (b2\<lparr>bk_active_snapshots := fmdrop i (bk_active_snapshots b2), bk_storage := s\<lparr>st_total_difficulty := td\<rparr>,
       bk_time := tm_reset now (saturating_sub (hd_timestamp (bl_header block)) 1) (bk_time b2)\<rparr>)
    \<lparr>bk_db := snd (ml_revert lib i (bk_db b2))\<rparr>"
  show thesis
  proof (rule that [of ?b3])
    show "revert_snapshot lib now i b2 = Some (Ok (fst (ml_revert lib i (bk_db b2))), ?b3)"
      by (simp add: revert_snapshot_def active storage block set_block_number_def case_prod_beta Let_def)
  qed (simp_all add: set_block_number_def backend_ok_def chain')
qed

lemma create_snapshot_simps:
  assumes "create_snapshot lib b = (i, b1)" "backend_ok lib b"
  shows "bk_storage b1 = bk_storage b" "backend_ok lib b1 = backend_ok lib b"
    "bk_transaction_block_keeper b1 = bk_transaction_block_keeper b"
    "bk_active_snapshots b1 = fmupd i (st_best_number (bk_storage b), st_best_hash (bk_storage b)) (bk_active_snapshots b)"
  using assms best_number_ok [OF assms(2)] by (auto simp: create_snapshot_def backend_ok_def split: prod.splits)

text \<open>Reverting to a snapshot whose block has been removed.\<close>

lemma revert_stale:
  assumes active: "fmlookup (bk_active_snapshots b) j = Some (num, hash)"
    and gone: "get_block_by_hash hash (bk_storage b) = None"
    and num: "unat num = Suc (unat (st_best_number (bk_storage b)))"
    and ok: "backend_ok lib b" and bound: "unat num + 1 < 2 ^ 64"
  obtains b' where "revert_snapshot lib now j b = Some (Err BeBlockNotFound, b')"
    "st_best_number (bk_storage b') = num" "get_block_by_hash (st_best_hash (bk_storage b')) (bk_storage b') = None"
    "be_number (ev_block (bk_env b')) = ucast (st_best_number (bk_storage b))" "\<not> backend_ok lib b'"
proof -
  let ?s = "(bk_storage b)\<lparr>st_best_number := num, st_best_hash := hash\<rparr>"
  let ?b = "b\<lparr>bk_active_snapshots := fmdrop j (bk_active_snapshots b), bk_storage := ?s\<rparr>"
  have low: "add_chk num 1 = Some (num + 1)" "unat (num + 1) = Suc (unat num)"
    using bound by (simp_all add: add_chk_def unat_word_ariths)
  have "revert_storage (ml_exec lib) (best_number b) num hash (bk_storage b) = Some ?s"
    by (simp add: revert_storage_def low num best_number_ok [OF ok])
  then have run: "revert_snapshot lib now j b = Some (Err BeBlockNotFound, ?b)"
    using gone by (simp add: revert_snapshot_def active get_block_by_hash_def)
  have env: "be_number (ev_block (bk_env ?b)) = ucast (st_best_number (bk_storage b))"
    using ok by (simp add: backend_ok_def)
  have bad: "\<not> backend_ok lib ?b"
  proof
    assume "backend_ok lib ?b"
    then have "(ucast (st_best_number (bk_storage b)) :: U256) = ucast num"
      using env by (simp add: backend_ok_def)
    from arg_cong [OF this, of unat] show False by (simp add: unat_ucast_u64 num)
  qed
  show thesis
    by (rule that [OF run _ _ env bad]) (use gone in \<open>simp_all add: get_block_by_hash_def\<close>)
qed

section \<open>Properties\<close>

text \<open>The chain of a new node satisfies the invariant.\<close>

lemma storage_new_ok: "chain_ok lib (storage_new lib env base_fee timestamp)"
  by (auto simp: chain_ok_def storage_new_def Let_def block_new_def header_new_def partial_header_default_def
      split: if_splits)

text \<open>A node whose hash function tells headers apart by their number, and one transfer to mine.\<close>

definition ex_crypto :: crypto where
  "ex_crypto = \<lparr>keccak256 = (\<lambda>b. case header_decode ex_rlp b of Ok h \<Rightarrow> hd_number h + 1000 | Err _ \<Rightarrow> 7),
     sig_recover = (\<lambda>_ _. Err 0), sig_try_from = (\<lambda>_. Err 0)\<rparr>"

lemma ex_header_hash [simp]: "header_hash ex_crypto ex_rlp h = hd_number h + 1000"
  by (simp add: header_hash_def ex_crypto_def header_roundtrip [OF ex_rlp_ok])

definition ex_mlib :: "(nat, unit, nat, nat, unit, unit) mine_lib" where
  "ex_mlib = \<lparr>ml_exec = \<lparr>xl_node =
        \<lparr>nl_inspect_ref = (\<lambda>ev _. Ok (Success EvalStop (te_gas_limit (ev_tx ev)) [] (OutputCall []), ())),
         nl_inspect_commit = (\<lambda>ev _ d. (Ok (Success EvalStop (te_gas_limit (ev_tx ev)) [] (OutputCall [])), (), d)),
         nl_basic = (\<lambda>_ _. Ok (Some \<lparr>ac_balance = 1000000, ac_nonce = 0, ac_code_hash = 0, ac_code = None\<rparr>)),
         nl_code_by_hash = (\<lambda>_ _. Ok []), nl_keccak_empty = 0,
         nl_forks = \<lparr>hf_spurious_dragon = 5, hf_berlin = 11, hf_london = 12, hf_merge = 15\<rparr>\<rparr>,
       xl_accrue = (\<lambda>_ b. b), xl_root = (\<lambda>_. 0), xl_state_root = (\<lambda>_. None), xl_crypto = ex_crypto, xl_rlp = ex_rlp\<rparr>,
     ml_states = ex_states, ml_current_state = id, ml_insert_block_hash = (\<lambda>_ _ d. d),
     ml_snapshot = (\<lambda>d. (of_nat d, Suc d)), ml_revert = (\<lambda>_ d. (True, d))\<rparr>"

definition ex_env :: EvmEnv where
  "ex_env = \<lparr>ev_cfg = \<lparr>ce_spec_id = 12, ce_chain_id = 1, ce_disable_block_gas_limit = False,
       ce_disable_base_fee = False, ce_disable_eip3607 = True\<rparr>,
     ev_block = \<lparr>be_number = 0, be_coinbase = 0, be_timestamp = 5, be_difficulty = 0, be_prevrandao = None,
        be_basefee = 0, be_gas_limit = 40000\<rparr>,
     ev_tx = \<lparr>te_caller = 0, te_gas_limit = 0, te_gas_price = 0, te_gas_priority_fee = None,
        te_transact_to = TransactCreate, te_value = 0, te_data = [], te_chain_id = None, te_nonce = None,
        te_access_list = []\<rparr>\<rparr>"

definition ex_backend :: "(nat, nat, nat, unit) Backend" where
  "ex_backend = \<lparr>bk_db = 0, bk_storage = storage_new (ml_exec ex_mlib) ex_env (Some 0) 5, bk_states = bs_default,
     bk_env = ex_env, bk_time = \<lparr>tm_offset = 0, tm_last_timestamp = 5, tm_next_exact_timestamp = None, tm_interval = None\<rparr>,
     bk_fees = fm_new 12 0 0, bk_active_snapshots = fmempty, bk_prune = prune_from_args (Some None),
     bk_transaction_block_keeper = None, bk_enable_steps_tracing = False\<rparr>"

definition ex_mtx :: PoolTransaction where
  "ex_mtx = ex_transfer (mi_hash ex_crypto ex_rlp (pd_transaction (pt_pending_transaction (ex_transfer 0 0)))) 0"

lemma ex_backend_ok: "backend_ok ex_mlib ex_backend"
  by (simp add: backend_ok_def ex_backend_def storage_new_ok) (simp add: ex_env_def storage_new_def Let_def)

lemma ex_mtx_hash: "mi_hash ex_crypto ex_rlp (pd_transaction (pt_pending_transaction ex_mtx)) = pt_hash ex_mtx"
  by (simp add: ex_mtx_def ex_transfer_def pt_hash_def)

text \<open>Mining it, with any database and any set of snapshots.\<close>

lemma ex_mine_one:
  assumes "te_gas_used ex = 0" "be_gas_limit (te_block_env ex) = 40000" "be_basefee (te_block_env ex) = 0"
  shows "execute_one (ml_exec ex_mlib) 1 ex_mtx ex =
    Some (Executed \<lparr>xt_transaction = ex_mtx, xt_exit_reason = Stop, xt_out = Some (OutputCall []),
      xt_gas_used = 30000, xt_logs = [], xt_traces = ()\<rparr>, ex)"
  using assms
  by (simp add: execute_one_def Let_def ex_mlib_def ex_mtx_def ex_transfer_def env_for_def
    to_revm_tx_env_def as_u64_def saturating_add_def validate_pool_transaction_for_def check_chain_id_def
    legacy_chain_id_def IMPERSONATED_SIGNATURE_def MIN_TRANSACTION_GAS_def check_fees_def add_chk_def
    tx_max_cost_def saturating_mul_def)

lemma ex_mine:
  "\<exists>out b'. do_mine_block ex_mlib 10 [ex_mtx] (ex_backend\<lparr>bk_db := d, bk_active_snapshots := m\<rparr>) = Some (out, b') \<and>
     mo_included out = [ex_mtx] \<and> mo_invalid out = [] \<and> st_best_hash (bk_storage b') = 1001 \<and> bk_db b' = d"
proof -
  have time: "next_timestamp 10 (bk_time ex_backend) = Some (10, (bk_time ex_backend)\<lparr>tm_last_timestamp := 10\<rparr>)"
    by (simp add: next_timestamp_def compute_next_timestamp_def ex_backend_def i128_saturating_add_def)
  have hist: "\<not> is_state_history_supported (bk_prune ex_backend)"
    by (simp add: ex_backend_def is_state_history_supported_def)
  have num: "be_number (ev_block (bk_env ex_backend)) = 0" "bk_fees ex_backend = fm_new 12 0 0"
    "ce_chain_id (ev_cfg (bk_env ex_backend)) = 1" "be_gas_limit (ev_block (bk_env ex_backend)) = 40000"
    "bk_transaction_block_keeper ex_backend = None"
    by (simp_all add: ex_backend_def ex_env_def)
  have fee: "base_fee_of l (fm_new 12 0 0) = 0" for l by (simp add: base_fee_of_def fm_new_def)
  have lib: "xl_crypto (ml_exec ex_mlib) = ex_crypto" "xl_rlp (ml_exec ex_mlib) = ex_rlp"
    "ml_insert_block_hash ex_mlib n h d = d" for n h d
    by (simp_all add: ex_mlib_def)
  show ?thesis
    by (simp add: do_mine_block_def time hist num fee lib execute_def mining_env_def ex_mine_one as_u64_def Let_def record_executed_def
      create_receipt_def receipt_gas_used_def block_new_def header_new_def saturating_add_def
      get_next_block_base_fee_per_gas_def store_block_def acc_empty_def)
qed

lemma ex_fresh:
  assumes "mo_included out = [ex_mtx]" "st_best_hash (bk_storage b') = 1001" "bk_storage b = bk_storage ex_backend"
  shows "fresh_block ex_mlib b out b'"
proof -
  have "fmlookup (st_blocks (bk_storage ex_backend)) 1001 = None" "fmlookup (st_transactions (bk_storage ex_backend)) h = None" for h
    by (simp_all add: ex_backend_def storage_new_def Let_def ex_mlib_def block_new_def header_new_def partial_header_default_def)
  moreover have "xl_crypto (ml_exec ex_mlib) = ex_crypto" "xl_rlp (ml_exec ex_mlib) = ex_rlp"
    by (simp_all add: ex_mlib_def)
  ultimately show ?thesis
    using assms by (simp add: fresh_block_def get_block_by_hash_def get_transaction_by_hash_def ex_mtx_hash)
qed

lemma ex_keeper: "bk_transaction_block_keeper ex_backend = None" and ex_best: "st_best_number (bk_storage ex_backend) = 0"
  by (simp_all add: ex_backend_def storage_new_def Let_def)

lemma ex_snapshot: "create_snapshot ex_mlib ex_backend = (0, ex_backend\<lparr>bk_db := 1, bk_active_snapshots :=
    fmupd 0 (st_best_number (bk_storage ex_backend), st_best_hash (bk_storage ex_backend)) fmempty\<rparr>)"
  using best_number_ok [OF ex_backend_ok] by (simp add: create_snapshot_def ex_mlib_def) (simp add: ex_backend_def)

text \<open>
  C5: a mined block extends the chain.  Its number is the next one, its parent is the block that was the best
  one, its transactions are the included ones, every older block stays where it was, the invariant of the
  storage is kept, and, unless old transactions are pruned, every included transaction can be found by its
  hash, in the new block.
\<close>

theorem mining_extends_chain:
  assumes "do_mine_block lib now txs b = Some (out, b')" "backend_ok lib b"
    and "get_block_by_hash (st_best_hash (bk_storage b')) (bk_storage b) = None"
  shows "backend_ok lib b' \<and>
    unat (st_best_number (bk_storage b')) = Suc (unat (st_best_number (bk_storage b))) \<and>
    mo_block_number out = st_best_number (bk_storage b') \<and>
    (\<exists>block. get_block_by_hash (st_best_hash (bk_storage b')) (bk_storage b') = Some block \<and>
      hd_parent_hash (bl_header block) = st_best_hash (bk_storage b) \<and>
      bl_transactions block = map (pd_transaction \<circ> pt_pending_transaction) (mo_included out)) \<and>
    (\<forall>h old. get_block_by_hash h (bk_storage b) = Some old \<longrightarrow> get_block_by_hash h (bk_storage b') = Some old) \<and>
    (\<forall>k \<le> st_best_number (bk_storage b). storage_hash (Number k) (bk_storage b') = storage_hash (Number k) (bk_storage b)) \<and>
    (bk_transaction_block_keeper b = None \<longrightarrow> (\<forall>tx \<in> set (mo_included out).
      \<exists>mt. get_transaction_by_hash (pt_hash tx) (bk_storage b') = Some mt \<and>
        mt_block_hash mt = st_best_hash (bk_storage b') \<and> mt_block_number mt = mo_block_number out))"
proof -
  note facts = mined_block_effect [OF assms]
  show ?thesis by (intro conjI allI impI ballI) (use facts(1-3) in \<open>simp_all add: facts(4,5,7) facts(6) [simplified]\<close>)
qed

theorem mining_extends_chain_witness:
  "\<exists>out b'. do_mine_block ex_mlib 10 [ex_mtx] ex_backend = Some (out, b') \<and> backend_ok ex_mlib ex_backend \<and>
    backend_ok ex_mlib b' \<and> st_best_number (bk_storage b') = 1 \<and>
    get_transaction_by_hash (pt_hash ex_mtx) (bk_storage b') \<noteq> None"
proof -
  obtain out b' where run: "do_mine_block ex_mlib 10 [ex_mtx] ex_backend = Some (out, b')"
    and new: "mo_included out = [ex_mtx]" "st_best_hash (bk_storage b') = 1001"
    using ex_mine [where d = "bk_db ex_backend" and m = "bk_active_snapshots ex_backend"] by auto
  have fresh: "get_block_by_hash (st_best_hash (bk_storage b')) (bk_storage ex_backend) = None"
    using ex_fresh [OF new refl] by (simp add: fresh_block_def)
  note facts = mining_extends_chain [OF run ex_backend_ok fresh, unfolded new ex_best]
  have "unat (st_best_number (bk_storage b')) = 1" using facts by simp
  then have "st_best_number (bk_storage b') = 1" by (simp add: word_unat_eq_iff)
  then show ?thesis using run ex_backend_ok facts ex_keeper by auto
qed

text \<open>
  C6: \<open>evm_revert\<close> undoes the blocks mined since \<open>evm_snapshot\<close>, however many they are: blocks, hashes, mined
  transactions, head and block number are the ones at the time of the snapshot, and the call answers what the
  database says.  (The total difficulty is not restored.)
\<close>

theorem revert_restores_chain:
  assumes snap: "create_snapshot lib b = (i, b1)" and mined: "mined_since lib b1 b2"
    and ok: "backend_ok lib b" and keep: "bk_transaction_block_keeper b = None"
    and bound: "unat (st_best_number (bk_storage b)) + 1 < 2 ^ 64"
  shows "\<exists>b3. revert_snapshot lib now i b2 = Some (Ok (fst (ml_revert lib i (bk_db b2))), b3) \<and>
    bk_storage b3 = (bk_storage b)\<lparr>st_total_difficulty := st_total_difficulty (bk_storage b2)\<rparr> \<and>
    bk_db b3 = snd (ml_revert lib i (bk_db b2)) \<and> backend_ok lib b3 \<and>
    fmlookup (bk_active_snapshots b3) i = None"
proof -
  note snap' = create_snapshot_simps [OF snap ok]
  have undo: "bk_active_snapshots b2 = bk_active_snapshots b1"
    "foldl (\<lambda>s k. revert_block (ml_exec lib) (of_nat k) s) (bk_storage b2)
       (rev [Suc (unat (st_best_number (bk_storage b)))..<Suc (unat (st_best_number (bk_storage b2)))]) =
     set_head (st_best_number (bk_storage b2)) (st_best_hash (bk_storage b2)) (st_total_difficulty (bk_storage b2)) (bk_storage b)"
    "backend_ok lib b2"
    using mined_since_revert [OF mined, unfolded snap'(1,2,3)] ok keep by simp_all
  have active: "fmlookup (bk_active_snapshots b2) i = Some (st_best_number (bk_storage b), st_best_hash (bk_storage b))"
    by (simp add: undo(1) snap')
  have chain: "chain_ok (ml_exec lib) (bk_storage b)" using ok by (simp add: backend_ok_def)
  obtain b3 where *: "revert_snapshot lib now i b2 = Some (Ok (fst (ml_revert lib i (bk_db b2))), b3)"
    "bk_db b3 = snd (ml_revert lib i (bk_db b2))"
    "bk_storage b3 = (bk_storage b)\<lparr>st_total_difficulty := st_total_difficulty (bk_storage b2)\<rparr>"
    "bk_active_snapshots b3 = fmdrop i (bk_active_snapshots b2)" "backend_ok lib b3"
    by (rule revert_active [OF active undo(2,3) chain bound])
  show ?thesis by (intro exI [of _ b3] conjI *) (simp add: *(4))
qed

theorem revert_restores_chain_witness:
  "\<exists>i b1 out b2 b3. create_snapshot ex_mlib ex_backend = (i, b1) \<and>
    do_mine_block ex_mlib 10 [ex_mtx] b1 = Some (out, b2) \<and> st_best_hash (bk_storage b2) = 1001 \<and>
    revert_snapshot ex_mlib 20 i b2 = Some (Ok True, b3) \<and> st_best_hash (bk_storage b3) = 1000"
proof -
  obtain b1 where snap: "create_snapshot ex_mlib ex_backend = (0, b1)"
    and b1: "b1 = ex_backend\<lparr>bk_db := 1, bk_active_snapshots :=
      fmupd 0 (st_best_number (bk_storage ex_backend), st_best_hash (bk_storage ex_backend)) fmempty\<rparr>"
    using ex_snapshot by blast
  obtain out b2 where run: "do_mine_block ex_mlib 10 [ex_mtx] b1 = Some (out, b2)"
    and new: "mo_included out = [ex_mtx]" "st_best_hash (bk_storage b2) = 1001"
    unfolding b1 using ex_mine by blast
  have "fresh_block ex_mlib b1 out b2" using new by (rule ex_fresh) (simp add: b1)
  then have mined: "mined_since ex_mlib b1 b2" by (rule mined_since.mined_block [OF mined_none run])
  obtain b3 where "revert_snapshot ex_mlib 20 0 b2 = Some (Ok True, b3)"
    "bk_storage b3 = (bk_storage ex_backend)\<lparr>st_total_difficulty := st_total_difficulty (bk_storage b2)\<rparr>"
    using revert_restores_chain [OF snap mined ex_backend_ok ex_keeper, of 20]
    by (auto simp: ex_best ex_mlib_def)
  moreover from this(2) have "st_best_hash (bk_storage b3) = 1000"
    by (simp add: ex_backend_def storage_new_def Let_def ex_mlib_def block_new_def header_new_def partial_header_default_def)
  ultimately show ?thesis using snap run new(2) by blast
qed



end
