(* ===== verification/PoolContents.thy ===== *)
theory PoolContents
  imports PoolSafety
begin

text \<open>
  What is in the pool came in through \<open>add_transaction\<close>: a property of all submitted transactions is a property of
  all transactions of every reachable pool, in whichever queue they are.
\<close>

definition all_ready :: "(PoolTransaction \<Rightarrow> bool) \<Rightarrow> ReadyTransactions \<Rightarrow> bool" where
  "all_ready P r \<longleftrightarrow> (\<forall>h x. refs_of (ready_tx r) h = Some x \<longrightarrow> P (rf_transaction x))"

definition all_waiting :: "(PoolTransaction \<Rightarrow> bool) \<Rightarrow> PendingTransactions \<Rightarrow> bool" where
  "all_waiting P w \<longleftrightarrow> (\<forall>h u. fmlookup (waiting_queue w) h = Some u \<longrightarrow> P (pp_transaction u))"

definition all_pooled :: "(PoolTransaction \<Rightarrow> bool) \<Rightarrow> PoolInner \<Rightarrow> bool" where
  "all_pooled P p \<longleftrightarrow> all_ready P (ready_transactions p) \<and> all_waiting P (pending_transactions p)"

lemma all_pooled_empty: "all_pooled P pool_empty"
  by (simp add: all_pooled_def all_ready_def all_waiting_def pool_empty_def ready_empty_def pend_empty_def refs_of_def)

lemma all_ready_le: "refs_of (ready_tx r') \<subseteq>\<^sub>m refs_of (ready_tx r) \<Longrightarrow> all_ready P r \<Longrightarrow> all_ready P r'"
  unfolding all_ready_def by (blast dest: map_le_SomeD)

lemma all_ready_shrinks: "shrinks r r' txs \<Longrightarrow> all_ready P r \<Longrightarrow> all_ready P r'"
  by (rule all_ready_le) (simp_all add: shrinks_def)

lemma all_waiting_less: "less_waiting w w' \<Longrightarrow> all_waiting P w \<Longrightarrow> all_waiting P w'"
  unfolding less_waiting_def all_waiting_def by metis

lemma unlocked_all:
  assumes "wf_pending w" "mark_effect M w out w'" "all_waiting P w"
  shows "all_waiting P w'" "\<forall>t \<in> set out. P (pp_transaction t)"
proof -
  show "all_waiting P w'" by (rule all_waiting_less [OF mark_effect_less [OF assms(2)] assms(3)])
  show "\<forall>t \<in> set out. P (pp_transaction t)"
  proof
    fix t assume "t \<in> set out"
    then have "t \<in> unlocked_by M w" using mark_effectD(3) [OF assms(2)] by simp
    then obtain u where "fmlookup (waiting_queue w) (pp_hash t) = Some u" "t = marked M u"
      using unlocked_by_hash [OF assms(1)] by blast
    then show "P (pp_transaction t)" using assms(3) by (auto simp: all_waiting_def)
  qed
qed

lemma ready_add_all:
  assumes hs: "hasher_ok hs" and wf: "wf_pool p" and q: "queue_ok p (c # q)"
    and add: "ready_add hs c (ready_transactions p) = Some (res, r')"
    and P: "all_ready P (ready_transactions p)" "P (pp_transaction c)"
  shows "all_ready P r'"
proof -
  have c: "pp_is_ready c" "tx_ok (pp_transaction c)" "\<not> ready_contains (pp_hash c) (ready_transactions p)"
    using q by (auto simp: queue_ok_def pool_contains_iff)
  show ?thesis
  proof (cases rule: ready_add_cases [OF hs wf_poolD(2) [OF wf] c(1,3,2)])
    case 1
    then show ?thesis using add P(1) by simp
  next
    case (2 removed r2)
    then obtain r1 x where "shrinks (ready_transactions p) r1 removed" "rf_transaction x = pp_transaction c"
      "refs_of (ready_tx r2) = (refs_of (ready_tx r1))(pt_hash (pp_transaction c) \<mapsto> x)"
      unfolding ready_added_def by blast
    moreover have "r' = r2" using 2(2) add by simp
    ultimately show ?thesis using all_ready_shrinks [of "ready_transactions p" r1 removed P] P
      by (auto simp: all_ready_def)
  qed
qed

lemma promote_one_all:
  assumes hs: "hasher_ok hs" and wf: "wf_pool p" and q: "queue_ok p (c # q)"
    and mark: "mark_and_unlock hs (pt_provides (pp_transaction c)) (pending_transactions p) = Some (out, w')"
    and add: "ready_add hs c (ready_transactions p) = Some (res, r')"
    and P: "all_pooled P p" "\<forall>t \<in> set (c # q). P (pp_transaction t)"
  shows "all_pooled P (pool_of r' w') \<and> (\<forall>t \<in> set (q @ out). P (pp_transaction t)) \<and>
    waiting_hashes w' \<subseteq> waiting_hashes (pending_transactions p)"
proof -
  have eff: "mark_effect (set (pt_provides (pp_transaction c))) (pending_transactions p) out w'"
    using mark_and_unlock_effect [OF hs wf_poolD(1) [OF wf]] mark by (metis option.inject prod.inject)
  have "waiting_hashes w' \<subseteq> waiting_hashes (pending_transactions p)"
    using mark_effect_hashes(1) [OF wf_poolD(1) [OF wf] eff] by blast
  with unlocked_all [OF wf_poolD(1) [OF wf] eff] ready_add_all [OF hs wf q add] P
  show ?thesis by (auto simp: all_pooled_def simp del: in_hashes)
qed

lemma add_ready_loop_all:
  assumes "hasher_ok hs" "wf_pool p" "queue_ok p q" "all_pooled P p" "\<forall>t \<in> set q. P (pp_transaction t)"
  shows "\<exists>rep' p'. add_ready_loop hs q False rep p = Some (Ok rep', p') \<and> wf_pool p' \<and> all_pooled P p' \<and>
    waiting_hashes (pending_transactions p') \<subseteq> waiting_hashes (pending_transactions p)"
proof -
  let ?I = "\<lambda>q (rep :: ReadyReport) p'. all_pooled P p' \<and> (\<forall>t \<in> set q. P (pp_transaction t)) \<and>
    waiting_hashes (pending_transactions p') \<subseteq> waiting_hashes (pending_transactions p)"
  have "?I q rep p" using assms(4,5) by simp
  moreover have "?I (q @ out) rep' (pool_of r' w')"
    if "wf_pool p1" "queue_ok p1 (c # q)" "?I (c # q) rep p1"
      "mark_and_unlock hs (pt_provides (pp_transaction c)) (pending_transactions p1) = Some (out, w')"
      "ready_add hs c (ready_transactions p1) = Some (res, r')" for c q rep rep' p1 out w' res r'
    using promote_one_all [OF assms(1) that(1,2,4,5), of P] that(3) by auto
  ultimately show ?thesis using add_ready_loop_rule [OF assms(1-3), where I = ?I and rep = rep] by blast
qed

lemma clear_all:
  assumes "wf_pool p" "all_pooled P p"
  shows "all_pooled P (p\<lparr>ready_transactions := snd (remove_with_markers hashes None (ready_transactions p))\<rparr>)"
proof -
  have "wf_ready_but {} (ready_transactions p)" "filter_within None {}"
    using wf_poolD(2) [OF assms(1)] by (simp_all add: wf_ready_def)
  then obtain txs r' where "remove_with_markers hashes None (ready_transactions p) = (txs, r')"
    "shrinks (ready_transactions p) r' txs"
    using remove_with_markers_inv by metis
  then show ?thesis using assms(2) by (simp add: all_pooled_def all_ready_shrinks)
qed

lemma add_ready_transaction_all:
  assumes hs: "hasher_ok hs" and wf: "wf_pool p" and q: "queue_ok p [tx]"
    and add: "add_ready_transaction hs tx p = Some (res, p')" and P: "all_pooled P p" "P (pp_transaction tx)"
  shows "all_pooled P p' \<and> waiting_hashes (pending_transactions p') \<subseteq> waiting_hashes (pending_transactions p)"
proof -
  obtain out w' r r' where
    st: "mark_and_unlock hs (pt_provides (pp_transaction tx)) (pending_transactions p) = Some (out, w')"
      "ready_add hs tx (ready_transactions p) = Some (r, r')"
    and wf': "wf_pool (pool_of r' w')" and q': "queue_ok (pool_of r' w') out"
    using promote_one [OF hs wf q, unfolded append_Nil] by blast
  have one: "all_pooled P (pool_of r' w')" "\<forall>t \<in> set out. P (pp_transaction t)"
    "waiting_hashes w' \<subseteq> waiting_hashes (pending_transactions p)"
    using promote_one_all [OF hs wf q st P(1)] P(2) by simp_all
  show ?thesis
  proof (cases r)
    case (Err e)
    then have "p' = pool_of r' w'"
      using add by (simp add: add_ready_transaction_def add_ready_loop.simps [of hs "[tx]"] st)
    then show ?thesis using one(1,3) by simp
  next
    case (Ok replaced)
    obtain rep' p1 where "add_ready_loop hs out False ((report_new (pp_hash tx))\<lparr>rr_removed := rr_removed (report_new (pp_hash tx)) @ replaced\<rparr>)
        (pool_of r' w') = Some (Ok rep', p1)" and p1: "wf_pool p1" "all_pooled P p1"
      and less: "waiting_hashes (pending_transactions p1) \<subseteq> waiting_hashes (pending_transactions (pool_of r' w'))"
      using add_ready_loop_all [OF hs wf' q' one(1,2)] by blast
    then have "p' = p1 \<or> p' = p1\<lparr>ready_transactions := snd (clear_transactions (rr_promoted rep') (ready_transactions p1))\<rparr>"
      using add by (auto simp: add_ready_transaction_def add_ready_loop.simps [of hs "[tx]"] st Ok Let_def split: if_splits)
    moreover have "waiting_hashes (pending_transactions p1) \<subseteq> waiting_hashes (pending_transactions p)"
      using less one(3) by simp
    ultimately show ?thesis using p1(2) clear_all [OF p1] by (auto simp: clear_transactions_def)
  qed
qed

lemma pool_add_all:
  assumes hs: "hasher_ok hs" and wf: "wf_pool p" and tx: "tx_ok tx"
    and add: "pool_add hs now tx p = Some (res, p')" and P: "all_pooled P p" "P tx"
  shows "all_pooled P p'"
proof -
  let ?t = "pp_new tx (provided_markers (ready_transactions p)) now"
  have t [simp]: "pp_transaction ?t = tx" by (simp add: pp_new_def)
  consider "pool_contains (pt_hash tx) p" | "\<not> pool_contains (pt_hash tx) p" "pp_is_ready ?t"
    | "\<not> pool_contains (pt_hash tx) p" "\<not> pp_is_ready ?t" by blast
  then show ?thesis
  proof cases
    case 1
    then show ?thesis using add P(1) by (simp add: pool_add_def)
  next
    case 2
    then have "queue_ok p [?t]" using tx by (simp add: queue_ok_def)
    then show ?thesis using add_ready_transaction_all [OF hs wf, of ?t res p' P] add P 2 by (simp add: pool_add_def)
  next
    case 3
    then have "\<exists>r pend. pend_add hs ?t (pending_transactions p) = Some (r, pend) \<and> p' = p\<lparr>pending_transactions := pend\<rparr>"
      using add by (auto simp: pool_add_def Let_def split: option.splits result.splits)
    then obtain r pend where r: "pend_add hs ?t (pending_transactions p) = Some (r, pend)" "p' = p\<lparr>pending_transactions := pend\<rparr>"
      by blast
    have "all_waiting P pend"
      using r(1) P by (auto simp: pend_add_def all_pooled_def all_waiting_def Let_def split: if_splits option.splits)
    then show ?thesis using P(1) by (simp add: r(2) all_pooled_def)
  qed
qed

text \<open>A transaction that requires nothing is not queued as pending.\<close>

lemma pool_add_no_requires:
  assumes hs: "hasher_ok hs" and wf: "wf_pool p" and tx: "tx_ok tx" and req: "pt_requires tx = []"
    and add: "pool_add hs now tx p = Some (Ok a, p')"
  shows "pt_hash tx \<in> ready_hashes (ready_transactions p')"
proof -
  let ?t = "pp_new tx (provided_markers (ready_transactions p)) now"
  have t: "pp_transaction ?t = tx" "pp_is_ready ?t" by (simp_all add: pp_new_def pp_is_ready_def req)
  have new: "\<not> pool_contains (pt_hash tx) p" using add by (auto simp: pool_add_def split: if_splits)
  then have run: "add_ready_transaction hs ?t p = Some (Ok a, p')" using add t by (simp add: pool_add_def)
  have q: "queue_ok p [?t]" using tx t new by (simp add: queue_ok_def)
  have "waiting_hashes (pending_transactions p') \<subseteq> waiting_hashes (pending_transactions p)"
    using add_ready_transaction_all [OF hs wf q run, of "\<lambda>_. True"] by (simp add: all_pooled_def all_ready_def all_waiting_def)
  moreover have "pt_hash tx \<in> pool_hashes p'"
    using add_ready_transaction_ok [OF hs wf q] run t(1) by (auto simp: ready_outcome_def)
  ultimately show ?thesis using new by (auto simp: pool_contains_def)
qed

lemma prune_marks_all:
  assumes hs: "hasher_ok hs"
  shows "wf_pool p \<Longrightarrow> queue_ok p imps \<Longrightarrow> all_pooled P p \<Longrightarrow> \<forall>t \<in> set imps. P (pp_transaction t) \<Longrightarrow>
    prune_marks hs ms imps pruned p = Some (imps', pruned', p') \<Longrightarrow>
    all_pooled P p' \<and> (\<forall>t \<in> set imps'. P (pp_transaction t))"
proof (induction ms arbitrary: imps pruned p)
  case (Cons m ms)
  let ?r = "ready_transactions p" and ?w = "pending_transactions p"
  obtain out w' where mark: "mark_and_unlock hs [m] ?w = Some (out, w')" and eff: "mark_effect {m} ?w out w'"
    using mark_and_unlock_effect [OF hs wf_poolD(1) [OF Cons.prems(1)], of "[m]"] by auto
  obtain txs r' where r': "prune_tags m ?r = Some (txs, r')" "wf_ready r'" "shrinks ?r r' txs"
    using prune_tags_inv [OF wf_poolD(2) [OF Cons.prems(1)]] .
  note less = mark_effect_less [OF eff]
  have wf': "wf_pool (pool_of r' w')" by (rule wf_pool_less [OF Cons.prems(1) r'(3,2) less])
  have cont: "\<And>h. pool_contains h (pool_of r' w') \<Longrightarrow> pool_contains h p"
    by (rule pool_contains_less [OF r'(3) less])
  have "queue_ok (pool_of r' w') imps" by (rule queue_ok_less [OF Cons.prems(2) cont])
  moreover have "queue_ok (pool_of r' w') out"
    using wf_poolD(3) [OF Cons.prems(1)] shrinks_contains [OF r'(3)]
    by (intro unlocked_queue_ok [OF Cons.prems(1) eff]) blast
  moreover have "set (map pp_hash imps) \<inter> set (map pp_hash out) = {}"
    using Cons.prems(2) unlocked_hash_waits [OF Cons.prems(1) eff] by (auto simp: queue_ok_def)
  ultimately have q': "queue_ok (pool_of r' w') (imps @ out)" by (rule queue_ok_append)
  have "all_waiting P ?w" "all_ready P ?r" using Cons.prems(3) by (simp_all add: all_pooled_def)
  then have "all_pooled P (pool_of r' w')" "\<forall>t \<in> set (imps @ out). P (pp_transaction t)"
    using unlocked_all [OF wf_poolD(1) [OF Cons.prems(1)] eff] all_ready_shrinks [OF r'(3)] Cons.prems(4)
    by (auto simp: all_pooled_def)
  then show ?case using Cons.IH [OF wf' q'] Cons.prems(5) by (simp add: mark r'(1))
qed simp

lemma promote_imports_all:
  assumes hs: "hasher_ok hs"
  shows "wf_pool p \<Longrightarrow> queue_ok p txs \<Longrightarrow> all_pooled P p \<Longrightarrow> \<forall>t \<in> set txs. P (pp_transaction t) \<Longrightarrow>
    promote_imports hs txs res p = Some (res', p') \<Longrightarrow> all_pooled P p'"
proof (induction txs arbitrary: res p)
  case (Cons tx txs)
  have one: "queue_ok p [tx]" using Cons.prems(2) by (simp add: queue_ok_def)
  obtain r p1 where add: "add_ready_transaction hs tx p = Some (r, p1)" and wf1: "wf_pool p1"
    and out: "ready_outcome tx p r p1"
    using add_ready_transaction_ok [OF hs Cons.prems(1) one] by blast
  have "pool_hashes p1 \<subseteq> insert (pp_hash tx) (pool_hashes p)"
    using out by (auto simp: ready_outcome_def split: result.splits PoolError.splits)
  then have cont: "\<And>h. pool_contains h p1 \<Longrightarrow> pool_contains h p \<or> h = pp_hash tx" by auto
  have "queue_ok p txs" "\<And>t. t \<in> set txs \<Longrightarrow> pp_hash t \<noteq> pp_hash tx"
    using Cons.prems(2) by (auto simp: queue_ok_def image_iff)
  then have q1: "queue_ok p1 txs" using cont by (blast intro: queue_ok_less)
  have P1: "all_pooled P p1"
    using add_ready_transaction_all [OF hs Cons.prems(1) one add Cons.prems(3)] Cons.prems(4) by simp
  show ?case
    using Cons.IH [OF wf1 q1 P1] Cons.prems(4,5) by (cases r) (simp_all add: add)
qed simp

lemma prune_markers_all:
  assumes hs: "hasher_ok hs" and wf: "wf_pool p" and P: "all_pooled P p"
    and run: "prune_markers hs ms p = Some (res, p')"
  shows "all_pooled P p'"
proof -
  have q: "queue_ok p []" by (simp add: queue_ok_def)
  obtain imps pruned p1 where marks: "prune_marks hs ms [] [] p = Some (imps, pruned, p1)" "wf_pool p1" "queue_ok p1 imps"
    using prune_marks_ok [OF hs wf q, of ms "[]"] by blast
  have "all_pooled P p1 \<and> (\<forall>t \<in> set imps. P (pp_transaction t))"
    using prune_marks_all [OF hs wf q P _ marks(1)] by simp
  then show ?thesis using promote_imports_all [OF hs marks(2,3)] run by (simp add: prune_markers_def marks(1))
qed

lemma remove_invalid_less:
  assumes "hasher_ok hs" "wf_pool p"
  shows "less_waiting (pending_transactions p) (pending_transactions (snd (remove_invalid hs hashes p)))"
  using pend_remove_wf [OF assms(1) wf_poolD(1) [OF assms(2)]] wf_poolD(1) [OF assms(2)]
  by (auto simp: remove_invalid_def less_waiting_def pend_remove_queue split_def Let_def)

lemma remove_invalid_all:
  assumes hs: "hasher_ok hs" and wf: "wf_pool p" and P: "all_pooled P p"
  shows "all_pooled P (snd (remove_invalid hs hashes p))"
  using P all_waiting_less [OF remove_invalid_less [OF hs wf]] all_ready_le [OF remove_invalid_ok(4) [OF hs wf]]
  by (auto simp: all_pooled_def)

lemma pool_exec_all:
  assumes "hasher_ok hs" "op_ok op" "wf_pool p" "pool_exec hs op p = Some p'" "all_pooled P p"
    and "\<And>now tx. op = AddTransaction now tx \<Longrightarrow> P tx"
  shows "all_pooled P p'"
proof (cases op)
  case (AddTransaction now tx)
  with assms pool_add_all [OF assms(1,3), of tx now] show ?thesis by auto
next
  case (PruneMarkers ms)
  with assms prune_markers_all [OF assms(1,3)] show ?thesis by auto
next
  case (RemoveInvalid hashes)
  with assms remove_invalid_all [OF assms(1,3)] show ?thesis by auto
next
  case (DropTransaction h)
  with assms clear_all [OF assms(3)] show ?thesis by (auto simp: drop_transaction_def split_def Let_def)
next
  case (OnMinedBlock included invalid)
  with assms prune_markers_all [OF assms(1) remove_invalid_ok(1) [OF assms(1,3)] remove_invalid_all [OF assms(1,3,5)]]
  show ?thesis by (auto simp: on_mined_block_def split_def Let_def)
qed

end
