(* ===== verification/Service.thy ===== *)
theory Service
  imports ChainSafety PoolContents
begin

text \<open>
  The service that drives the node (\<open>anvil/src/service.rs\<close>) and its miner (\<open>anvil/src/eth/miner.rs\<close>): the
  miner takes ready transactions out of the pool, the block producer mines one block at a time from a queue of
  such sets, and the outcome of every block is reported to the pool.

  A future that is polled may be finished or not; what the futures of the mined blocks and the timer of the
  interval miner answer at each turn of the loop is an argument (\<open>ready\<close>, \<open>tick\<close>).  The channel that tells the
  miner of new transactions is the list of the hashes in it.  The fee history task and the eviction of filters,
  which are polled after the loop, are not part of this model, and neither are wakers.
\<close>

section \<open>The miner\<close>

record ReadyTransactionMiner =
  rm_max_transactions :: nat
  rm_has_pending_txs :: "bool option"
  rm_rx :: "TxHash list"

text \<open>The state of the interval timer is part of the environment.\<close>

datatype MiningMode = NoMining | Auto ReadyTransactionMiner | FixedBlockTime

definition mode_instant :: "nat \<Rightarrow> TxHash list \<Rightarrow> MiningMode" where
  "mode_instant max_transactions listener =
     Auto \<lparr>rm_max_transactions = max_transactions, rm_has_pending_txs = None, rm_rx = listener\<rparr>"

definition mode_interval :: MiningMode where
  "mode_interval = FixedBlockTime"

fun is_auto_mine :: "MiningMode \<Rightarrow> bool" where
  "is_auto_mine (Auto _) = True"
| "is_auto_mine _ = False"

fun is_interval :: "MiningMode \<Rightarrow> bool" where
  "is_interval FixedBlockTime = True"
| "is_interval _ = False"

definition set_mining_mode :: "MiningMode \<Rightarrow> MiningMode \<Rightarrow> MiningMode" where
  "set_mining_mode mode _ = mode"

text \<open>\<open>None\<close> is \<open>Poll::Pending\<close>.\<close>

definition ready_miner_poll ::
  "PoolInner \<Rightarrow> ReadyTransactionMiner \<Rightarrow> PoolTransaction list option \<times> ReadyTransactionMiner" where
  "ready_miner_poll pool m =
     (let m1 = (if rm_rx m \<noteq> [] then m\<lparr>rm_rx := [], rm_has_pending_txs := Some True\<rparr> else m) in
      if rm_has_pending_txs m1 = Some False then (None, m1)
      else
        (let transactions = iter_take (rm_max_transactions m1) (get_transactions (ready_transactions pool));
             m2 = m1\<lparr>rm_has_pending_txs := Some (rm_max_transactions m1 \<le> length transactions)\<rparr>
         in if transactions = [] then (None, m2) else (Some transactions, m2)))"

text \<open>\<open>collect\<close> on the iterator of the pool; \<open>None\<close> is an iterator that never ends.\<close>

partial_function (option) iter_collect :: "TransactionsIterator \<Rightarrow> PoolTransaction list option" where
  "iter_collect it =
     (case iter_next it of
        None \<Rightarrow> Some []
      | Some (tx, it') \<Rightarrow> do { txs \<leftarrow> iter_collect it'; Some (tx # txs) })"

definition fixed_miner_poll :: "bool \<Rightarrow> PoolInner \<Rightarrow> PoolTransaction list option option" where
  "fixed_miner_poll tick pool =
     (if tick then do { txs \<leftarrow> iter_collect (get_transactions (ready_transactions pool)); Some (Some txs) }
      else Some None)"

text \<open>\<open>MiningMode::poll\<close>.  The outer \<open>None\<close> is a call that does not return.\<close>

fun mode_poll :: "bool \<Rightarrow> PoolInner \<Rightarrow> MiningMode \<Rightarrow> (PoolTransaction list option \<times> MiningMode) option" where
  "mode_poll tick pool NoMining = Some (None, NoMining)"
| "mode_poll tick pool (Auto m) = (case ready_miner_poll pool m of (r, m') \<Rightarrow> Some (r, Auto m'))"
| "mode_poll tick pool FixedBlockTime = do { r \<leftarrow> fixed_miner_poll tick pool; Some (r, FixedBlockTime) }"

section \<open>The block producer\<close>

record 'b BlockProducer =
  bp_idle_backend :: "'b option"
  bp_block_mining :: "(PoolTransaction list \<times> 'b) option"
  bp_queued :: "PoolTransaction list list"

definition producer_new :: "'b \<Rightarrow> 'b BlockProducer" where
  "producer_new backend = \<lparr>bp_idle_backend = Some backend, bp_block_mining = None, bp_queued = []\<rparr>"

text \<open>The first half of \<open>poll_next\<close>: an idle backend starts on the next set of the queue.\<close>

definition producer_start :: "'b BlockProducer \<Rightarrow> 'b BlockProducer" where
  "producer_start bp =
     (case bp_queued bp of
        [] \<Rightarrow> bp
      | transactions # queued \<Rightarrow>
          (case bp_idle_backend bp of
             None \<Rightarrow> bp
           | Some backend \<Rightarrow> bp\<lparr>bp_idle_backend := None, bp_queued := queued, bp_block_mining := Some (transactions, backend)\<rparr>))"

definition producer_poll_next ::
  "(PoolTransaction list \<Rightarrow> 'b \<Rightarrow> (MinedBlockOutcome \<times> 'b) option) \<Rightarrow> bool \<Rightarrow> 'b BlockProducer \<Rightarrow>
    (MinedBlockOutcome option \<times> 'b BlockProducer) option" where
  "producer_poll_next mine_block ready bp =
     (let bp1 = producer_start bp in
      case bp_block_mining bp1 of
        None \<Rightarrow> Some (None, bp1)
      | Some (transactions, backend) \<Rightarrow>
          if ready then
            (case mine_block transactions backend of
               None \<Rightarrow> None
             | Some (outcome, backend') \<Rightarrow>
                 Some (Some outcome, bp1\<lparr>bp_block_mining := None, bp_idle_backend := Some backend'\<rparr>))
          else Some (None, bp1))"

section \<open>The service\<close>

record 'b NodeService =
  ns_pool :: PoolInner
  ns_block_producer :: "'b BlockProducer"
  ns_miner :: MiningMode

text \<open>
  The loop of \<open>NodeService::poll\<close>; \<open>k\<close> counts its turns.  A turn is one turn of the inner loop, which reports a
  mined block, or the step from the end of the inner loop to the next turn of the outer one.  \<open>None\<close> is a poll
  that does not return.
\<close>

partial_function (option) service_poll ::
  "hasher \<Rightarrow> (PoolTransaction list \<Rightarrow> 'b \<Rightarrow> (MinedBlockOutcome \<times> 'b) option) \<Rightarrow> (nat \<Rightarrow> bool) \<Rightarrow> (nat \<Rightarrow> bool) \<Rightarrow> nat \<Rightarrow>
    'b NodeService \<Rightarrow> 'b NodeService option" where
  "service_poll hs mine_block ready tick k s = do {
     (outcome, bp) \<leftarrow> producer_poll_next mine_block (ready k) (ns_block_producer s);
     case outcome of
       Some out \<Rightarrow> do {
         (_, pool) \<leftarrow> on_mined_block hs (mo_included out) (mo_invalid out) (ns_pool s);
         service_poll hs mine_block ready tick (Suc k) (s\<lparr>ns_block_producer := bp, ns_pool := pool\<rparr>)
       }
     | None \<Rightarrow> do {
         (txs, miner) \<leftarrow> mode_poll (tick k) (ns_pool s) (ns_miner s);
         case txs of
           Some transactions \<Rightarrow>
             service_poll hs mine_block ready tick (Suc k)
               (s\<lparr>ns_block_producer := bp\<lparr>bp_queued := bp_queued bp @ [transactions]\<rparr>, ns_miner := miner\<rparr>)
         | None \<Rightarrow> Some (s\<lparr>ns_block_producer := bp, ns_miner := miner\<rparr>)
       }
   }"

section \<open>New transactions\<close>

text \<open>
  The hash of an accepted transaction and of those it promotes is sent to the miner.  The channel of the
  \<open>futures\<close> crate is bounded: \<open>room n\<close> says whether it takes a message when it holds \<open>n\<close>, which its documentation
  promises up to the size it was created with (\<open>channel_ok\<close>).  The message is lost otherwise.
\<close>

definition TX_LISTENER_BUFFER_SIZE :: nat where "TX_LISTENER_BUFFER_SIZE = 2048"

definition channel_ok :: "(nat \<Rightarrow> bool) \<Rightarrow> bool" where
  "channel_ok room \<longleftrightarrow> (\<forall>n < TX_LISTENER_BUFFER_SIZE. room n)"

fun notify_listener :: "(nat \<Rightarrow> bool) \<Rightarrow> TxHash \<Rightarrow> MiningMode \<Rightarrow> MiningMode" where
  "notify_listener room hash (Auto m) =
     Auto (if room (length (rm_rx m)) then m\<lparr>rm_rx := rm_rx m @ [hash]\<rparr> else m)"
| "notify_listener room hash mode = mode"

text \<open>\<open>Pool::add_transaction\<close>.\<close>

definition add_transaction ::
  "(nat \<Rightarrow> bool) \<Rightarrow> hasher \<Rightarrow> nat \<Rightarrow> PoolTransaction \<Rightarrow> PoolInner \<Rightarrow> MiningMode \<Rightarrow>
    ((AddedTransaction, PoolError) result \<times> PoolInner \<times> MiningMode) option" where
  "add_transaction room hs now tx pool miner =
     (case pool_add hs now tx pool of
        None \<Rightarrow> None
      | Some (added, pool') \<Rightarrow>
          Some (added, pool',
            (case added of
               Ok (AddedReady ready) \<Rightarrow> fold (notify_listener room) (rr_hash ready # rr_promoted ready) miner
             | _ \<Rightarrow> miner)))"

definition service_add ::
  "(nat \<Rightarrow> bool) \<Rightarrow> hasher \<Rightarrow> nat \<Rightarrow> PoolTransaction \<Rightarrow> 'b NodeService \<Rightarrow> ((AddedTransaction, PoolError) result \<times> 'b NodeService) option" where
  "service_add room hs now tx s =
     (case add_transaction room hs now tx (ns_pool s) (ns_miner s) of
        None \<Rightarrow> None
      | Some (added, pool, miner) \<Rightarrow> Some (added, s\<lparr>ns_pool := pool, ns_miner := miner\<rparr>))"

section \<open>A mined block in the pool\<close>

text \<open>
  A marker that nothing waits for unlocks nothing: pruning such markers only removes ready transactions.
\<close>

lemma prune_marks_idle:
  assumes "wf_pool p" "\<forall>m \<in> set ms. fmlookup (required_markers (pending_transactions p)) m = None"
  shows "\<exists>pruned' r'. prune_marks hs ms imps pruned p = Some (imps, pruned', pool_of r' (pending_transactions p)) \<and>
    wf_pool (pool_of r' (pending_transactions p)) \<and>
    refs_of (ready_tx r') \<subseteq>\<^sub>m refs_of (ready_tx (ready_transactions p))"
  using assms
proof (induction ms arbitrary: pruned p)
  case (Cons m ms)
  let ?w = "pending_transactions p"
  obtain txs r' where r': "prune_tags m (ready_transactions p) = Some (txs, r')" "wf_ready r'"
    "shrinks (ready_transactions p) r' txs"
    using prune_tags_inv [OF wf_poolD(2) [OF Cons.prems(1)]] .
  have idle: "mark_and_unlock hs [m] ?w = Some ([], ?w)" using Cons.prems(2) by (intro mark_and_unlock_idle) simp
  have wf': "wf_pool (pool_of r' ?w)"
    by (rule wf_pool_less [OF Cons.prems(1) r'(3,2) less_waiting_refl [OF wf_poolD(1) [OF Cons.prems(1)]]])
  obtain pruned'' r'' where "prune_marks hs ms imps (pruned @ txs) (pool_of r' ?w) = Some (imps, pruned'', pool_of r'' ?w)"
    "wf_pool (pool_of r'' ?w)" "refs_of (ready_tx r'') \<subseteq>\<^sub>m refs_of (ready_tx r')"
    using Cons.IH [OF wf', of "pruned @ txs"] Cons.prems(2) by auto
  moreover have "refs_of (ready_tx r') \<subseteq>\<^sub>m refs_of (ready_tx (ready_transactions p))"
    using r'(3) by (simp add: shrinks_def)
  ultimately show ?case using idle r'(1) by (auto intro: map_le_trans)
next
  case (Nil pruned p)
  then show ?case by (cases p) auto
qed

lemma not_required:
  assumes wf: "wf_pool p" and less: "less_waiting (pending_transactions p) w"
    and m: "fmlookup (provided_markers (ready_transactions p)) m \<noteq> None"
  shows "fmlookup (required_markers w) m = None"
proof (rule ccontr)
  have wfw: "wf_pending w" using less by (simp add: less_waiting_def)
  assume "fmlookup (required_markers w) m \<noteq> None"
  then obtain S where S: "fmlookup (required_markers w) m = Some S" by blast
  with wf_pendingD(3) [OF wfw, of m] obtain h where "h \<in> S" by force
  then have "h \<in> waits_for w m" using S by (simp add: waits_for_def)
  then obtain t where t: "fmlookup (waiting_queue w) h = Some t" "m \<in> pp_missing_markers t"
    using wf_pendingD(2) [OF wfw] by blast
  obtain u where "fmlookup (waiting_queue (pending_transactions p)) h = Some u" "m \<in> pp_missing_markers u"
    using less_waitingE [OF less t(1)] t(2) by blast
  from wf_poolD(5) [OF wf this] m show False by simp
qed

text \<open>
  When the included transactions are ready, the report of a block moves nothing from the pending queue to the
  ready one: the ready transactions afterwards are some of those before.
\<close>

lemma on_mined_block_shrinks:
  assumes hs: "hasher_ok hs" and wf: "wf_pool p"
    and ready: "\<And>tx. tx \<in> set included \<Longrightarrow> pt_provides tx \<noteq> [] \<and>
      (\<exists>t. ready_get (pt_hash tx) (ready_transactions p) = Some t \<and> rf_transaction (rt_transaction t) = tx)"
  obtains res p' where "on_mined_block hs included invalid p = Some (res, p')" "wf_pool p'"
    "pool_hashes p' \<subseteq> pool_hashes p - pt_hash ` (set included \<union> set invalid)"
    "refs_of (ready_tx (ready_transactions p')) \<subseteq>\<^sub>m refs_of (ready_tx (ready_transactions p))"
proof -
  let ?p1 = "snd (remove_invalid hs (map pt_hash invalid) p)"
  note inv = remove_invalid_ok [OF hs wf, of "map pt_hash invalid"]
  obtain res p' where run: "on_mined_block hs included invalid p = Some (res, p')" "wf_pool p'"
    and hashes: "pool_hashes p' \<subseteq> pool_hashes p - pt_hash ` (set included \<union> set invalid)"
    using on_mined_block_ok [OF wf hs, of included invalid] ready by blast
  have "fmlookup (required_markers (pending_transactions ?p1)) m = None"
    if m: "m \<in> set (concat (map pt_provides included))" for m
  proof -
    obtain tx where tx: "tx \<in> set included" "m \<in> set (pt_provides tx)" using m by auto
    then obtain t where t: "ready_get (pt_hash tx) (ready_transactions p) = Some t" "rf_transaction (rt_transaction t) = tx"
      using ready by blast
    then have "refs_of (ready_tx (ready_transactions p)) (pt_hash tx) = Some (rt_transaction t)"
      by (simp add: refs_of_def ready_get_def)
    from ready_invD(4) [OF wf_poolD(2) [OF wf, unfolded wf_ready_def wf_ready_but_def] this] tx(2) t(2)
    have "fmlookup (provided_markers (ready_transactions p)) m \<noteq> None" by simp
    then show ?thesis by (rule not_required [OF wf remove_invalid_less [OF hs wf]])
  qed
  then obtain pruned r' where "prune_marks hs (concat (map pt_provides included)) [] [] ?p1 =
      Some ([], pruned, pool_of r' (pending_transactions ?p1))"
    and refs: "refs_of (ready_tx r') \<subseteq>\<^sub>m refs_of (ready_tx (ready_transactions ?p1))"
    using prune_marks_idle [OF inv(1), of "concat (map pt_provides included)" hs "[]" "[]"] by blast
  then have "p' = pool_of r' (pending_transactions ?p1)"
    using run(1) by (simp add: on_mined_block_def prune_markers_def split_def Let_def)
  then have "refs_of (ready_tx (ready_transactions p')) \<subseteq>\<^sub>m refs_of (ready_tx (ready_transactions p))"
    using map_le_trans [OF refs inv(4)] by simp
  then show thesis by (rule that [OF run hashes])
qed

section \<open>A poll of the service\<close>

definition idle_service :: "PoolInner \<Rightarrow> 'b \<Rightarrow> ReadyTransactionMiner \<Rightarrow> 'b NodeService" where
  "idle_service p b m = \<lparr>ns_pool = p, ns_block_producer = producer_new b, ns_miner = Auto m\<rparr>"

text \<open>The transactions that the automatic miner would put in the next block.\<close>

definition offered :: "ReadyTransactionMiner \<Rightarrow> PoolInner \<Rightarrow> PoolTransaction list" where
  "offered m p = iter_take (rm_max_transactions m) (get_transactions (ready_transactions p))"

definition miner_awake :: "ReadyTransactionMiner \<Rightarrow> bool" where
  "miner_awake m \<longleftrightarrow> rm_rx m \<noteq> [] \<or> rm_has_pending_txs m \<noteq> Some False"

lemma miner_poll_awake:
  assumes "miner_awake m"
  shows "ready_miner_poll p m =
    (if offered m p = [] then None else Some (offered m p),
     m\<lparr>rm_rx := [], rm_has_pending_txs := Some (rm_max_transactions m \<le> length (offered m p))\<rparr>)"
  using assms by (cases m) (auto simp: ready_miner_poll_def miner_awake_def offered_def Let_def)

lemma miner_poll_asleep: "\<not> miner_awake m \<Longrightarrow> ready_miner_poll p m = (None, m)"
  by (simp add: ready_miner_poll_def miner_awake_def)

lemma service_returns:
  assumes "miner_awake m \<Longrightarrow> offered m p = []"
  shows "\<exists>m'. service_poll hs mine ready tick k (idle_service p b m) = Some (idle_service p b m') \<and>
    (0 < rm_max_transactions m \<longrightarrow> \<not> miner_awake m')"
proof (cases "miner_awake m")
  case True
  with assms show ?thesis
    by (subst service_poll.simps)
      (auto simp: idle_service_def producer_new_def producer_poll_next_def producer_start_def miner_poll_awake miner_awake_def)
next
  case False
  then show ?thesis
    by (subst service_poll.simps)
      (auto simp: idle_service_def producer_new_def producer_poll_next_def producer_start_def miner_poll_asleep)
qed

lemma service_round:
  assumes "miner_awake m" "offered m p \<noteq> []" "mine (offered m p) b = Some (out, b')"
    "on_mined_block hs (mo_included out) (mo_invalid out) p = Some (res, p')" "ready (Suc k)"
  shows "service_poll hs mine ready tick k (idle_service p b m) =
    service_poll hs mine ready tick (Suc (Suc k)) (idle_service p' b'
      (m\<lparr>rm_rx := [], rm_has_pending_txs := Some (rm_max_transactions m \<le> length (offered m p))\<rparr>))"
proof -
  have "service_poll hs mine ready tick k (idle_service p b m) =
    service_poll hs mine ready tick (Suc k) ((idle_service p b
      (m\<lparr>rm_rx := [], rm_has_pending_txs := Some (rm_max_transactions m \<le> length (offered m p))\<rparr>))
      \<lparr>ns_block_producer := (producer_new b)\<lparr>bp_queued := [offered m p]\<rparr>\<rparr>)"
    using assms(1,2)
    by (subst service_poll.simps)
      (simp add: idle_service_def producer_new_def producer_poll_next_def producer_start_def miner_poll_awake)
  also have "\<dots> = service_poll hs mine ready tick (Suc (Suc k)) (idle_service p' b'
      (m\<lparr>rm_rx := [], rm_has_pending_txs := Some (rm_max_transactions m \<le> length (offered m p))\<rparr>))"
    using assms(3-5)
    by (subst service_poll.simps)
      (simp add: idle_service_def producer_new_def producer_poll_next_def producer_start_def)
  finally show ?thesis .
qed

text \<open>
  The service mines until the miner has nothing left to offer.  \<open>T\<close> are the transactions of the pool, and a
  backend of \<open>B n\<close> can mine \<open>n\<close> more blocks of them, each transaction being included or found invalid.
\<close>

definition can_mine ::
  "(PoolTransaction list \<Rightarrow> 'b \<Rightarrow> (MinedBlockOutcome \<times> 'b) option) \<Rightarrow> nat \<Rightarrow> PoolTransaction set \<Rightarrow> (nat \<Rightarrow> 'b set) \<Rightarrow> bool" where
  "can_mine mine max_transactions T B \<longleftrightarrow>
     (\<forall>n b txs. b \<in> B (Suc n) \<longrightarrow> txs \<noteq> [] \<longrightarrow> length txs \<le> max_transactions \<longrightarrow> set txs \<subseteq> T \<longrightarrow>
       (\<exists>out b'. mine txs b = Some (out, b') \<and> b' \<in> B n \<and> set (mo_included out) \<union> set (mo_invalid out) = set txs))"

definition ready_set :: "PoolInner \<Rightarrow> PoolTransaction set" where
  "ready_set p = {rf_transaction x |h x. refs_of (ready_tx (ready_transactions p)) h = Some x}"

lemma length_iter_take: "length (iter_take n it) \<le> n"
  by (induction n arbitrary: it) (auto split: option.split)

lemma offered_ready:
  assumes wf: "wf_pool p" and tx: "tx \<in> set (offered m p)"
  shows "tx \<in> ready_set p \<and> (\<exists>t. ready_get (pt_hash tx) (ready_transactions p) = Some t \<and> rf_transaction (rt_transaction t) = tx)"
proof -
  obtain x where "stored (ready_tx (ready_transactions p)) x" "rf_transaction x = tx"
    using iter_take_sound [OF iter_ok_get_transactions [OF wf_poolD(2) [OF wf]] tx [unfolded offered_def]]
    by (auto simp: get_transactions_def)
  then show ?thesis by (auto simp: stored_def ready_set_def refs_of_def ready_get_def)
qed

lemma one_block:
  assumes hs: "hasher_ok hs" and wf: "wf_pool p" and T: "ready_set p \<subseteq> T" "\<forall>tx \<in> T. pt_provides tx \<noteq> []"
    and mine: "can_mine mine (rm_max_transactions m) T B" and b: "b \<in> B (Suc n)" and some: "offered m p \<noteq> []"
  obtains out b' res p' where "mine (offered m p) b = Some (out, b')" "b' \<in> B n"
    "on_mined_block hs (mo_included out) (mo_invalid out) p = Some (res, p')" "wf_pool p'" "ready_set p' \<subseteq> T"
    "pool_hashes p' \<subseteq> pool_hashes p - pt_hash ` set (offered m p)"
    "dom (refs_of (ready_tx (ready_transactions p'))) \<subset> dom (refs_of (ready_tx (ready_transactions p)))"
proof -
  have sub: "set (offered m p) \<subseteq> T" using offered_ready [OF wf] T(1) by blast
  have "length (offered m p) \<le> rm_max_transactions m" by (simp add: offered_def length_iter_take)
  then obtain out b' where out: "mine (offered m p) b = Some (out, b')" "b' \<in> B n"
    "set (mo_included out) \<union> set (mo_invalid out) = set (offered m p)"
    using mine [unfolded can_mine_def, rule_format, OF b some _ sub] by blast
  have "pt_provides tx \<noteq> [] \<and>
      (\<exists>t. ready_get (pt_hash tx) (ready_transactions p) = Some t \<and> rf_transaction (rt_transaction t) = tx)"
    if "tx \<in> set (mo_included out)" for tx
    using that out(3) sub T(2) offered_ready [OF wf] by blast
  then obtain res p' where p': "on_mined_block hs (mo_included out) (mo_invalid out) p = Some (res, p')" "wf_pool p'"
    "pool_hashes p' \<subseteq> pool_hashes p - pt_hash ` (set (mo_included out) \<union> set (mo_invalid out))"
    "refs_of (ready_tx (ready_transactions p')) \<subseteq>\<^sub>m refs_of (ready_tx (ready_transactions p))"
    using on_mined_block_shrinks [OF hs wf, of "mo_included out" "mo_invalid out"] by blast
  have "ready_set p' \<subseteq> T" using T(1) map_le_SomeD [OF p'(4)] by (fastforce simp: ready_set_def)
  obtain tx where tx: "tx \<in> set (offered m p)" using some by (cases "offered m p") auto
  then have "pt_hash tx \<in> dom (refs_of (ready_tx (ready_transactions p)))"
    using offered_ready [OF wf tx] by (auto simp: refs_of_def ready_get_def)
  moreover have "pt_hash tx \<notin> dom (refs_of (ready_tx (ready_transactions p')))"
  proof -
    have "pt_hash tx \<notin> pool_hashes p'" using p'(3) tx out(3) by blast
    then have "\<not> ready_contains (pt_hash tx) (ready_transactions p')" by (simp add: pool_hashes_def ready_hashes_def)
    then show ?thesis by (simp add: ready_contains_refs domIff)
  qed
  ultimately have "dom (refs_of (ready_tx (ready_transactions p'))) \<subset> dom (refs_of (ready_tx (ready_transactions p)))"
    using map_le_implies_dom_le [OF p'(4)] by blast
  then show thesis using that [OF out(1,2) p'(1,2) \<open>ready_set p' \<subseteq> T\<close>] p'(3) out(3) by simp
qed

lemma finite_refs: "finite (dom (refs_of ready))"
  by (rule finite_subset [of _ "fmdom' ready"]) (auto simp: refs_of_def fmlookup_dom'_iff)

lemma service_drains:
  assumes hs: "hasher_ok hs" and pos: "0 < max_transactions" and T: "\<forall>tx \<in> T. pt_provides tx \<noteq> []"
    and mine: "can_mine mine max_transactions T B"
  shows "wf_pool p \<Longrightarrow> ready_set p \<subseteq> T \<Longrightarrow> card (dom (refs_of (ready_tx (ready_transactions p)))) \<le> n \<Longrightarrow> b \<in> B n \<Longrightarrow>
    rm_max_transactions m = max_transactions \<Longrightarrow>
    \<exists>p' b' m'. service_poll hs mine (\<lambda>_. True) tick k (idle_service p b m) = Some (idle_service p' b' m') \<and>
      \<not> miner_awake m' \<and> pool_hashes p' \<subseteq> pool_hashes p \<and>
      (miner_awake m \<longrightarrow> pool_hashes p' \<inter> pt_hash ` set (offered m p) = {})"
proof (induction n arbitrary: p b m k rule: less_induct)
  case (less n)
  show ?case
  proof (cases "miner_awake m \<and> offered m p \<noteq> []")
    case False
    then obtain m' where "service_poll hs mine (\<lambda>_. True) tick k (idle_service p b m) = Some (idle_service p b m')"
      "\<not> miner_awake m'"
      using service_returns [of m p hs mine "\<lambda>_. True" tick k b] pos less.prems(5) by auto
    then show ?thesis using False by (intro exI conjI) auto
  next
    case True
    let ?d = "\<lambda>p. card (dom (refs_of (ready_tx (ready_transactions p))))"
    obtain tx where "tx \<in> set (offered m p)" using True by (cases "offered m p") auto
    then have "dom (refs_of (ready_tx (ready_transactions p))) \<noteq> {}"
      using offered_ready [OF less.prems(1)] by (auto simp: ready_set_def)
    then have "0 < ?d p" by (simp add: card_gt_0_iff finite_refs)
    then obtain n' where n: "n = Suc n'" using less.prems(3) by (cases n) auto
    obtain out b' res p' where *: "mine (offered m p) b = Some (out, b')" "b' \<in> B n'"
      "on_mined_block hs (mo_included out) (mo_invalid out) p = Some (res, p')" "wf_pool p'" "ready_set p' \<subseteq> T"
      "pool_hashes p' \<subseteq> pool_hashes p - pt_hash ` set (offered m p)"
      "dom (refs_of (ready_tx (ready_transactions p'))) \<subset> dom (refs_of (ready_tx (ready_transactions p)))"
      using one_block [OF hs less.prems(1,2) T mine [folded less.prems(5)]] less.prems(4) True unfolding n by metis
    let ?m = "m\<lparr>rm_rx := [], rm_has_pending_txs := Some (rm_max_transactions m \<le> length (offered m p))\<rparr>"
    have "?d p' \<le> n'" using psubset_card_mono [OF finite_refs *(7)] less.prems(3) n by simp
    then obtain p'' b'' m'' where IH:
      "service_poll hs mine (\<lambda>_. True) tick (Suc (Suc k)) (idle_service p' b' ?m) = Some (idle_service p'' b'' m'')"
      "\<not> miner_awake m''" "pool_hashes p'' \<subseteq> pool_hashes p'"
      using less.IH [of n' p' b' ?m "Suc (Suc k)"] n * less.prems(5) by auto
    have "service_poll hs mine (\<lambda>_. True) tick k (idle_service p b m) = Some (idle_service p'' b'' m'')"
      using service_round [of m p mine b out b' hs res p' "\<lambda>_. True" k tick] True * IH(1) by simp
    then show ?thesis using IH(2,3) *(6) by (intro exI conjI) auto
  qed
qed

text \<open>A miner that finds as many transactions as fit in a block never lets the service return while a block is mined.\<close>

definition busy_service :: "PoolInner \<Rightarrow> PoolTransaction list \<Rightarrow> 'b \<Rightarrow> PoolTransaction list list \<Rightarrow> ReadyTransactionMiner \<Rightarrow> 'b NodeService" where
  "busy_service p txs b queued m =
     \<lparr>ns_pool = p, ns_block_producer = \<lparr>bp_idle_backend = None, bp_block_mining = Some (txs, b), bp_queued = queued\<rparr>,
      ns_miner = Auto m\<rparr>"

lemma busy_turn:
  assumes "miner_awake m" "offered m p \<noteq> []" "\<not> ready k"
  shows "service_poll hs mine ready tick k (busy_service p txs b queued m) =
    service_poll hs mine ready tick (Suc k) (busy_service p txs b (queued @ [offered m p])
      (m\<lparr>rm_rx := [], rm_has_pending_txs := Some (rm_max_transactions m \<le> length (offered m p))\<rparr>))"
  using assms
  by (subst service_poll.simps)
    (simp add: busy_service_def producer_poll_next_def producer_start_def miner_poll_awake split: list.split)

definition spinning :: "'b NodeService \<Rightarrow> bool" where
  "spinning s \<longleftrightarrow> (\<exists>p txs b queued m. s = busy_service p txs b queued m \<and> miner_awake m \<and>
     0 < rm_max_transactions m \<and> length (offered m p) = rm_max_transactions m)"

lemma spinning_turn:
  assumes "spinning s"
  obtains bp pool txs miner where "producer_poll_next mine False (ns_block_producer s) = Some (None, bp)"
    "mode_poll t (ns_pool s) (ns_miner s) = Some (Some txs, miner)"
    "spinning (s\<lparr>ns_block_producer := bp\<lparr>bp_queued := bp_queued bp @ [txs]\<rparr>, ns_miner := miner\<rparr>)"
proof -
  obtain p txs b queued m where s: "s = busy_service p txs b queued m" and m: "miner_awake m"
    "0 < rm_max_transactions m" "length (offered m p) = rm_max_transactions m"
    using assms unfolding spinning_def by (elim exE conjE)
  let ?m = "m\<lparr>rm_rx := [], rm_has_pending_txs := Some True\<rparr>"
  have some: "offered m p \<noteq> []" using m(2,3) by auto
  have "producer_poll_next mine False (ns_block_producer s) = Some (None, ns_block_producer s)"
    by (simp add: s busy_service_def producer_poll_next_def producer_start_def split: list.split)
  moreover have "mode_poll t (ns_pool s) (ns_miner s) = Some (Some (offered m p), Auto ?m)"
    using m some by (simp add: s busy_service_def miner_poll_awake)
  moreover have "s\<lparr>ns_block_producer := (ns_block_producer s)\<lparr>bp_queued := bp_queued (ns_block_producer s) @ [offered m p]\<rparr>,
      ns_miner := Auto ?m\<rparr> = busy_service p txs b (queued @ [offered m p]) ?m"
    by (simp add: s busy_service_def)
  moreover have "spinning (busy_service p txs b (queued @ [offered m p]) ?m)"
    unfolding spinning_def
    by (rule exI [of _ p], rule exI [of _ txs], rule exI [of _ b], rule exI [of _ "queued @ [offered m p]"], rule exI [of _ ?m])
      (use m in \<open>simp add: miner_awake_def offered_def\<close>)
  ultimately show thesis using that by simp
qed

lemma spinning_never_returns:
  assumes "service_poll hs mine ready tick k s = Some s'"
  shows "ready = (\<lambda>_. False) \<longrightarrow> \<not> spinning s"
proof (rule service_poll.raw_induct [where P = "\<lambda>hs mine ready tick k s s'. ready = (\<lambda>_. False) \<longrightarrow> \<not> spinning s", OF _ assms], goal_cases)
  case (1 rec hs mine ready tick k s s')
  show ?case
  proof (intro impI notI)
    assume "ready = (\<lambda>_. False)" "spinning s"
    then show False using 1 by (elim spinning_turn [of s mine "tick k"]) auto
  qed
qed

section \<open>Properties\<close>

lemma notify_awake:
  assumes room: "channel_ok room"
  shows "\<exists>m'. fold (notify_listener room) hashes (Auto m) = Auto m' \<and>
    rm_max_transactions m' = rm_max_transactions m \<and> (hashes \<noteq> [] \<or> rm_rx m \<noteq> [] \<longrightarrow> rm_rx m' \<noteq> [])"
proof (induction hashes arbitrary: m)
  case (Cons h hashes)
  let ?m = "if room (length (rm_rx m)) then m\<lparr>rm_rx := rm_rx m @ [h]\<rparr> else m"
  have "room 0" using room by (simp add: channel_ok_def TX_LISTENER_BUFFER_SIZE_def)
  then have "rm_rx ?m \<noteq> []" by auto
  moreover have "rm_max_transactions ?m = rm_max_transactions m" by simp
  ultimately show ?case using Cons.IH [of ?m] by auto
qed simp

lemma service_add_ready:
  assumes "channel_ok room" "service_add room hs t tx (idle_service p b m) = Some (Ok (AddedReady rep), s1)"
  obtains p1 m1 where "s1 = idle_service p1 b m1" "pool_add hs t tx p = Some (Ok (AddedReady rep), p1)"
    "miner_awake m1" "rm_max_transactions m1 = rm_max_transactions m"
proof -
  obtain p1 where add: "pool_add hs t tx p = Some (Ok (AddedReady rep), p1)"
    and s1: "s1 = (idle_service p b m)\<lparr>ns_pool := p1, ns_miner := fold (notify_listener room) (rr_hash rep # rr_promoted rep) (Auto m)\<rparr>"
    using assms(2) by (auto simp: service_add_def add_transaction_def idle_service_def split: option.splits prod.splits)
  obtain m1 where m1: "fold (notify_listener room) (rr_hash rep # rr_promoted rep) (Auto m) = Auto m1"
    "rm_max_transactions m1 = rm_max_transactions m" "rm_rx m1 \<noteq> []"
    using notify_awake [OF assms(1), of "rr_hash rep # rr_promoted rep" m] by (elim exE conjE) simp
  show thesis
    by (rule that [of p1 m1]) (simp_all only: s1 add m1, simp_all add: idle_service_def miner_awake_def m1)
qed


text \<open>An idle service with an empty pool, and a transfer that is sent to it.\<close>

definition ex_miner :: ReadyTransactionMiner where
  "ex_miner = \<lparr>rm_max_transactions = 1, rm_has_pending_txs = Some False, rm_rx = []\<rparr>"

definition ex_room :: "nat \<Rightarrow> bool" where "ex_room n \<longleftrightarrow> n < 2049"

lemma ex_room_ok: "channel_ok ex_room"
  by (simp add: channel_ok_def ex_room_def TX_LISTENER_BUFFER_SIZE_def)

definition ex_one :: PoolInner where
  "ex_one = snd (the (pool_add ex_hasher 0 ex_mtx pool_empty))"

lemma ex_mtx_markers: "pt_requires ex_mtx = []" "pt_provides ex_mtx = [to_marker 0 3]"
  by (simp_all add: ex_mtx_def ex_transfer_def)

lemma ex_add: "\<exists>rep. pool_add ex_hasher 0 ex_mtx pool_empty = Some (Ok (AddedReady rep), ex_one)"
  unfolding ex_one_def by (simp add: pool_eval ex_mtx_markers)

lemma ex_one_ready: "ready_set ex_one = {ex_mtx}" "ready_hashes (ready_transactions ex_one) = {pt_hash ex_mtx}"
  "offered ex_miner ex_one = [ex_mtx]"
  unfolding ex_one_def
  by (auto simp: pool_eval ex_mtx_markers ready_set_def refs_of_def ready_hashes_def offered_def ex_miner_def
      get_transactions_def iter_next.simps split: if_splits)

definition ex_backends :: "nat \<Rightarrow> (nat, nat, nat, unit) Backend set" where
  "ex_backends n = (if n = 0 then UNIV else if n = 1 then {ex_backend} else {})"

lemma ex_can_mine: "can_mine (do_mine_block ex_mlib 10) 1 {ex_mtx} ex_backends"
  unfolding can_mine_def
proof (intro allI impI)
  fix n b txs assume *: "b \<in> ex_backends (Suc n)" "txs \<noteq> []" "length txs \<le> 1" "set txs \<subseteq> {ex_mtx}"
  have b: "n = 0" "b = ex_backend" using *(1) by (auto simp: ex_backends_def split: if_splits)
  have txs: "txs = [ex_mtx]" using *(2-4) by (cases txs) auto
  obtain out b' where "do_mine_block ex_mlib 10 [ex_mtx] ex_backend = Some (out, b')" "mo_included out = [ex_mtx]"
    "mo_invalid out = []"
    using ex_mine [where d = "bk_db ex_backend" and m = "bk_active_snapshots ex_backend"] by auto
  then show "\<exists>out b'. do_mine_block ex_mlib 10 txs b = Some (out, b') \<and> b' \<in> ex_backends n \<and>
      set (mo_included out) \<union> set (mo_invalid out) = set txs"
    unfolding b txs by (intro exI [of _ out] exI [of _ b'] conjI) (simp_all add: ex_backends_def)
qed




end
