(* ===== verification/Api.thy ===== *)
theory Api
  imports Service Cheats
begin

text \<open>
  How a transaction gets from a request of a client to the pool: \<open>eth_sendTransaction\<close> and
  \<open>eth_sendRawTransaction\<close> of \<open>anvil/src/eth/api.rs\<close>, the development signer of \<open>anvil/src/eth/sign.rs\<close>, and
  what they read of the backend (\<open>anvil/src/eth/backend/mem/mod.rs\<close>): blocks, the state of a block, nonces.  Without
  a fork.

  \<open>EthApi\<close> is the state that the handlers share with the service of the node: the backend with its cheats, the pool
  and the miner.  A wallet is a value of a type variable; \<open>al_sign\<close> signs a request with it.  \<open>None\<close> is a call that
  panics or does not return.
\<close>

section \<open>Outcomes\<close>

text \<open>\<open>map_err\<close>, and the operator \<open>?\<close> in a function that may panic.\<close>

fun map_err :: "('e \<Rightarrow> 'f) \<Rightarrow> ('a, 'e) result \<Rightarrow> ('a, 'f) result" where
  "map_err f (Ok x) = Ok x"
| "map_err f (Err e) = Err (f e)"

fun try_ok :: "('a, 'e) result \<Rightarrow> ('a \<Rightarrow> ('b, 'e) result option) \<Rightarrow> ('b, 'e) result option" where
  "try_ok (Ok x) f = f x"
| "try_ok (Err e) f = Some (Err e)"

lemma try_ok_Ok: "try_ok r f = Some (Ok y) \<longleftrightarrow> (\<exists>x. r = Ok x \<and> f x = Some (Ok y))"
  by (cases r) auto

section \<open>Signers\<close>

record 'w DevSigner =
  ds_addresses :: "Address list"
  ds_accounts :: "(Address, 'w) fmap"

definition signer_new :: "('w \<Rightarrow> Address) \<Rightarrow> 'w list \<Rightarrow> 'w DevSigner" where
  "signer_new address accounts =
     \<lparr>ds_addresses = map address accounts,
      ds_accounts = foldl (\<lambda>m w. fmupd (address w) w m) fmempty accounts\<rparr>"

definition signer_accounts :: "'w DevSigner \<Rightarrow> Address list" where
  "signer_accounts s = ds_addresses s"

definition is_signer_for :: "Address \<Rightarrow> 'w DevSigner \<Rightarrow> bool" where
  "is_signer_for addr s \<longleftrightarrow> addr |\<in>| fmdom (ds_accounts s)"

definition sign_transaction ::
  "('w \<Rightarrow> TypedTransactionRequest \<Rightarrow> Signature option) \<Rightarrow> TypedTransactionRequest \<Rightarrow> Address \<Rightarrow> 'w DevSigner \<Rightarrow>
    (Signature, 'e BlockchainError) result" where
  "sign_transaction sign request address s =
     (case fmlookup (ds_accounts s) address of
        None \<Rightarrow> Err BeNoSignerAvailable
      | Some signer \<Rightarrow> (case sign signer request of Some sig \<Rightarrow> Ok sig | None \<Rightarrow> Err BeWalletError))"

section \<open>The state of the handlers\<close>

record ('d, 'e, 'st, 'sn, 's, 't, 'w) api_lib =
  al_mine :: "('d, 'e, 'st, 'sn, 's, 't) mine_lib"
  al_state_basic :: "'st \<Rightarrow> Address \<Rightarrow> (AccountInfo option, 'e) result"
  al_recovery_id :: "Signature \<Rightarrow> u8 option"
  al_sign :: "'w \<Rightarrow> TypedTransactionRequest \<Rightarrow> Signature option"
  al_hasher :: hasher
  al_room :: "nat \<Rightarrow> bool"

abbreviation al_exec :: "('d, 'e, 'st, 'sn, 's, 't, 'w) api_lib \<Rightarrow> ('d, 'e, 's, 't) exec_lib" where
  "al_exec lib \<equiv> ml_exec (al_mine lib)"

abbreviation al_node :: "('d, 'e, 'st, 'sn, 's, 't, 'w) api_lib \<Rightarrow> ('d, 'e, Log, 's, 't) node_lib" where
  "al_node lib \<equiv> xl_node (al_exec lib)"

abbreviation al_forks :: "('d, 'e, 'st, 'sn, 's, 't, 'w) api_lib \<Rightarrow> hardforks" where
  "al_forks lib \<equiv> nl_forks (al_node lib)"

record ('d, 'st, 'sn, 't, 'w) EthApi =
  ea_pool :: PoolInner
  ea_miner :: MiningMode
  ea_backend :: "('d, 'st, 'sn, 't) Backend"
  ea_cheats :: CheatsState
  ea_signers :: "'w DevSigner list"
  ea_transaction_order :: TransactionOrder

section \<open>Reading the backend\<close>

definition get_account ::
  "('d, 'e, 'st, 'sn, 's, 't, 'w) api_lib \<Rightarrow> Address \<Rightarrow> ('d, 'st, 'sn, 't) Backend \<Rightarrow> (AccountInfo, 'e) result" where
  "get_account lib address b =
     map_ok (\<lambda>a. unwrap_or a (account_default (nl_keccak_empty (al_node lib)))) (nl_basic (al_node lib) (bk_db b) address)"

definition current_balance ::
  "('d, 'e, 'st, 'sn, 's, 't, 'w) api_lib \<Rightarrow> Address \<Rightarrow> ('d, 'st, 'sn, 't) Backend \<Rightarrow> (U256, 'e) result" where
  "current_balance lib address b = map_ok ac_balance (get_account lib address b)"

definition current_nonce ::
  "('d, 'e, 'st, 'sn, 's, 't, 'w) api_lib \<Rightarrow> Address \<Rightarrow> ('d, 'st, 'sn, 't) Backend \<Rightarrow> (U256, 'e) result" where
  "current_nonce lib address b = map_ok (\<lambda>a. ucast (ac_nonce a)) (get_account lib address b)"

definition get_block :: "BlockId \<Rightarrow> 't BlockchainStorage \<Rightarrow> Block option" where
  "get_block block_id s =
     (case (case block_id of
              IdHash hash \<Rightarrow> Some hash
            | IdNumber Latest \<Rightarrow> Some (st_best_hash s)
            | IdNumber Earliest \<Rightarrow> Some (st_genesis_hash s)
            | IdNumber PendingBlock \<Rightarrow> None
            | IdNumber (Number num) \<Rightarrow> fmlookup (st_hashes s) num
            | IdNumber Safe \<Rightarrow>
                if 32 < st_best_number s then fmlookup (st_hashes s) (st_best_number s - 32) else Some (st_genesis_hash s)
            | IdNumber Finalized \<Rightarrow>
                if 64 < st_best_number s then fmlookup (st_hashes s) (st_best_number s - 64) else Some (st_genesis_hash s)) of
        None \<Rightarrow> None
      | Some hash \<Rightarrow> get_block_by_hash hash s)"

datatype BlockRequest = PendingRequest "PoolTransaction list" | NumberRequest u64

fun request_block_number :: "BlockRequest \<Rightarrow> BlockNumber" where
  "request_block_number (PendingRequest _) = PendingBlock"
| "request_block_number (NumberRequest n) = Number n"

text \<open>
  \<open>with_pending_block\<close> executes the transactions on a cache over the database: the database that the executor returns
  is handed to \<open>f\<close> and then forgotten.
\<close>

definition with_pending_block ::
  "('d, 'e, 'st, 'sn, 's, 't, 'w) api_lib \<Rightarrow> u64 \<Rightarrow> PoolTransaction list \<Rightarrow> ('d \<Rightarrow> 't BlockInfo \<Rightarrow> 'a) \<Rightarrow>
    ('d, 'st, 'sn, 't) Backend \<Rightarrow> 'a option" where
  "with_pending_block lib now pool_transactions f b = do {
     env \<leftarrow> next_env (al_forks lib) (bk_fees b) now (bk_time b) (bk_env b);
     (executed, cache_db) \<leftarrow> execute (al_exec lib) (ce_chain_id (ev_cfg (bk_env b)))
       \<lparr>te_db = bk_db b, te_pending = pool_transactions, te_block_env = ev_block env, te_cfg_env = ev_cfg env,
        te_parent_hash = st_best_hash (bk_storage b), te_gas_used = 0,
        te_enable_steps_tracing = bk_enable_steps_tracing b\<rparr>;
     Some (f cache_db (ets_block executed))
   }"

definition header_block_env :: "Header \<Rightarrow> BlockEnv" where
  "header_block_env h =
     \<lparr>be_number = hd_number h, be_coinbase = hd_beneficiary h, be_timestamp = ucast (hd_timestamp h),
      be_difficulty = hd_difficulty h, be_prevrandao = Some (hd_mix_hash h),
      be_basefee = unwrap_or (hd_base_fee_per_gas h) 0, be_gas_limit = hd_gas_limit h\<rparr>"

text \<open>
  The database at a block is the current one (\<open>Inl\<close>) or a state of the history (\<open>Inr\<close>).  Reading the history may load a
  state from disk, so the backend is returned.
\<close>

definition with_database_at ::
  "('d, 'e, 'st, 'sn, 's, 't, 'w) api_lib \<Rightarrow> u64 \<Rightarrow> BlockRequest option \<Rightarrow> ('d + 'st \<Rightarrow> BlockEnv \<Rightarrow> 'a) \<Rightarrow>
    ('d, 'st, 'sn, 't) Backend \<Rightarrow> (('a, 'e BlockchainError) result \<times> ('d, 'st, 'sn, 't) Backend) option" where
  "with_database_at lib now block_request f b =
     (case block_request of
        Some (PendingRequest pool_transactions) \<Rightarrow> do {
          result \<leftarrow> with_pending_block lib now pool_transactions
            (\<lambda>state block. f (Inl state) (header_block_env (bl_header (bi_block block)))) b;
          Some (Ok result, b)
        }
      | _ \<Rightarrow>
         (let block_number = convert_block_number (best_number b) (map_option request_block_number block_request);
              current = be_number (ev_block (bk_env b));
              out_of_range = (\<lambda>b. do { n \<leftarrow> as_u64 current; Some (Err (BeBlockOutOfRange n block_number), b) })
          in if (ucast block_number :: U256) < current then
               (case get_block (IdNumber (Number block_number)) (bk_storage b) of
                  None \<Rightarrow> out_of_range b
                | Some block \<Rightarrow>
                   (case bs_get (ml_states (al_mine lib)) (header_hash (xl_crypto (al_exec lib)) (xl_rlp (al_exec lib)) (bl_header block))
                          (bk_states b) of
                      (Some state, states) \<Rightarrow>
                        Some (Ok (f (Inr state) (header_block_env (bl_header block))), b\<lparr>bk_states := states\<rparr>)
                    | (None, states) \<Rightarrow> out_of_range (b\<lparr>bk_states := states\<rparr>)))
             else Some (Ok (f (Inl (bk_db b)) (ev_block (bk_env b))), b)))"

definition view_account ::
  "('d, 'e, 'st, 'sn, 's, 't, 'w) api_lib \<Rightarrow> 'd + 'st \<Rightarrow> Address \<Rightarrow> (AccountInfo, 'e BlockchainError) result" where
  "view_account lib db address =
     map_ok (\<lambda>a. unwrap_or a (account_default (nl_keccak_empty (al_node lib))))
       (map_err BeDatabaseError (case db of Inl d \<Rightarrow> nl_basic (al_node lib) d address | Inr st \<Rightarrow> al_state_basic lib st address))"

definition get_balance ::
  "('d, 'e, 'st, 'sn, 's, 't, 'w) api_lib \<Rightarrow> u64 \<Rightarrow> Address \<Rightarrow> BlockRequest option \<Rightarrow> ('d, 'st, 'sn, 't) Backend \<Rightarrow>
    ((U256, 'e BlockchainError) result \<times> ('d, 'st, 'sn, 't) Backend) option" where
  "get_balance lib now address block_request b = do {
     (r, b') \<leftarrow> with_database_at lib now block_request (\<lambda>db _. map_ok ac_balance (view_account lib db address)) b;
     Some (and_then r (\<lambda>x. x), b')
   }"

definition backend_get_nonce ::
  "('d, 'e, 'st, 'sn, 's, 't, 'w) api_lib \<Rightarrow> u64 \<Rightarrow> Address \<Rightarrow> BlockRequest option \<Rightarrow> ('d, 'st, 'sn, 't) Backend \<Rightarrow>
    ((U256, 'e BlockchainError) result \<times> ('d, 'st, 'sn, 't) Backend) option" where
  "backend_get_nonce lib now address block_request b =
     (case (case block_request of
              Some (PendingRequest pool_transactions) \<Rightarrow> get_pool_transactions_nonce pool_transactions address
            | _ \<Rightarrow> None) of
        Some value \<Rightarrow> Some (Ok value, b)
      | None \<Rightarrow>
         (let final_block_request = (case block_request of
                Some (PendingRequest _) \<Rightarrow> Some (NumberRequest (best_number b))
              | _ \<Rightarrow> block_request)
          in do {
            (r, b') \<leftarrow> with_database_at lib now final_block_request
              (\<lambda>db _. map_ok (\<lambda>a. ucast (ac_nonce a)) (view_account lib db address)) b;
            Some (and_then r (\<lambda>x. x), b')
          }))"

definition validate_pool_transaction ::
  "('d, 'e, 'st, 'sn, 's, 't, 'w) api_lib \<Rightarrow> u64 \<Rightarrow> PendingTransaction \<Rightarrow> ('d, 'st, 'sn, 't) Backend \<Rightarrow>
    (unit, 'e BlockchainError) result option" where
  "validate_pool_transaction lib now tx b =
     try_ok (map_err BeDatabaseError (get_account lib (pd_sender tx) b)) (\<lambda>account. do {
       env \<leftarrow> next_env (al_forks lib) (bk_fees b) now (bk_time b) (bk_env b);
       r \<leftarrow> validate_pool_transaction_for (al_forks lib) (ce_chain_id (ev_cfg (bk_env b))) tx account env;
       Some (map_err BeInvalidTransaction r)
     })"

section \<open>Preparing a transaction\<close>

definition accounts :: "'w DevSigner list \<Rightarrow> Address list" where
  "accounts signers = concat (map signer_accounts signers)"

definition recovery_id :: "('d, 'e, 'st, 'sn, 's, 't, 'w) api_lib \<Rightarrow> Signature \<Rightarrow> (u8, 'e BlockchainError) result" where
  "recovery_id lib sig = (case al_recovery_id lib sig of Some v \<Rightarrow> Ok v | None \<Rightarrow> Err BeSignatureError)"

fun sign_request ::
  "('d, 'e, 'st, 'sn, 's, 't, 'w) api_lib \<Rightarrow> Address \<Rightarrow> TypedTransactionRequest \<Rightarrow> 'w DevSigner list \<Rightarrow>
    (TypedTransaction, 'e BlockchainError) result" where
  "sign_request lib from request [] = Err BeNoSignerAvailable"
| "sign_request lib from request (signer # signers) =
     (if from \<in> set (signer_accounts signer)
      then and_then (sign_transaction (al_sign lib) request from signer) (build_typed_transaction (recovery_id lib) request)
      else sign_request lib from request signers)"

definition block_request ::
  "BlockId option \<Rightarrow> PoolInner \<Rightarrow> ('d, 'st, 'sn, 't) Backend \<Rightarrow> (BlockRequest, 'e BlockchainError) result option" where
  "block_request block_number pool b =
     (if block_number = Some (IdNumber PendingBlock) then do {
        pending_txs \<leftarrow> iter_collect (get_transactions (ready_transactions pool));
        Some (Ok (PendingRequest pending_txs))
      }
      else do {
        number \<leftarrow> ensure_block_number (best_number b) (bk_storage b) block_number;
        Some (map_ok NumberRequest number)
      })"

definition get_transaction_count ::
  "('d, 'e, 'st, 'sn, 's, 't, 'w) api_lib \<Rightarrow> u64 \<Rightarrow> Address \<Rightarrow> BlockId option \<Rightarrow> PoolInner \<Rightarrow> ('d, 'st, 'sn, 't) Backend \<Rightarrow>
    ((U256, 'e BlockchainError) result \<times> ('d, 'st, 'sn, 't) Backend) option" where
  "get_transaction_count lib now address block_number pool b = do {
     request \<leftarrow> block_request block_number pool b;
     (case request of
        Err e \<Rightarrow> Some (Err e, b)
      | Ok br \<Rightarrow> backend_get_nonce lib now address (Some br) b)
   }"

definition request_nonce ::
  "('d, 'e, 'st, 'sn, 's, 't, 'w) api_lib \<Rightarrow> u64 \<Rightarrow> EthTransactionRequest \<Rightarrow> Address \<Rightarrow> PoolInner \<Rightarrow> ('d, 'st, 'sn, 't) Backend \<Rightarrow>
    ((U256 \<times> U256, 'e BlockchainError) result \<times> ('d, 'st, 'sn, 't) Backend) option" where
  "request_nonce lib now request from pool b = do {
     (highest, b') \<leftarrow> get_transaction_count lib now from (Some (IdNumber PendingBlock)) pool b;
     Some (map_ok (\<lambda>highest_nonce. (unwrap_or (er_nonce request) highest_nonce, highest_nonce)) highest, b')
   }"

text \<open>\<open>None\<close> is the panic of \<open>as_u64\<close> on the chain id of the node or on the type of the request.\<close>

definition build_typed_tx_request ::
  "hardforks \<Rightarrow> FeeManager \<Rightarrow> EvmEnv \<Rightarrow> EthTransactionRequest \<Rightarrow> U256 \<Rightarrow>
    (TypedTransactionRequest, 'e BlockchainError) result option" where
  "build_typed_tx_request hf fm env request nonce = do {
     chain_id \<leftarrow> (case er_chain_id request of Some c \<Rightarrow> Some c | None \<Rightarrow> as_u64 (ce_chain_id (ev_cfg env)));
     let gas_limit = unwrap_or (er_gas request) (be_gas_limit (ev_block env));
     typed \<leftarrow> into_typed_request request;
     Some (case typed of
         Some (ReqLegacy m) \<Rightarrow>
           Ok (ReqLegacy (m\<lparr>lr_nonce := nonce, lr_chain_id := Some chain_id, lr_gas_limit := gas_limit,
             lr_gas_price := (if er_gas_price request = None then gas_price_of (hf_london hf) fm else lr_gas_price m)\<rparr>))
       | Some (ReqEIP2930 m) \<Rightarrow>
           Ok (ReqEIP2930 (m\<lparr>ar_nonce := nonce, ar_chain_id := chain_id, ar_gas_limit := gas_limit,
             ar_gas_price := (if er_gas_price request = None then gas_price_of (hf_london hf) fm else ar_gas_price m)\<rparr>))
       | Some (ReqEIP1559 m) \<Rightarrow>
           Ok (ReqEIP1559 (m\<lparr>dr_nonce := nonce, dr_chain_id := chain_id, dr_gas_limit := gas_limit,
             dr_max_fee_per_gas := (if er_max_fee_per_gas request = None then gas_price_of (hf_london hf) fm
                                    else dr_max_fee_per_gas m)\<rparr>))
       | None \<Rightarrow> Err BeFailedToDecodeTransaction)
   }"

text \<open>The choice between the bypass signature of an impersonated sender and a signature of a wallet.\<close>

definition signed_transaction ::
  "('d, 'e, 'st, 'sn, 's, 't, 'w) api_lib \<Rightarrow> Address \<Rightarrow> TypedTransactionRequest \<Rightarrow> ('d, 'st, 'sn, 't, 'w) EthApi \<Rightarrow>
    (PendingTransaction, 'e BlockchainError) result" where
  "signed_transaction lib from request api =
     (let cr = xl_crypto (al_exec lib); rlp = xl_rlp (al_exec lib);
          supported = ensure_typed_transaction_supported (al_forks lib) (bk_env (ea_backend api))
      in if is_impersonated from (ea_cheats api) then
           and_then (build_typed_transaction (recovery_id lib) request (bypass_signature (ea_cheats api))) (\<lambda>transaction.
           and_then (supported transaction) (\<lambda>_. Ok (pd_with_impersonated cr rlp transaction from)))
         else
           and_then (sign_request lib from request (ea_signers api)) (\<lambda>transaction.
           and_then (supported transaction) (\<lambda>_. map_err (\<lambda>_. BeSignatureError) (pd_new cr rlp transaction))))"

text \<open>From the request to the validated transaction.\<close>

definition prepared_transaction ::
  "('d, 'e, 'st, 'sn, 's, 't, 'w) api_lib \<Rightarrow> u64 \<Rightarrow> Address \<Rightarrow> U256 \<Rightarrow> EthTransactionRequest \<Rightarrow> ('d, 'st, 'sn, 't, 'w) EthApi \<Rightarrow>
    (PendingTransaction, 'e BlockchainError) result option" where
  "prepared_transaction lib now from nonce request api = do {
     typed \<leftarrow> build_typed_tx_request (al_forks lib) (bk_fees (ea_backend api)) (bk_env (ea_backend api)) request nonce;
     try_ok (and_then typed (\<lambda>typed. signed_transaction lib from typed api)) (\<lambda>pending_transaction. do {
       valid \<leftarrow> validate_pool_transaction lib now pending_transaction (ea_backend api);
       Some (map_ok (\<lambda>_. pending_transaction) valid)
     })
   }"

section \<open>The handlers\<close>

text \<open>\<open>now\<close> is the wall clock that timestamps are computed from, \<open>instant\<close> the time at which the pool receives a transaction.\<close>

definition submit ::
  "('d, 'e, 'st, 'sn, 's, 't, 'w) api_lib \<Rightarrow> nat \<Rightarrow> PoolTransaction \<Rightarrow> ('d, 'st, 'sn, 't, 'w) EthApi \<Rightarrow>
    ((TxHash, 'e BlockchainError) result \<times> ('d, 'st, 'sn, 't, 'w) EthApi) option" where
  "submit lib instant tx api = do {
     (added, pool, miner) \<leftarrow> add_transaction (al_room lib) (al_hasher lib) instant tx (ea_pool api) (ea_miner api);
     Some (map_ok added_hash (map_err BePool added), api\<lparr>ea_pool := pool, ea_miner := miner\<rparr>)
   }"

definition add_pending_transaction ::
  "('d, 'e, 'st, 'sn, 's, 't, 'w) api_lib \<Rightarrow> nat \<Rightarrow> PendingTransaction \<Rightarrow> TxMarker list \<Rightarrow> TxMarker list \<Rightarrow>
    ('d, 'st, 'sn, 't, 'w) EthApi \<Rightarrow> ((TxHash, 'e BlockchainError) result \<times> ('d, 'st, 'sn, 't, 'w) EthApi) option" where
  "add_pending_transaction lib instant pending_transaction requires provides api =
     submit lib instant
       \<lparr>pt_pending_transaction = pending_transaction, pt_requires = requires, pt_provides = provides,
        pt_priority = tx_priority (ea_transaction_order api) (mi_transaction (pd_transaction pending_transaction))\<rparr> api"

text \<open>\<open>send_transaction\<close> from the point where sender and nonces are known.  Equal markers fail the debug assertion.\<close>

definition send_from ::
  "('d, 'e, 'st, 'sn, 's, 't, 'w) api_lib \<Rightarrow> u64 \<Rightarrow> nat \<Rightarrow> EthTransactionRequest \<Rightarrow> Address \<Rightarrow> U256 \<Rightarrow> U256 \<Rightarrow>
    ('d, 'st, 'sn, 't, 'w) EthApi \<Rightarrow> ((TxHash, 'e BlockchainError) result \<times> ('d, 'st, 'sn, 't, 'w) EthApi) option" where
  "send_from lib now instant request from nonce on_chain_nonce api = do {
     prepared \<leftarrow> prepared_transaction lib now from nonce request api;
     (case prepared of
        Err e \<Rightarrow> Some (Err e, api)
      | Ok pending_transaction \<Rightarrow> do {
          requires \<leftarrow> required_marker nonce on_chain_nonce from;
          n \<leftarrow> as_u64 nonce;
          if requires = [to_marker n from] then None
          else add_pending_transaction lib instant pending_transaction requires [to_marker n from] api
        })
   }"

definition send_transaction ::
  "('d, 'e, 'st, 'sn, 's, 't, 'w) api_lib \<Rightarrow> u64 \<Rightarrow> nat \<Rightarrow> EthTransactionRequest \<Rightarrow> ('d, 'st, 'sn, 't, 'w) EthApi \<Rightarrow>
    ((TxHash, 'e BlockchainError) result \<times> ('d, 'st, 'sn, 't, 'w) EthApi) option" where
  "send_transaction lib now instant request api =
     (case (case er_from request of Some from \<Rightarrow> Some from
            | None \<Rightarrow> (case accounts (ea_signers api) of from # _ \<Rightarrow> Some from | [] \<Rightarrow> None)) of
        None \<Rightarrow> Some (Err BeNoSignerAvailable, api)
      | Some from \<Rightarrow> do {
          (nonces, b) \<leftarrow> request_nonce lib now request from (ea_pool api) (ea_backend api);
          (case nonces of
             Err e \<Rightarrow> Some (Err e, api\<lparr>ea_backend := b\<rparr>)
           | Ok (nonce, on_chain_nonce) \<Rightarrow> send_from lib now instant request from nonce on_chain_nonce (api\<lparr>ea_backend := b\<rparr>))
        })"

text \<open>
  The transaction in the bytes of \<open>eth_sendRawTransaction\<close>.  A typed transaction is wrapped into a string of the RLP
  format, which the decoder unwraps again.
\<close>

definition raw_transaction ::
  "('d, 'e, 'st, 'sn, 's, 't, 'w) api_lib \<Rightarrow> EvmEnv \<Rightarrow> bytes \<Rightarrow> (TypedTransaction, 'e BlockchainError) result" where
  "raw_transaction lib env data =
     (let rlp = xl_rlp (al_exec lib) in
      case data of
        [] \<Rightarrow> Err BeEmptyRawTransactionData
      | first # _ \<Rightarrow>
          if 0x7f < first then map_err (\<lambda>_. BeFailedToDecodeSignedTransaction) (map_ok Legacy (legacy_decode rlp data))
          else and_then (map_err (\<lambda>_. BeFailedToDecodeSignedTransaction) (typed_decode rlp (rlp_value rlp data))) (\<lambda>tx.
                 map_ok (\<lambda>_. tx) (ensure_typed_transaction_supported (al_forks lib) env tx)))"

definition send_raw_transaction ::
  "('d, 'e, 'st, 'sn, 's, 't, 'w) api_lib \<Rightarrow> u64 \<Rightarrow> nat \<Rightarrow> bytes \<Rightarrow> ('d, 'st, 'sn, 't, 'w) EthApi \<Rightarrow>
    ((TxHash, 'e BlockchainError) result \<times> ('d, 'st, 'sn, 't, 'w) EthApi) option" where
  "send_raw_transaction lib now instant data api =
     (let b = ea_backend api in
      case and_then (raw_transaction lib (bk_env b) data)
             (\<lambda>tx. map_err (\<lambda>_. BeSignatureError) (pd_new (xl_crypto (al_exec lib)) (xl_rlp (al_exec lib)) tx)) of
        Err e \<Rightarrow> Some (Err e, api)
      | Ok pending_transaction \<Rightarrow> do {
          valid \<leftarrow> validate_pool_transaction lib now pending_transaction b;
          (case and_then valid (\<lambda>_. map_err BeDatabaseError (current_nonce lib (pd_sender pending_transaction) b)) of
             Err e \<Rightarrow> Some (Err e, api)
           | Ok on_chain_nonce \<Rightarrow> do {
               tx \<leftarrow> pool_transaction (ea_transaction_order api) on_chain_nonce pending_transaction;
               submit lib instant tx api
             })
        })"

section \<open>What is submitted\<close>

fun req_nonce :: "TypedTransactionRequest \<Rightarrow> U256" where
  "req_nonce (ReqLegacy m) = lr_nonce m"
| "req_nonce (ReqEIP2930 m) = ar_nonce m"
| "req_nonce (ReqEIP1559 m) = dr_nonce m"

lemma built_nonce: "build_typed_transaction rid request sig = Ok tx \<Longrightarrow> tx_nonce tx = req_nonce request"
  by (cases request) (auto split: result.splits)

lemma build_request_nonce:
  "build_typed_tx_request hf fm env request nonce = Some (Ok typed) \<Longrightarrow> req_nonce typed = nonce"
  by (auto simp: build_typed_tx_request_def Let_def split: bind_splits option.splits TypedTransactionRequest.splits)

text \<open>What a wallet promises: the signature it makes recovers to its address.\<close>

definition signer_ok :: "('d, 'e, 'st, 'sn, 's, 't, 'w) api_lib \<Rightarrow> 'w DevSigner \<Rightarrow> bool" where
  "signer_ok lib s \<longleftrightarrow> (\<forall>a w request sig tx. fmlookup (ds_accounts s) a = Some w \<longrightarrow> al_sign lib w request = Some sig \<longrightarrow>
     build_typed_transaction (recovery_id lib) request sig = Ok tx \<longrightarrow>
     tx_recover (xl_crypto (al_exec lib)) (xl_rlp (al_exec lib)) tx = Ok a)"

text \<open>The sender of a pending transaction is the recovered or the impersonated one, and its hash is computed from both.\<close>

definition pending_ok :: "('d, 'e, 's, 't) exec_lib \<Rightarrow> PendingTransaction \<Rightarrow> bool" where
  "pending_ok xl t \<longleftrightarrow> mi_recover (xl_crypto xl) (xl_rlp xl) (pd_transaction t) = Ok (pd_sender t) \<and>
     pd_hash t = (case mi_impersonated_sender (pd_transaction t) of
        None \<Rightarrow> tx_hash (xl_crypto xl) (xl_rlp xl) (mi_transaction (pd_transaction t))
      | Some sender \<Rightarrow> impersonated_hash (xl_crypto xl) (xl_rlp xl) (mi_transaction (pd_transaction t)) sender)"

text \<open>A submitted transaction provides the marker of its nonce and sender, and waits at most for the one before.\<close>

definition submitted :: "('d, 'e, 's, 't) exec_lib \<Rightarrow> PoolTransaction \<Rightarrow> bool" where
  "submitted xl tx \<longleftrightarrow> pending_ok xl (pt_pending_transaction tx) \<and>
     (\<exists>n. as_u64 (tx_nonce (mi_transaction (pd_transaction (pt_pending_transaction tx)))) = Some n \<and>
       pt_provides tx = [to_marker n (pd_sender (pt_pending_transaction tx))] \<and>
       (pt_requires tx = [] \<or> 0 < n \<and> pt_requires tx = [to_marker (n - 1) (pd_sender (pt_pending_transaction tx))]))"

lemma submitted_ok: "submitted xl tx \<Longrightarrow> tx_ok tx"
  by (auto simp: submitted_def tx_ok_def marker_eq)

lemma pd_new_ok: "pd_new (xl_crypto xl) (xl_rlp xl) tx = Ok t \<Longrightarrow> pending_ok xl t \<and> mi_transaction (pd_transaction t) = tx"
  by (cases "tx_recover (xl_crypto xl) (xl_rlp xl) tx") (auto simp: pd_new_def pending_ok_def mi_new_def mi_recover_def)

lemma pd_impersonated_ok:
  "pending_ok xl (pd_with_impersonated (xl_crypto xl) (xl_rlp xl) tx from)"
  "pd_sender (pd_with_impersonated cr rlp tx from) = from"
  "mi_transaction (pd_transaction (pd_with_impersonated cr rlp tx from)) = tx"
  by (simp_all add: pending_ok_def pd_with_impersonated_def mi_impersonated_def mi_recover_def)

lemma and_then_Ok: "and_then r f = Ok y \<longleftrightarrow> (\<exists>x. r = Ok x \<and> f x = Ok y)"
  by (cases r) auto

lemma map_ok_Ok: "map_ok f r = Ok y \<longleftrightarrow> (\<exists>x. r = Ok x \<and> y = f x)"
  by (cases r) auto

lemma map_err_Ok: "map_err f r = Ok y \<longleftrightarrow> r = Ok y"
  by (cases r) auto

lemmas result_Ok = and_then_Ok map_ok_Ok map_err_Ok try_ok_Ok

lemma sign_request_ok:
  fixes lib :: "('d, 'e, 'st, 'sn, 's, 't, 'w) api_lib"
  shows "sign_request lib from request signers = Ok tx \<Longrightarrow> \<forall>s \<in> set signers. signer_ok lib s \<Longrightarrow>
    tx_nonce tx = req_nonce request \<and> tx_recover (xl_crypto (al_exec lib)) (xl_rlp (al_exec lib)) tx = Ok from"
proof (induction signers)
  case (Cons s signers)
  show ?case
  proof (cases "from \<in> set (signer_accounts s)")
    case True
    then obtain sig where sig: "(sign_transaction (al_sign lib) request from s :: (Signature, 'e BlockchainError) result) = Ok sig"
      "build_typed_transaction (recovery_id lib) request sig = Ok tx"
      using Cons.prems(1) by (auto simp: and_then_Ok)
    then obtain w where "fmlookup (ds_accounts s) from = Some w" "al_sign lib w request = Some sig"
      by (auto simp: sign_transaction_def split: option.splits)
    then show ?thesis using Cons.prems(2) sig(2) built_nonce [OF sig(2)] unfolding signer_ok_def by auto
  qed (use Cons in auto)
qed simp

lemma signed_transaction_ok:
  assumes "signed_transaction lib from request api = Ok t" "\<forall>s \<in> set (ea_signers api). signer_ok lib s"
  shows "pending_ok (al_exec lib) t" "pd_sender t = from" "tx_nonce (mi_transaction (pd_transaction t)) = req_nonce request"
proof -
  have "pending_ok (al_exec lib) t \<and> pd_sender t = from \<and> tx_nonce (mi_transaction (pd_transaction t)) = req_nonce request"
  proof (cases "is_impersonated from (ea_cheats api)")
    case True
    then show ?thesis using assms(1)
      by (auto simp: signed_transaction_def Let_def and_then_Ok pd_impersonated_ok built_nonce)
  next
    case False
    then obtain tx where "sign_request lib from request (ea_signers api) = Ok tx"
      and t: "pd_new (xl_crypto (al_exec lib)) (xl_rlp (al_exec lib)) tx = Ok t"
      using assms(1) by (auto simp: signed_transaction_def Let_def result_Ok)
    with sign_request_ok [OF _ assms(2)]
    have "tx_nonce tx = req_nonce request" "tx_recover (xl_crypto (al_exec lib)) (xl_rlp (al_exec lib)) tx = Ok from" by auto
    then show ?thesis using pd_new_ok [OF t] t by (auto simp: pd_new_def)
  qed
  then show "pending_ok (al_exec lib) t" "pd_sender t = from" "tx_nonce (mi_transaction (pd_transaction t)) = req_nonce request"
    by blast+
qed

lemma prepared_ok:
  fixes lib :: "('d, 'e, 'st, 'sn, 's, 't, 'w) api_lib"
  assumes "prepared_transaction lib now from nonce request api = Some (Ok t)" "\<forall>s \<in> set (ea_signers api). signer_ok lib s"
  shows "pending_ok (al_exec lib) t" "pd_sender t = from" "tx_nonce (mi_transaction (pd_transaction t)) = nonce"
    "validate_pool_transaction lib now t (ea_backend api) = Some (Ok ())"
proof -
  obtain typed where typed: "build_typed_tx_request (al_forks lib) (bk_fees (ea_backend api)) (bk_env (ea_backend api)) request nonce =
      Some (Ok typed :: (TypedTransactionRequest, 'e BlockchainError) result)" "signed_transaction lib from typed api = Ok t"
    and valid: "validate_pool_transaction lib now t (ea_backend api) = Some (Ok ())"
    using assms(1) by (auto simp: prepared_transaction_def result_Ok split: bind_splits)
  show "pending_ok (al_exec lib) t" "pd_sender t = from" "tx_nonce (mi_transaction (pd_transaction t)) = nonce"
    using signed_transaction_ok [OF typed(2) assms(2)] build_request_nonce [OF typed(1)] by simp_all
  show "validate_pool_transaction lib now t (ea_backend api) = Some (Ok ())" by (rule valid)
qed

text \<open>A handler fails before it touches the pool, or it submits a transaction.\<close>

lemma send_from_submits:
  assumes "send_from lib now instant request from nonce highest api = Some (r, api')"
  shows "(\<exists>e. r = Err e \<and> api' = api) \<or>
    (\<exists>t n. prepared_transaction lib now from nonce request api = Some (Ok t) \<and> as_u64 nonce = Some n \<and>
      add_pending_transaction lib instant t (if highest < nonce then [to_marker (n - 1) from] else [])
        [to_marker n from] api = Some (r, api'))"
proof -
  obtain prepared where prep: "prepared_transaction lib now from nonce request api = Some prepared"
    using assms by (auto simp: send_from_def split: bind_splits)
  show ?thesis
  proof (cases prepared)
    case (Err e)
    then have "r = Err e \<and> api' = api" using assms by (simp add: send_from_def prep)
    then show ?thesis by blast
  next
    case t: (Ok t)
    obtain n where n: "as_u64 nonce = Some n" using assms by (auto simp: send_from_def prep t split: bind_splits)
    then have "add_pending_transaction lib instant t (if highest < nonce then [to_marker (n - 1) from] else [])
        [to_marker n from] api = Some (r, api')"
      using assms by (auto simp: send_from_def prep t n required_marker_eq [OF n] split: if_splits)
    then show ?thesis using prep t n by blast
  qed
qed

lemma send_transaction_cases:
  assumes "send_transaction lib now instant request api = Some (r, api')"
  obtains (failed) e b where "r = Err e" "api' = api\<lparr>ea_backend := b\<rparr>"
    | (sent) sender nonce highest b t n where
      "er_from request = Some sender \<or> er_from request = None \<and> (\<exists>as. accounts (ea_signers api) = sender # as)"
      "request_nonce lib now request sender (ea_pool api) (ea_backend api) = Some (Ok (nonce, highest), b)"
      "prepared_transaction lib now sender nonce request (api\<lparr>ea_backend := b\<rparr>) = Some (Ok t)"
      "as_u64 nonce = Some n"
      "add_pending_transaction lib instant t (if highest < nonce then [to_marker (n - 1) sender] else [])
        [to_marker n sender] (api\<lparr>ea_backend := b\<rparr>) = Some (r, api')"
proof -
  consider (none) "r = Err BeNoSignerAvailable" "api' = api"
    | (some) sender nonces b where
      "er_from request = Some sender \<or> er_from request = None \<and> (\<exists>as. accounts (ea_signers api) = sender # as)"
      "request_nonce lib now request sender (ea_pool api) (ea_backend api) = Some (nonces, b)"
      "(case nonces of Err e \<Rightarrow> Some (Err e, api\<lparr>ea_backend := b\<rparr>)
        | Ok (nonce, on_chain_nonce) \<Rightarrow> send_from lib now instant request sender nonce on_chain_nonce (api\<lparr>ea_backend := b\<rparr>)) =
        Some (r, api')"
    using assms unfolding send_transaction_def
    by (cases "er_from request"; cases "accounts (ea_signers api)") (auto split: bind_splits)
  then show thesis
  proof cases
    case none
    then show thesis using failed [of BeNoSignerAvailable "ea_backend api"] by simp
  next
    case some
    show thesis
    proof (cases nonces)
      case (Err e)
      then have "r = Err e" "api' = api\<lparr>ea_backend := b\<rparr>" using some(3) by simp_all
      then show thesis by (rule failed)
    next
      case (Ok p)
      obtain nonce highest where p: "p = (nonce, highest)" by (cases p)
      have "send_from lib now instant request sender nonce highest (api\<lparr>ea_backend := b\<rparr>) = Some (r, api')"
        using some(3) by (simp add: Ok p)
      from send_from_submits [OF this] show thesis
        using failed sent [OF some(1) some(2) [unfolded Ok p]] by blast
    qed
  qed
qed

lemma send_raw_cases:
  assumes "send_raw_transaction lib now instant data api = Some (r, api')"
  obtains (failed) e where "r = Err e" "api' = api"
    | (sent) tx t k n where "raw_transaction lib (bk_env (ea_backend api)) data = Ok tx"
      "pd_new (xl_crypto (al_exec lib)) (xl_rlp (al_exec lib)) tx = Ok t" "as_u64 (tx_nonce tx) = Some n"
      "submit lib instant \<lparr>pt_pending_transaction = t,
         pt_requires = (if k < tx_nonce tx then [to_marker (n - 1) (pd_sender t)] else []),
         pt_provides = [to_marker n (pd_sender t)], pt_priority = tx_priority (ea_transaction_order api) tx\<rparr> api = Some (r, api')"
proof -
  let ?dec = "and_then (raw_transaction lib (bk_env (ea_backend api)) data)
    (\<lambda>tx. map_err (\<lambda>_. BeSignatureError) (pd_new (xl_crypto (al_exec lib)) (xl_rlp (al_exec lib)) tx))"
  show thesis
  proof (cases ?dec)
    case (Err e)
    then have "r = Err e" "api' = api" using assms by (simp_all add: send_raw_transaction_def)
    then show thesis by (rule failed)
  next
    case (Ok t)
    then obtain tx where tx: "raw_transaction lib (bk_env (ea_backend api)) data = Ok tx"
      "pd_new (xl_crypto (al_exec lib)) (xl_rlp (al_exec lib)) tx = Ok t"
      by (auto simp: result_Ok)
    obtain valid where valid: "validate_pool_transaction lib now t (ea_backend api) = Some valid"
      using assms by (auto simp: send_raw_transaction_def Ok Let_def split: bind_splits)
    show thesis
    proof (cases "and_then valid (\<lambda>_. map_err BeDatabaseError (current_nonce lib (pd_sender t) (ea_backend api)))")
      case (Err e)
      then have "r = Err e" "api' = api" using assms by (simp_all add: send_raw_transaction_def Ok valid Let_def)
      then show thesis by (rule failed)
    next
      case k: (Ok k)
      have same: "mi_transaction (pd_transaction t) = tx" using pd_new_ok [OF tx(2)] by simp
      obtain ptx where ptx: "pool_transaction (ea_transaction_order api) k t = Some ptx" "submit lib instant ptx api = Some (r, api')"
        using assms by (auto simp: send_raw_transaction_def Ok valid k Let_def split: bind_splits)
      obtain n where n: "as_u64 (tx_nonce tx) = Some n"
        using ptx(1) by (auto simp: pool_transaction_def same Let_def split: option.splits)
      show thesis
        using ptx by (intro sent [OF tx n, of k]) (simp add: pool_transaction_def same n required_marker_eq [OF n] Let_def)
    qed
  qed
qed

text \<open>In both cases the submitted transaction is well-formed.\<close>

lemma ahead_pos: "as_u64 nonce = Some n \<Longrightarrow> highest < nonce \<Longrightarrow> 0 < n"
  by (auto simp: as_u64_Some word_less_nat_alt)

lemma send_submitted:
  assumes "send_transaction lib now instant request api = Some (r, api')" "\<forall>s \<in> set (ea_signers api). signer_ok lib s"
  shows "(\<exists>e b. r = Err e \<and> api' = api\<lparr>ea_backend := b\<rparr>) \<or>
    (\<exists>b ptx. submitted (al_exec lib) ptx \<and> submit lib instant ptx (api\<lparr>ea_backend := b\<rparr>) = Some (r, api'))"
  using assms(1)
proof (cases rule: send_transaction_cases)
  case (sent sender nonce highest b t n)
  have "\<forall>s \<in> set (ea_signers (api\<lparr>ea_backend := b\<rparr>)). signer_ok lib s" using assms(2) by simp
  note t = prepared_ok [OF sent(3) this]
  show ?thesis
    by (intro disjI2 exI [of _ b] exI conjI, rule_tac [2] sent(5) [unfolded add_pending_transaction_def])
      (use t sent(4) ahead_pos [OF sent(4)] in \<open>simp add: submitted_def\<close>)
qed blast

lemma send_raw_submitted:
  assumes "send_raw_transaction lib now instant data api = Some (r, api')"
  shows "(\<exists>e. r = Err e \<and> api' = api) \<or>
    (\<exists>ptx. submitted (al_exec lib) ptx \<and> submit lib instant ptx api = Some (r, api'))"
  using assms
proof (cases rule: send_raw_cases)
  case (sent tx t k n)
  show ?thesis
    by (intro disjI2 exI conjI, rule_tac [2] sent(4))
      (use pd_new_ok [OF sent(2)] sent(3) ahead_pos [OF sent(3)] in \<open>simp add: submitted_def\<close>)
qed blast

section \<open>The state machine of the handlers\<close>

text \<open>
  Besides the two handlers, the service and other handlers remove transactions from the pool, and everything but the
  pool and the signers may change in between.
\<close>

inductive api_step ::
  "('d, 'e, 'st, 'sn, 's, 't, 'w) api_lib \<Rightarrow> ('d, 'st, 'sn, 't, 'w) EthApi \<Rightarrow> unit \<Rightarrow> ('d, 'st, 'sn, 't, 'w) EthApi \<Rightarrow> bool"
  for lib where
  step_send: "send_transaction lib now instant request api = Some (r, api') \<Longrightarrow> api_step lib api l api'"
| step_send_raw: "send_raw_transaction lib now instant data api = Some (r, api') \<Longrightarrow> api_step lib api l api'"
| step_remove: "\<forall>now tx. op \<noteq> AddTransaction now tx \<Longrightarrow> pool_exec (al_hasher lib) op (ea_pool api) = Some p' \<Longrightarrow>
    api_step lib api l (api\<lparr>ea_pool := p'\<rparr>)"
| step_other: "ea_pool api' = ea_pool api \<Longrightarrow> ea_signers api' = ea_signers api \<Longrightarrow> api_step lib api l api'"

inductive_cases api_stepE: "api_step lib api l api'"

definition api_init :: "('d, 'e, 'st, 'sn, 's, 't, 'w) api_lib \<Rightarrow> ('d, 'st, 'sn, 't, 'w) EthApi \<Rightarrow> bool" where
  "api_init lib api \<longleftrightarrow> hasher_ok (al_hasher lib) \<and> ea_pool api = pool_empty \<and> (\<forall>s \<in> set (ea_signers api). signer_ok lib s)"

definition api_inv :: "('d, 'e, 'st, 'sn, 's, 't, 'w) api_lib \<Rightarrow> ('d, 'st, 'sn, 't, 'w) EthApi \<Rightarrow> bool" where
  "api_inv lib api \<longleftrightarrow> hasher_ok (al_hasher lib) \<and> wf_pool (ea_pool api) \<and> all_pooled (submitted (al_exec lib)) (ea_pool api) \<and>
     (\<forall>s \<in> set (ea_signers api). signer_ok lib s)"

lemma submit_Some:
  assumes "submit lib instant tx api = Some (r, api')"
  obtains added p' m' where "pool_add (al_hasher lib) instant tx (ea_pool api) = Some (added, p')"
    "r = map_ok added_hash (map_err BePool added)" "api' = api\<lparr>ea_pool := p', ea_miner := m'\<rparr>"
  using assms by (auto simp: submit_def add_transaction_def split: bind_splits option.splits prod.splits)

lemma submit_inv:
  assumes "api_inv lib api" "submitted (al_exec lib) tx" "submit lib instant tx (api\<lparr>ea_backend := b\<rparr>) = Some (r, api')"
  shows "api_inv lib api'"
proof -
  obtain added p' m' where add: "pool_add (al_hasher lib) instant tx (ea_pool api) = Some (added, p')"
    and "r = map_ok added_hash (map_err BePool added)"
    and api': "api' = api\<lparr>ea_backend := b, ea_pool := p', ea_miner := m'\<rparr>"
    by (rule submit_Some [OF assms(3), simplified])
  have "wf_pool p'"
    using pool_add_ok [of "al_hasher lib" "ea_pool api" tx instant] submitted_ok [OF assms(2)] assms(1) add
    by (auto simp: api_inv_def)
  moreover have "all_pooled (submitted (al_exec lib)) p'"
    using pool_add_all [OF _ _ submitted_ok [OF assms(2)] add] assms(1,2) by (simp add: api_inv_def)
  ultimately show ?thesis using assms(1) by (simp add: api_inv_def api')
qed

lemma api_inv_step:
  assumes inv: "api_inv lib api" and step: "api_step lib api l api'"
  shows "api_inv lib api'"
  using step
proof cases
  case (step_send now instant request r)
  have "api_inv lib (api\<lparr>ea_backend := b\<rparr>)" for b using inv by (simp add: api_inv_def)
  moreover have "\<forall>s \<in> set (ea_signers api). signer_ok lib s" using inv by (simp add: api_inv_def)
  ultimately show ?thesis using send_submitted [OF step_send] submit_inv [OF inv] by blast
next
  case (step_send_raw now instant data r)
  have "api\<lparr>ea_backend := ea_backend api\<rparr> = api" by simp
  then show ?thesis using send_raw_submitted [OF step_send_raw] submit_inv [OF inv, where b = "ea_backend api"] inv by auto
next
  case (step_remove op p')
  then have "op_ok op" by (cases op) auto
  then have "wf_pool p'" "all_pooled (submitted (al_exec lib)) p'"
    using pool_exec_ok [of "al_hasher lib" op "ea_pool api"] pool_exec_all [of "al_hasher lib" op "ea_pool api" p'] inv step_remove
    by (auto simp: api_inv_def)
  then show ?thesis using inv step_remove(1) by (simp add: api_inv_def)
next
  case step_other
  then show ?thesis using inv by (simp add: api_inv_def)
qed

interpretation api_machine: machine_inv "api_init lib" "api_step lib" "api_inv lib" for lib
proof
  show "api_init lib api \<Longrightarrow> api_inv lib api" for api
    by (simp add: api_init_def api_inv_def wf_pool_empty all_pooled_empty)
  show "api_inv lib api \<Longrightarrow> api_step lib api l api' \<Longrightarrow> api_inv lib api'" for api l api'
    by (rule api_inv_step)
qed

section \<open>What the pool holds after a submission\<close>

lemma submit_accepted:
  fixes lib :: "('d, 'e, 'st, 'sn, 's, 't, 'w) api_lib"
  assumes inv: "api_inv lib api" and tx: "submitted (al_exec lib) tx" and sub: "submit lib instant tx api = Some (Ok h, api')"
  shows "h = pt_hash tx \<and> h \<in> pool_hashes (ea_pool api') \<and> h \<notin> pool_hashes (ea_pool api) \<and>
    all_pooled (\<lambda>u. pt_hash u = h \<longrightarrow> u = tx) (ea_pool api') \<and> wf_pool (ea_pool api') \<and>
    (pt_requires tx = [] \<longrightarrow> h \<in> ready_hashes (ready_transactions (ea_pool api')))"
proof -
  obtain added p' m' where add: "pool_add (al_hasher lib) instant tx (ea_pool api) = Some (added, p')"
    and r: "Ok h = (map_ok added_hash (map_err BePool added) :: (TxHash, 'e BlockchainError) result)" and api': "api' = api\<lparr>ea_pool := p', ea_miner := m'\<rparr>"
    by (rule submit_Some [OF sub])
  obtain a where a: "added = Ok a" "h = added_hash a" using r by (cases added) auto
  have hs: "hasher_ok (al_hasher lib)" and wf: "wf_pool (ea_pool api)" using inv by (simp_all add: api_inv_def)
  have out: "add_outcome tx (ea_pool api) (Ok a) p'" "wf_pool p'"
    using pool_add_ok [OF hs wf submitted_ok [OF tx], of instant] add a by auto
  have new: "\<not> pool_contains (pt_hash tx) (ea_pool api)" using add a(1) by (auto simp: pool_add_def split: if_splits)
  have own: "wf_ready (ready_transactions (ea_pool api))" "wf_pending (pending_transactions (ea_pool api))"
    using wf by (simp_all add: wf_poolD)
  have "all_pooled (\<lambda>u. pt_hash u = pt_hash tx \<longrightarrow> u = tx) (ea_pool api)"
    using new ready_invD(2) [OF own(1) [unfolded wf_ready_def wf_ready_but_def]] wf_pendingD(1) [OF own(2)]
    by (auto simp: all_pooled_def all_ready_def all_waiting_def pool_contains_iff ready_contains_refs wf_entry_def)
  from pool_add_all [OF hs wf submitted_ok [OF tx] add this]
  have only: "all_pooled (\<lambda>u. pt_hash u = pt_hash tx \<longrightarrow> u = tx) p'" by simp
  have h: "h = pt_hash tx" "pt_hash tx \<in> pool_hashes p'"
    using out(1) a(2) by (auto simp: add_outcome_def split: AddedTransaction.splits)
  have "h \<in> ready_hashes (ready_transactions p')" if "pt_requires tx = []"
    using pool_add_no_requires [OF hs wf submitted_ok [OF tx] that] add a(1) h(1) by simp
  then show ?thesis using h only out(2) new by (simp add: api')
qed

lemma pooled_entry:
  assumes wf: "wf_pool p" and h: "h \<in> pool_hashes p" and only: "all_pooled (\<lambda>u. pt_hash u = h \<longrightarrow> u = tx) p"
  shows "pool_get_transaction h p = Some (pt_pending_transaction tx)"
    "h \<in> ready_hashes (ready_transactions p) \<Longrightarrow>
      \<exists>t. ready_get h (ready_transactions p) = Some t \<and> rf_transaction (rt_transaction t) = tx"
proof -
  have waiting: "pp_transaction w = tx" if "fmlookup (waiting_queue (pending_transactions p)) h = Some w" for w
    using only that wf_pendingD(1) [OF wf_poolD(1) [OF wf] that] by (auto simp: all_pooled_def all_waiting_def wf_entry_def)
  have ready: "rf_transaction (rt_transaction t) = tx" if "fmlookup (ready_tx (ready_transactions p)) h = Some t" for t
  proof -
    have refs: "refs_of (ready_tx (ready_transactions p)) h = Some (rt_transaction t)" using that by (simp add: refs_of_def)
    then show ?thesis
      using only ready_invD(2) [OF wf_poolD(2) [OF wf, unfolded wf_ready_def wf_ready_but_def] refs]
      by (auto simp: all_pooled_def all_ready_def)
  qed
  show "pool_get_transaction h p = Some (pt_pending_transaction tx)"
    using h waiting ready
    by (auto simp: pool_get_transaction_def pend_get_def ready_get_def pool_contains_iff ready_contains_def
        fmlookup_dom_iff split: option.splits)
  show "h \<in> ready_hashes (ready_transactions p) \<Longrightarrow>
      \<exists>t. ready_get h (ready_transactions p) = Some t \<and> rf_transaction (rt_transaction t) = tx"
    using ready by (auto simp: ready_get_def ready_contains_def fmlookup_dom_iff)
qed

abbreviation pt_nonce :: "PoolTransaction \<Rightarrow> U256" where
  "pt_nonce tx \<equiv> tx_nonce (mi_transaction (pd_transaction (pt_pending_transaction tx)))"

lemma request_nonce_pooled:
  assumes "iter_collect (get_transactions (ready_transactions pool)) = Some txs" "highest_nonce_tx a txs = Some other"
    "er_nonce request = None"
  shows "request_nonce lib now request a pool b =
    Some (Ok (saturating_add (pt_nonce other) 1, saturating_add (pt_nonce other) 1), b)"
  using assms by (simp add: request_nonce_def get_transaction_count_def block_request_def backend_get_nonce_def get_pool_transactions_nonce_def)

lemma validated_ahead:
  assumes "validate_pool_transaction lib now t b = Some (Ok ())" "get_account lib (pd_sender t) b = Ok account"
    and n: "as_u64 (tx_nonce (mi_transaction (pd_transaction t))) = Some n" and ahead: "ac_nonce account < n"
  shows "\<exists>env. next_env (al_forks lib) (bk_fees b) now (bk_time b) (bk_env b) = Some env \<and>
    validate_for (al_forks lib) (ce_chain_id (ev_cfg (bk_env b))) t account env = Some (Err NonceTooHigh)"
proof -
  obtain env where "next_env (al_forks lib) (bk_fees b) now (bk_time b) (bk_env b) = Some env"
    "validate_pool_transaction_for (al_forks lib) (ce_chain_id (ev_cfg (bk_env b))) t account env = Some (Ok ())"
    using assms(1,2) by (auto simp: validate_pool_transaction_def map_err_Ok split: bind_splits)
  then show ?thesis using n ahead by (simp add: validate_for_def)
qed

section \<open>Properties\<close>


text \<open>
  C40: \<open>eth_sendTransaction\<close> does not order the transactions of a sender.  When a request without a nonce is accepted while a
  transaction of its sender is ready, the new transaction gets the next nonce but requires nothing: it is ready at once, and if
  it is executed first, as it is when its priority is higher, it is found invalid because its nonce is too high.
\<close>

theorem sent_unordered:
  assumes reach: "reach (api_init lib) (api_step lib) api"
    and send: "send_transaction lib now instant request api = Some (Ok h, api')"
    and request: "er_from request = Some a" "er_nonce request = None"
    and queued: "iter_collect (get_transactions (ready_transactions (ea_pool api))) = Some txs" "highest_nonce_tx a txs = Some other"
    and account: "get_account lib a (ea_backend api) = Ok account" "ucast (ac_nonce account) \<le> pt_nonce other"
  shows "\<exists>t env. ready_get h (ready_transactions (ea_pool api')) = Some t \<and> pt_requires (rf_transaction (rt_transaction t)) = [] \<and>
    pt_nonce (rf_transaction (rt_transaction t)) = saturating_add (pt_nonce other) 1 \<and>
    next_env (al_forks lib) (bk_fees (ea_backend api)) now (bk_time (ea_backend api)) (bk_env (ea_backend api)) = Some env \<and>
    validate_for (al_forks lib) (ce_chain_id (ev_cfg (bk_env (ea_backend api))))
      (pt_pending_transaction (rf_transaction (rt_transaction t))) account env = Some (Err NonceTooHigh)"
proof -
  let ?next = "saturating_add (pt_nonce other) 1"
  have inv: "api_inv lib api" by (rule api_machine.reach_inv [OF reach])
  obtain t n where t: "prepared_transaction lib now a ?next request api = Some (Ok t)" and n: "as_u64 ?next = Some n"
    and add: "add_pending_transaction lib instant t [] [to_marker n a] api = Some (Ok h, api')"
    using send
  proof (cases rule: send_transaction_cases)
    case (sent sender nonce highest b t n)
    then have "nonce = ?next" "highest = ?next" "b = ea_backend api" "sender = a"
      using request request_nonce_pooled [OF queued request(2), of lib now "ea_backend api"] by auto
    then show thesis using sent that by simp
  qed simp
  have "\<forall>s \<in> set (ea_signers api). signer_ok lib s" using inv by (simp add: api_inv_def)
  note t = prepared_ok [OF t this]
  let ?tx = "\<lparr>pt_pending_transaction = t, pt_requires = [], pt_provides = [to_marker n a],
     pt_priority = tx_priority (ea_transaction_order api) (mi_transaction (pd_transaction t))\<rparr>"
  have "submitted (al_exec lib) ?tx" using t n by (simp add: submitted_def)
  note pooled = submit_accepted [OF inv this add [unfolded add_pending_transaction_def], simplified]
  obtain u where u: "ready_get h (ready_transactions (ea_pool api')) = Some u" "rf_transaction (rt_transaction u) = ?tx"
    using pooled_entry(2) [of "ea_pool api'" h ?tx] pooled by auto
  have "unat n = Suc (unat (pt_nonce other))" using n by (auto simp: as_u64_Some unat_saturating_add)
  then have "ac_nonce account < n" using account(2) by (simp add: word_less_nat_alt word_le_nat_alt unat_ucast_u64)
  from validated_ahead [OF t(4) _ _ this] account(1) t(2,3) n u show ?thesis by auto
qed

text \<open>
  The bytes of a signed transaction on the wire.  The list encoding of the RLP format starts with a byte of at least \<open>0xc0\<close>.
\<close>

fun wire :: "rlp_lib \<Rightarrow> TypedTransaction \<Rightarrow> bytes" where
  "wire lib (Legacy t) = legacy_rlp lib t"
| "wire lib (EIP2930 t) = 1 # eip2930_rlp lib t"
| "wire lib (EIP1559 t) = 2 # eip1559_rlp lib t"

definition list_prefix :: "rlp_lib \<Rightarrow> bool" where
  "list_prefix lib \<longleftrightarrow> (\<forall>xs. \<exists>b bs. rlp_list lib xs = b # bs \<and> 0xC0 \<le> b)"

lemma raw_transaction_wire:
  fixes lib :: "('d, 'e, 'st, 'sn, 's, 't, 'w) api_lib"
  assumes rlp: "rlp_ok (xl_rlp (al_exec lib))" "list_prefix (xl_rlp (al_exec lib))"
    and supported: "ensure_typed_transaction_supported (al_forks lib) env tx = (Ok () :: (unit, 'e BlockchainError) result)"
  shows "raw_transaction lib env (wire (xl_rlp (al_exec lib)) tx) = Ok tx"
proof (cases tx)
  case (Legacy t)
  obtain b bs where b: "legacy_rlp (xl_rlp (al_exec lib)) t = b # bs" "0xC0 \<le> b"
    unfolding legacy_rlp_def using rlp(2) [unfolded list_prefix_def] by blast
  have "0x7f < b" using b(2) by (rule order_less_le_trans [rotated]) simp
  then show ?thesis using legacy_roundtrip [OF rlp(1), of t] by (simp add: Legacy raw_transaction_def b(1))
next
  case (EIP2930 t)
  then show ?thesis using typed_roundtrip [OF rlp(1), of tx] supported by (simp add: raw_transaction_def enveloped_def)
next
  case (EIP1559 t)
  then show ?thesis using typed_roundtrip [OF rlp(1), of tx] supported by (simp add: raw_transaction_def enveloped_def)
qed

abbreviation raw_hash :: "('d, 'e, 's, 't) exec_lib \<Rightarrow> TypedTransaction \<Rightarrow> H256" where
  "raw_hash xl tx \<equiv> keccak256 (xl_crypto xl) (wire (xl_rlp xl) tx)"

definition raw_pending :: "('d, 'e, 's, 't) exec_lib \<Rightarrow> TypedTransaction \<Rightarrow> Address \<Rightarrow> PendingTransaction" where
  "raw_pending xl tx sender = \<lparr>pd_transaction = mi_new tx, pd_sender = sender, pd_hash = raw_hash xl tx\<rparr>"

lemma hash_wire: "tx_hash cr lib tx = keccak256 cr (wire lib tx)"
  by (cases tx) (simp_all add: legacy_hash_def eip2930_hash_def eip1559_hash_def)

lemma validated_nonce:
  assumes "validate_pool_transaction lib now t b = Some (Ok ())"
  obtains n where "as_u64 (tx_nonce (mi_transaction (pd_transaction t))) = Some n"
proof -
  obtain account env where
    "validate_pool_transaction_for (al_forks lib) (ce_chain_id (ev_cfg (bk_env b))) t account env = Some (Ok ())"
    using assms by (cases "get_account lib (pd_sender t) b") (auto simp: validate_pool_transaction_def map_err_Ok split: bind_splits)
  then show thesis
    using that by (auto simp: validate_pool_transaction_for_def Let_def and_then_Ok split: bind_splits if_splits option.splits)
qed

text \<open>
  C9: \<open>eth_sendRawTransaction\<close> of the bytes of a signed transaction pools that transaction.  If it is supported by the hardfork,
  its signature recovers to a sender and it is valid, the handler returns, and unless the pool rejects the transaction as a cheaper
  replacement or as cyclic, the answer is the Keccak hash of the bytes and the pool holds, under this hash, exactly the transaction with
  its sender, ready when its nonce is the next one of the account.
\<close>

theorem raw_transaction_pooled:
  fixes lib :: "('d, 'e, 'st, 'sn, 's, 't, 'w) api_lib"
  assumes reach: "reach (api_init lib) (api_step lib) api"
    and rlp: "rlp_ok (xl_rlp (al_exec lib))" "list_prefix (xl_rlp (al_exec lib))"
    and supported: "ensure_typed_transaction_supported (al_forks lib) (bk_env (ea_backend api)) tx =
      (Ok () :: (unit, 'e BlockchainError) result)"
    and sender: "tx_recover (xl_crypto (al_exec lib)) (xl_rlp (al_exec lib)) tx = Ok sender"
    and valid: "validate_pool_transaction lib now (raw_pending (al_exec lib) tx sender) (ea_backend api) = Some (Ok ())"
    and nonce: "current_nonce lib sender (ea_backend api) = Ok k"
    and new: "raw_hash (al_exec lib) tx \<notin> pool_hashes (ea_pool api)"
  shows "\<exists>r api'. send_raw_transaction lib now instant (wire (xl_rlp (al_exec lib)) tx) api = Some (r, api') \<and>
    (case r of
       Ok h \<Rightarrow> h = raw_hash (al_exec lib) tx \<and>
         pool_get_transaction h (ea_pool api') = Some (raw_pending (al_exec lib) tx sender) \<and>
         (tx_nonce tx = k \<longrightarrow> h \<in> ready_hashes (ready_transactions (ea_pool api')))
     | Err e \<Rightarrow> e = BePool CyclicTransaction \<or> (\<exists>u. e = BePool (ReplacementUnderpriced u) \<and> ea_pool api' = ea_pool api))"
proof -
  have inv: "api_inv lib api" by (rule api_machine.reach_inv [OF reach])
  let ?xl = "al_exec lib" and ?t = "raw_pending (al_exec lib) tx sender" and ?h = "raw_hash (al_exec lib) tx"
  have hs: "hasher_ok (al_hasher lib)" and wf: "wf_pool (ea_pool api)" using inv by (simp_all add: api_inv_def)
  obtain n where "as_u64 (tx_nonce (mi_transaction (pd_transaction ?t))) = Some n" by (rule validated_nonce [OF valid])
  then have n: "as_u64 (tx_nonce tx) = Some n" by (simp add: raw_pending_def mi_new_def)
  have pd: "pd_new (xl_crypto ?xl) (xl_rlp ?xl) tx = Ok ?t"
    using sender by (simp add: pd_new_def raw_pending_def hash_wire)
  let ?tx = "\<lparr>pt_pending_transaction = ?t, pt_requires = (if k < tx_nonce tx then [to_marker (n - 1) sender] else []),
     pt_provides = [to_marker n sender], pt_priority = tx_priority (ea_transaction_order api) tx\<rparr>"
  have "pool_transaction (ea_transaction_order api) k ?t = Some ?tx"
    by (simp add: pool_transaction_def raw_pending_def mi_new_def n required_marker_eq [OF n])
  then have run: "send_raw_transaction lib now instant (wire (xl_rlp ?xl) tx) api = submit lib instant ?tx api"
    using raw_transaction_wire [OF rlp supported] pd nonce valid
    by (simp add: send_raw_transaction_def Let_def) (simp add: raw_pending_def)
  have sub: "submitted ?xl ?tx" using pd_new_ok [OF pd] n ahead_pos [OF n] by (simp add: submitted_def raw_pending_def mi_new_def)
  have hash: "pt_hash ?tx = ?h" by (simp add: pt_hash_def raw_pending_def)
  obtain added p' where add: "pool_add (al_hasher lib) instant ?tx (ea_pool api) = Some (added, p')" "add_outcome ?tx (ea_pool api) added p'"
    using pool_add_ok [OF hs wf submitted_ok [OF sub], of instant] by blast
  then obtain m' where sent: "submit lib instant ?tx api = Some (map_ok added_hash (map_err BePool added), api\<lparr>ea_pool := p', ea_miner := m'\<rparr>)"
    by (simp add: submit_def add_transaction_def)
  show ?thesis
  proof (cases added)
    case (Ok a)
    then have "submit lib instant ?tx api = Some (Ok (added_hash a), api\<lparr>ea_pool := p', ea_miner := m'\<rparr>)" using sent by simp
    note pooled = submit_accepted [OF inv sub this, simplified, unfolded hash]
    then have "pool_get_transaction ?h p' = Some ?t" using pooled_entry(1) [of p' ?h ?tx] by auto
    then show ?thesis using run sent pooled by (auto simp: Ok)
  next
    case (Err e)
    then show ?thesis using run sent add(2) new hash by (cases e) (auto simp: add_outcome_def)
  qed
qed

section \<open>An example node\<close>

text \<open>A wallet of account 3 whose signatures always recover to it, and a hash that tells transactions apart by their nonce.\<close>

definition ex_acrypto :: crypto where
  "ex_acrypto = \<lparr>keccak256 = (\<lambda>b. case legacy_decode ex_rlp b of Ok t \<Rightarrow> lt_nonce t + 1 | Err _ \<Rightarrow> 0),
     sig_recover = (\<lambda>_ _. Ok 3), sig_try_from = (\<lambda>_. Ok IMPERSONATED_SIGNATURE)\<rparr>"

definition ex_alib :: "(nat, unit, nat, nat, unit, unit, unit) api_lib" where
  "ex_alib = \<lparr>al_mine = ex_mlib\<lparr>ml_exec := (ml_exec ex_mlib)\<lparr>xl_crypto := ex_acrypto\<rparr>\<rparr>, al_state_basic = (\<lambda>_ _. Ok None),
     al_recovery_id = (\<lambda>_. Some 0), al_sign = (\<lambda>_ _. Some IMPERSONATED_SIGNATURE), al_hasher = ex_hasher, al_room = ex_room\<rparr>"

definition ex_api :: "PoolInner \<Rightarrow> (nat, nat, nat, unit, unit) EthApi" where
  "ex_api p = \<lparr>ea_pool = p, ea_miner = NoMining, ea_backend = ex_backend, ea_cheats = cheats_default,
     ea_signers = [signer_new (\<lambda>_. 3) [()]], ea_transaction_order = Fees\<rparr>"

definition ex_send :: "U256 \<Rightarrow> EthTransactionRequest" where
  "ex_send price = \<lparr>er_from = Some 3, er_to = Some 9, er_gas_price = Some price, er_max_fee_per_gas = None,
     er_max_priority_fee_per_gas = None, er_gas = Some 30000, er_value = None, er_data = None, er_nonce = None,
     er_chain_id = None, er_access_list = None, er_transaction_type = None\<rparr>"

definition ex_signed :: "U256 \<Rightarrow> U256 \<Rightarrow> TypedTransaction" where
  "ex_signed price nonce = Legacy \<lparr>lt_nonce = nonce, lt_gas_price = price, lt_gas_limit = 30000, lt_kind = Call 9,
     lt_value = 0, lt_input = [], lt_signature = IMPERSONATED_SIGNATURE\<rparr>"

definition ex_queued :: "U256 \<Rightarrow> U256 \<Rightarrow> PoolTransaction" where
  "ex_queued price nonce =
     \<lparr>pt_pending_transaction = \<lparr>pd_transaction = mi_new (ex_signed price nonce), pd_sender = 3, pd_hash = nonce + 1\<rparr>,
      pt_requires = [], pt_provides = [to_marker (ucast nonce) 3], pt_priority = price\<rparr>"

lemma ex_alib_simps [simp]:
  "xl_crypto (al_exec ex_alib) = ex_acrypto" "xl_rlp (al_exec ex_alib) = ex_rlp" "al_node ex_alib = xl_node (ml_exec ex_mlib)"
  "al_hasher ex_alib = ex_hasher" "al_room ex_alib = ex_room" "recovery_id ex_alib sig = Ok 0"
  "al_sign ex_alib w request = Some IMPERSONATED_SIGNATURE"
  by (simp_all add: ex_alib_def ex_mlib_def recovery_id_def)

lemma ex_api_simps [simp]:
  "ea_pool (ex_api p) = p" "ea_backend (ex_api p) = ex_backend" "(ex_api p)\<lparr>ea_backend := ex_backend\<rparr> = ex_api p"
  "bk_env ex_backend = ex_env"
  by (simp_all add: ex_api_def ex_backend_def)

lemma ex_keccak [simp]: "keccak256 ex_acrypto (legacy_rlp ex_rlp t) = lt_nonce t + 1"
  by (simp add: ex_acrypto_def legacy_roundtrip [OF ex_rlp_ok])

lemma ex_recover [simp]: "tx_recover ex_acrypto rlp tx = Ok 3"
  by (cases tx) (simp_all add: legacy_recover_def eip2930_recover_def eip1559_recover_def ex_acrypto_def)

lemma ex_legacy_recover [simp]: "legacy_recover ex_acrypto rlp t = Ok 3"
  using ex_recover [of rlp "Legacy t"] by simp

lemma ex_signers: "\<forall>s \<in> set (ea_signers (ex_api p)). signer_ok ex_alib s"
  by (simp add: ex_api_def signer_new_def signer_ok_def)

lemma ex_account: "get_account ex_alib a ex_backend = Ok \<lparr>ac_balance = 1000000, ac_nonce = 0, ac_code_hash = 0, ac_code = None\<rparr>"
  by (simp add: get_account_def) (simp add: ex_mlib_def)

lemma ex_valid:
  assumes "nonce = 0 \<or> nonce = 1" "price = 1 \<or> price = 2"
  shows "validate_pool_transaction ex_alib 10 (pt_pending_transaction (ex_queued price nonce)) ex_backend = Some (Ok ())"
proof -
  have "\<exists>t. current_call_timestamp 10 (bk_time ex_backend) = Some t"
    by (simp add: ex_backend_def current_call_timestamp_def i128_saturating_add_def compute_next_timestamp_def)
  then obtain t where t: "current_call_timestamp 10 (bk_time ex_backend) = Some t" by blast
  have fee: "base_fee_of l (bk_fees ex_backend) = 0" for l by (simp add: base_fee_of_def fm_new_def ex_backend_def)
  show ?thesis
    using assms
    by (auto simp: validate_pool_transaction_def ex_account next_env_def t fee ex_env_def ex_queued_def ex_signed_def mi_new_def
      validate_pool_transaction_for_def check_chain_id_def legacy_chain_id_def IMPERSONATED_SIGNATURE_def MIN_TRANSACTION_GAS_def
      as_u64_def check_fees_def add_chk_def tx_max_cost_def saturating_mul_def ex_mlib_def)
qed

lemma ex_prepare:
  assumes "nonce = 0 \<or> nonce = 1" "price = 1 \<or> price = 2"
  shows "prepared_transaction ex_alib 10 3 nonce (ex_send price) (ex_api p) = Some (Ok (pt_pending_transaction (ex_queued price nonce)))"
proof -
  have "build_typed_tx_request (al_forks ex_alib) (bk_fees ex_backend) ex_env (ex_send price) nonce =
      Some (Ok (ReqLegacy \<lparr>lr_nonce = nonce, lr_gas_price = price, lr_gas_limit = 30000, lr_kind = Call 9, lr_value = 0,
        lr_input = [], lr_chain_id = Some 1\<rparr>) :: (TypedTransactionRequest, unit BlockchainError) result)"
    by (simp add: build_typed_tx_request_def ex_send_def into_typed_request_def ex_env_def as_u64_def)
  moreover have "signed_transaction ex_alib 3 (ReqLegacy \<lparr>lr_nonce = nonce, lr_gas_price = price, lr_gas_limit = 30000, lr_kind = Call 9,
      lr_value = 0, lr_input = [], lr_chain_id = Some 1\<rparr>) (ex_api p) = Ok (pt_pending_transaction (ex_queued price nonce))"
    by (simp add: signed_transaction_def ex_api_def is_impersonated_def cheats_default_def signer_new_def signer_accounts_def
      sign_transaction_def pd_new_def ex_queued_def ex_signed_def legacy_hash_def)
  ultimately show ?thesis using ex_valid [OF assms] by (simp add: prepared_transaction_def)
qed

text \<open>The account sends two transactions, the second one with a higher price.\<close>

lemma ex_queued_simps [simp]:
  "pt_hash (ex_queued price nonce) = nonce + 1" "pt_requires (ex_queued price nonce) = []"
  "pt_provides (ex_queued price nonce) = [to_marker (ucast nonce) 3]" "pt_priority (ex_queued price nonce) = price"
  "pt_gas_price (ex_queued price nonce) = price" "pt_nonce (ex_queued price nonce) = nonce"
  "pd_sender (pt_pending_transaction (ex_queued price nonce)) = 3"
  by (simp_all add: ex_queued_def ex_signed_def pt_hash_def pt_gas_price_def mi_new_def)

definition ex_pool1 :: PoolInner where
  "ex_pool1 = snd (the (pool_add ex_hasher 0 (ex_queued 1 0) pool_empty))"

definition ex_pool2 :: PoolInner where
  "ex_pool2 = snd (the (pool_add ex_hasher 1 (ex_queued 2 1) ex_pool1))"

lemma ex_adds:
  "\<exists>rep. pool_add ex_hasher 0 (ex_queued 1 0) pool_empty = Some (Ok (AddedReady rep), ex_pool1) \<and> rr_hash rep = 1"
  "\<exists>rep. pool_add ex_hasher 1 (ex_queued 2 1) ex_pool1 = Some (Ok (AddedReady rep), ex_pool2) \<and> rr_hash rep = 2"
  unfolding ex_pool2_def ex_pool1_def by (simp_all add: pool_eval marker_eq)

lemma ex_collect:
  "iter_collect (get_transactions (ready_transactions pool_empty)) = Some []"
  "iter_collect (get_transactions (ready_transactions ex_pool1)) = Some [ex_queued 1 0]"
  "map pt_hash (iter_take 2 (get_transactions (ready_transactions ex_pool2))) = [2, 1]"
  unfolding ex_pool2_def ex_pool1_def
  by (simp_all add: pool_eval marker_eq get_transactions_def iter_next.simps iter_collect.simps numeral_2_eq_2)

lemma fold_notify_none: "fold (notify_listener room) hashes NoMining = NoMining"
  by (induction hashes) simp_all

lemma ex_submit:
  assumes "pool_add ex_hasher instant tx p = Some (Ok (AddedReady rep), p')"
  shows "submit ex_alib instant tx (ex_api p) = Some (Ok (rr_hash rep), ex_api p')"
  using assms by (simp add: submit_def add_transaction_def ex_api_def fold_notify_none del: fold_simps)

lemma ex_submits:
  "submit ex_alib 0 (ex_queued 1 0) (ex_api pool_empty) = Some (Ok 1, ex_api ex_pool1)"
  "submit ex_alib 1 (ex_queued 2 1) (ex_api ex_pool1) = Some (Ok 2, ex_api ex_pool2)"
proof -
  obtain rep where "pool_add ex_hasher 0 (ex_queued 1 0) pool_empty = Some (Ok (AddedReady rep), ex_pool1)" "rr_hash rep = 1"
    using ex_adds(1) by blast
  then show "submit ex_alib 0 (ex_queued 1 0) (ex_api pool_empty) = Some (Ok 1, ex_api ex_pool1)" by (simp add: ex_submit)
  obtain rep where "pool_add ex_hasher 1 (ex_queued 2 1) ex_pool1 = Some (Ok (AddedReady rep), ex_pool2)" "rr_hash rep = 2"
    using ex_adds(2) by blast
  then show "submit ex_alib 1 (ex_queued 2 1) (ex_api ex_pool1) = Some (Ok 2, ex_api ex_pool2)" by (simp add: ex_submit)
qed

lemma ex_send_from:
  assumes "nonce = 0 \<or> nonce = 1" "price = 1 \<or> price = 2"
  shows "send_from ex_alib 10 instant (ex_send price) 3 nonce nonce (ex_api p) = submit ex_alib instant (ex_queued price nonce) (ex_api p)"
proof -
  have "as_u64 nonce = Some (ucast nonce)" using assms(1) by (auto simp: as_u64_def)
  moreover have prio: "tx_priority (ea_transaction_order (ex_api p)) (mi_transaction (pd_transaction (pt_pending_transaction (ex_queued price nonce)))) = price"
    by (simp add: ex_api_def ex_queued_def ex_signed_def mi_new_def)
  moreover have tx: "\<lparr>pt_pending_transaction = pt_pending_transaction (ex_queued price nonce), pt_requires = [],
      pt_provides = [to_marker (ucast nonce) 3], pt_priority = price\<rparr> = ex_queued price nonce"
    by (simp add: ex_queued_def)
  ultimately show ?thesis
    by (simp add: send_from_def ex_prepare [OF assms] required_marker_eq add_pending_transaction_def tx)
qed

lemma ex_nonce_empty:
  "request_nonce ex_alib 10 (ex_send price) 3 pool_empty ex_backend = Some (Ok (0, 0), ex_backend)"
proof -
  have "best_number ex_backend = 0" using best_number_ok [OF ex_backend_ok] ex_best by simp
  moreover have "be_number (ev_block (bk_env ex_backend)) = 0" by (simp add: ex_backend_def ex_env_def)
  moreover have "view_account ex_alib (Inl d) a = Ok \<lparr>ac_balance = 1000000, ac_nonce = 0, ac_code_hash = 0, ac_code = None\<rparr>" for d a
    by (simp add: view_account_def) (simp add: ex_mlib_def)
  ultimately show ?thesis
    by (simp add: request_nonce_def get_transaction_count_def block_request_def ex_collect backend_get_nonce_def get_pool_transactions_nonce_def
      highest_nonce_tx_def with_database_at_def ex_send_def)
qed

lemma ex_send_first: "send_transaction ex_alib 10 0 (ex_send 1) (ex_api pool_empty) = Some (Ok 1, ex_api ex_pool1)"
proof -
  have "er_from (ex_send 1) = Some 3" by (simp add: ex_send_def)
  then show ?thesis by (simp add: send_transaction_def ex_nonce_empty ex_send_from ex_submits)
qed

lemma ex_highest_nonce: "highest_nonce_tx 3 [ex_queued 1 0] = Some (ex_queued 1 0)"
  by (simp add: highest_nonce_tx_def)

lemma ex_send_second: "send_transaction ex_alib 10 1 (ex_send 2) (ex_api ex_pool1) = Some (Ok 2, ex_api ex_pool2)"
proof -
  have "er_from (ex_send 2) = Some 3" "er_nonce (ex_send 2) = None" by (simp_all add: ex_send_def)
  moreover have "saturating_add (pt_nonce (ex_queued 1 0)) 1 = 1" by (simp add: saturating_add_def)
  ultimately show ?thesis
    by (simp add: send_transaction_def request_nonce_pooled [OF ex_collect(2) ex_highest_nonce] ex_send_from ex_submits(2) [simplified])
qed

lemma ex_api_init: "api_init ex_alib (ex_api pool_empty)"
  using ex_signers [of pool_empty] ex_hasher by (simp add: api_init_def ex_api_def)

lemma ex_api_reach: "reach (api_init ex_alib) (api_step ex_alib) (ex_api ex_pool1)"
proof -
  have "reach (api_init ex_alib) (api_step ex_alib) (ex_api pool_empty)" by (rule reach_init) (rule ex_api_init)
  then show ?thesis by (rule reach_step [where l = "()"]) (rule step_send [OF ex_send_first])
qed


theorem sent_unordered_witness:
  "send_transaction ex_alib 10 1 (ex_send 2) (ex_api ex_pool1) = Some (Ok 2, ex_api ex_pool2) \<and>
   (\<exists>t. ready_get 2 (ready_transactions ex_pool2) = Some t \<and> pt_requires (rf_transaction (rt_transaction t)) = [] \<and>
      pt_nonce (rf_transaction (rt_transaction t)) = 1) \<and>
   map pt_hash (iter_take 2 (get_transactions (ready_transactions ex_pool2))) = [2, 1]"
proof -
  have "er_from (ex_send 2) = Some 3" "er_nonce (ex_send 2) = None" by (simp_all add: ex_send_def)
  note sent = sent_unordered [OF ex_api_reach ex_send_second this, simplified, OF ex_collect(2) ex_highest_nonce ex_account]
  have "saturating_add (pt_nonce (ex_queued 1 0)) 1 = 1" by (simp add: saturating_add_def)
  with sent have "\<exists>t. ready_get 2 (ready_transactions ex_pool2) = Some t \<and> pt_requires (rf_transaction (rt_transaction t)) = [] \<and>
      pt_nonce (rf_transaction (rt_transaction t)) = 1"
    by auto
  then show ?thesis using ex_send_second ex_collect(3) by simp
qed

lemma ex_prefix: "list_prefix ex_rlp"
  by (auto simp: list_prefix_def ex_rlp_def ex_enc_def)

lemma ex_raw:
  "raw_pending (al_exec ex_alib) (ex_signed 1 0) 3 = pt_pending_transaction (ex_queued 1 0)"
  "current_nonce ex_alib 3 ex_backend = Ok 0"
  "send_raw_transaction ex_alib 10 0 (wire ex_rlp (ex_signed 1 0)) (ex_api pool_empty) = Some (Ok 1, ex_api ex_pool1)"
proof -
  show nonce: "current_nonce ex_alib 3 ex_backend = Ok 0" by (simp add: current_nonce_def ex_account)
  have pd: "pd_new ex_acrypto ex_rlp (ex_signed 1 0) = Ok (pt_pending_transaction (ex_queued 1 0))"
    by (simp add: pd_new_def ex_queued_def ex_signed_def legacy_hash_def)
  then show "raw_pending (al_exec ex_alib) (ex_signed 1 0) 3 = pt_pending_transaction (ex_queued 1 0)"
    by (simp add: raw_pending_def pd_new_def hash_wire)
  have "pool_transaction (ea_transaction_order (ex_api pool_empty)) 0 (pt_pending_transaction (ex_queued 1 0)) = Some (ex_queued 1 0)"
    by (simp add: pool_transaction_def ex_api_def as_u64_def required_marker_eq) (simp add: ex_queued_def ex_signed_def mi_new_def)
  moreover have "raw_transaction ex_alib ex_env (wire ex_rlp (ex_signed 1 0)) = Ok (ex_signed 1 0)"
    using raw_transaction_wire [of ex_alib ex_env "ex_signed 1 0"] ex_rlp_ok ex_prefix by (simp add: ex_signed_def)
  ultimately show "send_raw_transaction ex_alib 10 0 (wire ex_rlp (ex_signed 1 0)) (ex_api pool_empty) = Some (Ok 1, ex_api ex_pool1)"
    using ex_valid [of 0 1] by (simp add: send_raw_transaction_def pd nonce ex_submits)
qed

theorem raw_transaction_pooled_witness:
  "send_raw_transaction ex_alib 10 0 (wire ex_rlp (ex_signed 1 0)) (ex_api pool_empty) = Some (Ok 1, ex_api ex_pool1) \<and>
     1 \<in> ready_hashes (ready_transactions ex_pool1)"
proof -
  have init: "reach (api_init ex_alib) (api_step ex_alib) (ex_api pool_empty)" by (rule reach_init) (rule ex_api_init)
  have supported: "ensure_typed_transaction_supported (al_forks ex_alib) (bk_env (ea_backend (ex_api pool_empty))) (ex_signed 1 0) =
      (Ok () :: (unit, unit BlockchainError) result)" by (simp add: ex_signed_def)
  have valid: "validate_pool_transaction ex_alib 10 (raw_pending (al_exec ex_alib) (ex_signed 1 0) 3) (ea_backend (ex_api pool_empty)) = Some (Ok ())"
    using ex_valid [of 0 1] by (simp add: ex_raw(1))
  have new: "raw_hash (al_exec ex_alib) (ex_signed 1 0) \<notin> pool_hashes (ea_pool (ex_api pool_empty))" by (simp add: pool_eval)
  have "tx_nonce (ex_signed 1 0) = 0" by (simp add: ex_signed_def)
  with raw_transaction_pooled [OF init _ _ supported _ valid _ new, where k = 0 and instant = 0] ex_rlp_ok ex_prefix ex_raw(2,3)
  show ?thesis by simp
qed
end
