(* ===== verification/Trace.thy ===== *)
theory Trace
  imports Inspector
begin

text \<open>
  Call traces: the arena of the calls of an execution (\<open>evm/src/trace/mod.rs\<close>, \<open>evm/src/trace/node.rs\<close>), the
  inspector that fills it (\<open>evm/src/executor/inspector/tracer.rs\<close>) and the trace in the format of geth that is made
  of it.  What the interpreter and the journal of \<open>revm\<close> show to a callback is its argument, among it the
  gas that the gas inspector reports; names of instructions and hexadecimal strings are parameters.
\<close>

section \<open>Data\<close>

datatype (plugins only: code) CallKind = KindCall | KindStaticCall | KindCallCode | KindDelegateCall
  | KindCreate | KindCreate2

datatype CallScheme = SchemeCall | SchemeCallCode | SchemeDelegateCall | SchemeStaticCall

fun kind_of_call :: "CallScheme \<Rightarrow> CallKind" where
  "kind_of_call SchemeCall = KindCall"
| "kind_of_call SchemeStaticCall = KindStaticCall"
| "kind_of_call SchemeCallCode = KindCallCode"
| "kind_of_call SchemeDelegateCall = KindDelegateCall"

fun kind_of_create :: "CreateScheme \<Rightarrow> CallKind" where
  "kind_of_create Create = KindCreate"
| "kind_of_create (Create2 _) = KindCreate2"

text \<open>\<open>revm\<close>'s \<open>CallContext\<close>, of \<open>CallInputs\<close> the fields the tracer reads, and \<open>Gas\<close>.\<close>

record CallContext =
  cx_address :: Address
  cx_caller :: Address
  cx_code_address :: Address
  cx_apparent_value :: U256
  cx_scheme :: CallScheme

record TracedCall =
  tc_input :: bytes
  tc_value :: U256
  tc_context :: CallContext

record Gas =
  gs_spend :: u64
  gs_refunded :: u64

datatype Instruction = OpCode u8 | Cheatcode bytes

datatype RawOrDecodedCall = RawCall bytes | DecodedCall string string "string list"

datatype RawOrDecodedReturnData = RawReturn bytes | DecodedReturn string

datatype RawOrDecodedLog = RawLogData RawLog | DecodedLog string "(string \<times> string) list"

datatype LogCallOrder = OrderLog nat | OrderCall nat

text \<open>The error of a step is the name of its status; the model keeps the status.\<close>

record CallTraceStep =
  sp_depth :: u64
  sp_pc :: nat
  sp_op :: Instruction
  sp_contract :: Address
  sp_stack :: "U256 list"
  sp_memory :: bytes
  sp_gas :: u64
  sp_gas_refund_counter :: u64
  sp_gas_cost :: u64
  sp_state_diff :: "(U256 \<times> U256) option"
  sp_error :: "InstructionResult option"

record CallTrace =
  ct_depth :: nat
  ct_success :: bool
  ct_contract :: "string option"
  ct_label :: "string option"
  ct_caller :: Address
  ct_address :: Address
  ct_kind :: CallKind
  ct_value :: U256
  ct_data :: RawOrDecodedCall
  ct_output :: RawOrDecodedReturnData
  ct_gas_cost :: u64
  ct_status :: InstructionResult
  ct_call_context :: "CallContext option"
  ct_steps :: "CallTraceStep list"

definition call_trace_default :: CallTrace where
  "call_trace_default = \<lparr>ct_depth = 0, ct_success = False, ct_contract = None, ct_label = None, ct_caller = 0,
     ct_address = 0, ct_kind = KindCall, ct_value = 0, ct_data = RawCall [], ct_output = RawReturn [],
     ct_gas_cost = 0, ct_status = Continue, ct_call_context = None, ct_steps = []\<rparr>"

definition created :: "CallTrace \<Rightarrow> bool" where
  "created tr \<longleftrightarrow> ct_kind tr = KindCreate \<or> ct_kind tr = KindCreate2"

fun call_to_raw :: "RawOrDecodedCall \<Rightarrow> bytes" where
  "call_to_raw (RawCall raw) = raw"
| "call_to_raw (DecodedCall _ _ _) = []"

text \<open>\<open>RawOrDecodedReturnData::to_bytes\<close>; a decoded string consists of bytes.\<close>

fun return_to_bytes :: "RawOrDecodedReturnData \<Rightarrow> bytes" where
  "return_to_bytes (RawReturn raw) = raw"
| "return_to_bytes (DecodedReturn val) = map (\<lambda>c. of_nat (of_char c)) val"

record CallTraceNode =
  nd_parent :: "nat option"
  nd_children :: "nat list"
  nd_idx :: nat
  nd_trace :: CallTrace
  nd_logs :: "RawOrDecodedLog list"
  nd_ordering :: "LogCallOrder list"

definition node_default :: CallTraceNode where
  "node_default = \<lparr>nd_parent = None, nd_children = [], nd_idx = 0, nd_trace = call_trace_default, nd_logs = [],
     nd_ordering = []\<rparr>"

type_synonym CallTraceArena = "CallTraceNode list"

definition arena_default :: CallTraceArena where
  "arena_default = [node_default]"

section \<open>The arena\<close>

text \<open>
  \<open>push_trace\<close>: a trace of depth 0 takes the place of the root's; the parent of any other is searched from
  \<open>entry\<close> along the last children.
\<close>

definition add_child :: "nat \<Rightarrow> CallTrace \<Rightarrow> CallTraceArena \<Rightarrow> CallTraceArena" where
  "add_child entry tr arena =
     (let id = length arena; n = arena ! entry in
      arena[entry := n\<lparr>nd_ordering := nd_ordering n @ [OrderCall (length (nd_children n))],
                       nd_children := nd_children n @ [id]\<rparr>] @
      [node_default\<lparr>nd_parent := Some entry, nd_trace := tr, nd_idx := id\<rparr>])"

partial_function (option) push_trace :: "nat \<Rightarrow> CallTrace \<Rightarrow> CallTraceArena \<Rightarrow> (nat \<times> CallTraceArena) option" where
  "push_trace entry tr arena =
     (if ct_depth tr = 0 then
        (if arena = [] then None else Some (0, arena[0 := (arena ! 0)\<lparr>nd_trace := tr\<rparr>]))
      else if \<not> entry < length arena then None
      else if ct_depth (nd_trace (arena ! entry)) = ct_depth tr - 1 then
        Some (length arena, add_child entry tr arena)
      else if nd_children (arena ! entry) = [] then None
      else push_trace (last (nd_children (arena ! entry))) tr arena)"

text \<open>The addresses of the traces, with the code that was deployed there.\<close>

definition addresses :: "CallTraceArena \<Rightarrow> (Address \<times> bytes option) set" where
  "addresses arena = (\<lambda>n. (ct_address (nd_trace n),
     if created (nd_trace n) then (case ct_output (nd_trace n) of RawReturn bs \<Rightarrow> Some bs | DecodedReturn _ \<Rightarrow> None)
     else None)) ` set arena"

section \<open>The tracer\<close>

record Tracer =
  tr_record_steps :: bool
  tr_traces :: CallTraceArena
  tr_trace_stack :: "nat list"
  tr_step_stack :: "(nat \<times> nat) list"

text \<open>Both stacks are listed from their top.\<close>

definition tracer_default :: Tracer where
  "tracer_default = \<lparr>tr_record_steps = False, tr_traces = arena_default, tr_trace_stack = [], tr_step_stack = []\<rparr>"

definition with_steps_recording :: "Tracer \<Rightarrow> Tracer" where
  "with_steps_recording t = t\<lparr>tr_record_steps := True\<rparr>"

definition start_trace :: "u64 \<Rightarrow> Address \<Rightarrow> bytes \<Rightarrow> U256 \<Rightarrow> CallKind \<Rightarrow> Address \<Rightarrow> Tracer \<Rightarrow> Tracer option" where
  "start_trace d address data value kind caller t = do {
     (id, arena) \<leftarrow> push_trace 0 (call_trace_default\<lparr>ct_depth := unat d, ct_address := address, ct_kind := kind,
        ct_data := RawCall data, ct_value := value, ct_status := Continue, ct_caller := caller\<rparr>) (tr_traces t);
     Some (t\<lparr>tr_traces := arena, tr_trace_stack := id # tr_trace_stack t\<rparr>)
   }"

definition filled_trace :: "InstructionResult \<Rightarrow> u64 \<Rightarrow> bytes \<Rightarrow> Address option \<Rightarrow> CallTrace \<Rightarrow> CallTrace" where
  "filled_trace status cost output address tr =
     (let tr = tr\<lparr>ct_status := status, ct_success := return_ok status, ct_gas_cost := cost,
                  ct_output := RawReturn output\<rparr>
      in case address of Some a \<Rightarrow> tr\<lparr>ct_address := a\<rparr> | None \<Rightarrow> tr)"

definition update_node :: "nat \<Rightarrow> (CallTraceNode \<Rightarrow> CallTraceNode) \<Rightarrow> CallTraceArena \<Rightarrow> CallTraceArena option" where
  "update_node i f arena = (if i < length arena then Some (arena[i := f (arena ! i)]) else None)"

definition fill_trace :: "InstructionResult \<Rightarrow> u64 \<Rightarrow> bytes \<Rightarrow> Address option \<Rightarrow> Tracer \<Rightarrow> Tracer option" where
  "fill_trace status cost output address t =
     (case tr_trace_stack t of
        [] \<Rightarrow> None
      | i # rest \<Rightarrow> do {
          arena \<leftarrow> update_node i (\<lambda>n. n\<lparr>nd_trace := filled_trace status cost output address (nd_trace n)\<rparr>) (tr_traces t);
          Some (t\<lparr>tr_traces := arena, tr_trace_stack := rest\<rparr>)
        })"

section \<open>Steps\<close>

text \<open>
  What a step sees: the depth and the journal of \<open>JournaledState\<close>, the present value of a slot that the journal
  mentions (\<open>None\<close> is the panic of an index), and the gas that is left according to the gas inspector.
\<close>

datatype JournalEntry = StorageChange Address U256 | OtherEntry

record StepView =
  sv_depth :: u64
  sv_journal :: "JournalEntry list list"
  sv_present :: "Address \<Rightarrow> U256 \<Rightarrow> U256 option"
  sv_gas_remaining :: u64

definition new_step :: "Gas Interpreter \<Rightarrow> StepView \<Rightarrow> CallTraceStep option" where
  "new_step i v = do {
     opcode \<leftarrow> op_at i;
     Some \<lparr>sp_depth = sv_depth v, sp_pc = in_pc i, sp_op = OpCode opcode, sp_contract = in_address i,
       sp_stack = in_stack i, sp_memory = in_memory i, sp_gas = sv_gas_remaining v,
       sp_gas_refund_counter = gs_refunded (in_gas i), sp_gas_cost = 0, sp_state_diff = None, sp_error = None\<rparr>
   }"

definition start_step :: "Gas Interpreter \<Rightarrow> StepView \<Rightarrow> Tracer \<Rightarrow> Tracer option" where
  "start_step i v t =
     (case tr_trace_stack t of
        [] \<Rightarrow> None
      | idx # _ \<Rightarrow>
          if idx < length (tr_traces t) then do {
            step \<leftarrow> new_step i v;
            let trace = nd_trace (tr_traces t ! idx);
            Some (t\<lparr>tr_step_stack := (idx, length (ct_steps trace)) # tr_step_stack t,
                    tr_traces := (tr_traces t)[idx := (tr_traces t ! idx)\<lparr>
                      nd_trace := trace\<lparr>ct_steps := ct_steps trace @ [step]\<rparr>\<rparr>]\<rparr>)
          } else None)"

definition state_diff :: "u8 \<Rightarrow> StepView \<Rightarrow> (U256 \<times> U256) option option" where
  "state_diff op v =
     (if sv_journal v = [] then None
      else let entries = last (sv_journal v) in
        if (op = SLOAD \<or> op = SSTORE) \<and> entries \<noteq> [] then
          (case last entries of
             StorageChange address key \<Rightarrow> map_option (\<lambda>value. Some (key, value)) (sv_present v address key)
           | OtherEntry \<Rightarrow> Some None)
        else Some None)"

text \<open>\<open>status as u8 > OutOfGas as u8\<close>\<close>

fun beyond_out_of_gas :: "InstructionResult \<Rightarrow> bool" where
  "beyond_out_of_gas Continue = False"
| "beyond_out_of_gas Stop = False"
| "beyond_out_of_gas Return = False"
| "beyond_out_of_gas SelfDestruct = False"
| "beyond_out_of_gas Revert = False"
| "beyond_out_of_gas CallTooDeep = False"
| "beyond_out_of_gas OutOfFund = False"
| "beyond_out_of_gas OutOfGas = False"
| "beyond_out_of_gas _ = True"

definition filled_step :: "Gas Interpreter \<Rightarrow> StepView \<Rightarrow> InstructionResult \<Rightarrow> CallTraceStep \<Rightarrow> CallTraceStep option" where
  "filled_step i v status step = do {
     step \<leftarrow> (if in_pc i = 0 then Some step else do {
       op \<leftarrow> op_at (i\<lparr>in_pc := in_pc i - 1\<rparr>);
       diff \<leftarrow> state_diff op v;
       cost \<leftarrow> sub_chk (sp_gas step) (sv_gas_remaining v);
       Some (step\<lparr>sp_state_diff := diff, sp_gas_cost := cost\<rparr>)
     });
     Some (if beyond_out_of_gas status then step\<lparr>sp_error := Some status\<rparr> else step)
   }"

definition fill_step :: "Gas Interpreter \<Rightarrow> StepView \<Rightarrow> InstructionResult \<Rightarrow> Tracer \<Rightarrow> Tracer option" where
  "fill_step i v status t =
     (case tr_step_stack t of
        [] \<Rightarrow> None
      | (idx, k) # rest \<Rightarrow>
          if idx < length (tr_traces t) \<and> k < length (ct_steps (nd_trace (tr_traces t ! idx))) then do {
            let trace = nd_trace (tr_traces t ! idx);
            step \<leftarrow> filled_step i v status (ct_steps trace ! k);
            Some (t\<lparr>tr_step_stack := rest,
                    tr_traces := (tr_traces t)[idx := (tr_traces t ! idx)\<lparr>
                      nd_trace := trace\<lparr>ct_steps := (ct_steps trace)[k := step]\<rparr>\<rparr>]\<rparr>)
          } else None)"

section \<open>Callbacks\<close>

text \<open>
  The callbacks of the tracer.  Those of calls and creations hand on the results they are given, which is left
  out; \<open>SpecId\<close> is a number and \<open>tl_london\<close> the one of the London fork.
\<close>

record ('g, 'w, 'd, 'x, 'e, 'o) trace_lib =
  tl_journal :: "('x, 'e) journal_lib"
  tl_insp :: "('g, 'w, 'd, 'x, 'e, 'o) insp_lib"
  tl_london :: nat

definition gas_used :: "nat \<Rightarrow> nat \<Rightarrow> u64 \<Rightarrow> u64 \<Rightarrow> u64" where
  "gas_used london spec spent refunded =
     (let refund_quotient = if london \<le> spec then 5 else 2
      in spent - min refunded (spent div refund_quotient))"

definition tracer_step :: "Gas Interpreter \<Rightarrow> StepView \<Rightarrow> Tracer \<Rightarrow> (InstructionResult \<times> Tracer) option" where
  "tracer_step i v t =
     (if \<not> tr_record_steps t then Some (Continue, t)
      else map_option (\<lambda>t. (Continue, t)) (start_step i v t))"

definition tracer_step_end :: "Gas Interpreter \<Rightarrow> StepView \<Rightarrow> InstructionResult \<Rightarrow> Tracer \<Rightarrow>
    (InstructionResult \<times> Tracer) option" where
  "tracer_step_end i v status t =
     (if \<not> tr_record_steps t then Some (Continue, t)
      else map_option (\<lambda>t. (status, t)) (fill_step i v status t))"

definition tracer_log :: "H256 list \<Rightarrow> bytes \<Rightarrow> Tracer \<Rightarrow> Tracer option" where
  "tracer_log topics data t =
     (case tr_trace_stack t of
        [] \<Rightarrow> None
      | i # _ \<Rightarrow> do {
          arena \<leftarrow> update_node i (\<lambda>n. n\<lparr>
            nd_ordering := nd_ordering n @ [OrderLog (length (nd_logs n))],
            nd_logs := nd_logs n @ [RawLogData \<lparr>log_topics = topics, log_data = data\<rparr>]\<rparr>) (tr_traces t);
          Some (t\<lparr>tr_traces := arena\<rparr>)
        })"

definition tracer_call :: "'x EVMData \<Rightarrow> TracedCall \<Rightarrow> Tracer \<Rightarrow> Tracer option" where
  "tracer_call data inputs t =
     (let cx = tc_context inputs;
          (caller, to') = (case cx_scheme cx of
             SchemeDelegateCall \<Rightarrow> (cx_address cx, cx_code_address cx)
           | SchemeCallCode \<Rightarrow> (cx_address cx, cx_code_address cx)
           | _ \<Rightarrow> (cx_caller cx, cx_address cx))
      in start_trace (depth data) to' (tc_input inputs) (tc_value inputs) (kind_of_call (cx_scheme cx)) caller t)"

definition tracer_call_end :: "('g, 'w, 'd, 'x, 'e, 'o) trace_lib \<Rightarrow> 'x EVMData \<Rightarrow> Gas \<Rightarrow> InstructionResult \<Rightarrow> bytes \<Rightarrow>
    Tracer \<Rightarrow> Tracer option" where
  "tracer_call_end lib data gas status retdata t =
     fill_trace status (gas_used (tl_london lib) (cfg_spec_id (ed_env data)) (gs_spend gas) (gs_refunded gas))
       retdata None t"

definition tracer_create :: "('g, 'w, 'd, 'x, 'e, 'o) trace_lib \<Rightarrow> 'x EVMData \<Rightarrow> CreateInputs \<Rightarrow> Tracer \<Rightarrow>
    ('x EVMData \<times> Tracer) option" where
  "tracer_create lib data inputs t =
     (let data = data\<lparr>ed_journal := snd (jl_load_account (tl_journal lib) (cr_caller inputs) (ed_journal data))\<rparr>
      in do {
        acc \<leftarrow> fmlookup (js_state (ed_journal data)) (cr_caller inputs);
        t \<leftarrow> start_trace (depth data) (get_create_address (tl_insp lib) inputs (ac_nonce acc)) (cr_init_code inputs)
          (cr_value inputs) (kind_of_create (cr_scheme inputs)) (cr_caller inputs) t;
        Some (data, t)
      })"

text \<open>The code of the created account; \<open>None\<close> when the account is not loaded.\<close>

definition created_code :: "'x EVMData \<Rightarrow> Address option \<Rightarrow> bytes option" where
  "created_code data address =
     (case address of
        None \<Rightarrow> Some []
      | Some a \<Rightarrow> map_option (\<lambda>acc. case ac_code acc of Some code \<Rightarrow> code | None \<Rightarrow> [])
          (fmlookup (js_state (ed_journal data)) a))"

definition tracer_create_end :: "('g, 'w, 'd, 'x, 'e, 'o) trace_lib \<Rightarrow> 'x EVMData \<Rightarrow> InstructionResult \<Rightarrow>
    Address option \<Rightarrow> Gas \<Rightarrow> Tracer \<Rightarrow> Tracer option" where
  "tracer_create_end lib data status address gas t = do {
     code \<leftarrow> created_code data address;
     fill_trace status (gas_used (tl_london lib) (cfg_spec_id (ed_env data)) (gs_spend gas) (gs_refunded gas))
       code address t
   }"

section \<open>Traces in the format of geth\<close>

record GethOpts =
  go_disable_storage :: "bool option"
  go_disable_stack :: "bool option"
  go_enable_memory :: "bool option"

record geth_lib =
  gl_op_name :: "Instruction \<Rightarrow> string"
  gl_hex :: "bytes \<Rightarrow> string"

record StructLog =
  sl_depth :: u64
  sl_error :: "InstructionResult option"
  sl_gas :: u64
  sl_gas_cost :: u64
  sl_memory :: "string list option"
  sl_op :: string
  sl_pc :: u64
  sl_refund_counter :: "u64 option"
  sl_stack :: "U256 list option"
  sl_storage :: "(H256, H256) fmap option"

function convert_memory :: "geth_lib \<Rightarrow> bytes \<Rightarrow> string list" where
  "convert_memory lib data = (if data = [] then [] else gl_hex lib (take 32 data) # convert_memory lib (drop 32 data))"
  by pat_completeness auto
termination
  by (relation "measure (length \<circ> snd)") auto

declare convert_memory.simps [simp del]

definition struct_log :: "geth_lib \<Rightarrow> CallTraceStep \<Rightarrow> StructLog" where
  "struct_log lib step = \<lparr>sl_depth = sp_depth step, sl_error = sp_error step, sl_gas = sp_gas step,
     sl_gas_cost = sp_gas_cost step, sl_memory = Some (convert_memory lib (sp_memory step)),
     sl_op = gl_op_name lib (sp_op step), sl_pc = of_nat (sp_pc step),
     sl_refund_counter = (if 0 < sp_gas_refund_counter step then Some (sp_gas_refund_counter step) else None),
     sl_stack = Some (rev (sp_stack step)), sl_storage = None\<rparr>"

type_synonym geth_storage = "(Address, (H256, H256) fmap) fmap"

definition or_default :: "bool option \<Rightarrow> bool" where
  "or_default b = (b = Some True)"

text \<open>The body of the loop of \<open>add_to_geth_trace\<close> up to the push of the log.\<close>

definition geth_log :: "geth_lib \<Rightarrow> GethOpts \<Rightarrow> CallTraceStep \<Rightarrow> geth_storage \<Rightarrow> geth_storage \<times> StructLog" where
  "geth_log lib opts step storage =
     (let log = struct_log lib step;
          (storage, log) =
            (if or_default (go_disable_storage opts) then (storage, log)
             else let cs = (case fmlookup storage (sp_contract step) of Some m \<Rightarrow> m | None \<Rightarrow> fmempty)
               in case sp_state_diff step of
                 Some (key, value) \<Rightarrow>
                   (fmupd (sp_contract step) (fmupd key value cs) storage,
                    log\<lparr>sl_storage := Some (fmupd key value cs)\<rparr>)
               | None \<Rightarrow> (fmupd (sp_contract step) cs storage, log));
          log = (if or_default (go_disable_stack opts) then log\<lparr>sl_stack := None\<rparr> else log);
          log = (if or_default (go_enable_memory opts) then log else log\<lparr>sl_memory := None\<rparr>)
      in (storage, log))"

text \<open>\<open>CREATE\<close>, \<open>CREATE2\<close>, \<open>DELEGATECALL\<close>, \<open>CALL\<close>, \<open>STATICCALL\<close> and \<open>CALLCODE\<close>\<close>

fun is_call_op :: "Instruction \<Rightarrow> bool" where
  "is_call_op (OpCode opc) \<longleftrightarrow> opc \<in> {CREATE, CREATE2, 0xf4, 0xf1, 0xfa, 0xf2}"
| "is_call_op (Cheatcode _) \<longleftrightarrow> False"

text \<open>
  \<open>add_to_geth_trace\<close> from a step on: \<open>children\<close> are those of the node, \<open>child_id\<close> counts the steps that
  were calls.
\<close>

partial_function (option) add_to_geth_trace :: "geth_lib \<Rightarrow> GethOpts \<Rightarrow> CallTraceArena \<Rightarrow> nat list \<Rightarrow> nat \<Rightarrow>
    CallTraceStep list \<Rightarrow> geth_storage \<times> StructLog list \<Rightarrow> (geth_storage \<times> StructLog list) option" where
  "add_to_geth_trace lib opts arena children child_id steps acc =
     (case steps of
        [] \<Rightarrow> Some acc
      | step # rest \<Rightarrow>
          let (storage, log) = geth_log lib opts step (fst acc);
              acc = (storage, snd acc @ [log])
          in if is_call_op (sp_op step) then
               (if child_id < length children \<and> children ! child_id < length arena then do {
                  let child = arena ! (children ! child_id);
                  acc \<leftarrow> add_to_geth_trace lib opts arena (nd_children child) 0 (ct_steps (nd_trace child)) acc;
                  add_to_geth_trace lib opts arena children (Suc child_id) rest acc
                } else None)
             else add_to_geth_trace lib opts arena children child_id rest acc)"

record DefaultFrame =
  df_failed :: bool
  df_gas :: U256
  df_return_value :: bytes
  df_struct_logs :: "StructLog list"

definition geth_trace :: "geth_lib \<Rightarrow> CallTraceArena \<Rightarrow> U256 \<Rightarrow> GethOpts \<Rightarrow> DefaultFrame option" where
  "geth_trace lib arena receipt_gas_used opts =
     (case arena of
        [] \<Rightarrow> Some \<lparr>df_failed = False, df_gas = 0, df_return_value = [], df_struct_logs = []\<rparr>
      | main # _ \<Rightarrow> do {
          (storage, logs) \<leftarrow>
            add_to_geth_trace lib opts arena (nd_children main) 0 (ct_steps (nd_trace main)) (fmempty, []);
          Some \<lparr>df_failed = \<not> ct_success (nd_trace main), df_gas = receipt_gas_used,
                df_return_value = return_to_bytes (ct_output (nd_trace main)), df_struct_logs = logs\<rparr>
        })"

end
