(* ===== verification/TraceSpec.thy ===== *)
theory TraceSpec
  imports Trace
begin

text \<open>
  What the tracer records.  An execution is a tree of frames, each with what happens in it in order: logs, calls
  and steps, a step being everything between its two callbacks.  Running the tracer on an execution builds an arena
  that represents this tree (\<open>represents\<close>), and the trace in the format of geth lists its steps in the order of
  execution.
\<close>

section \<open>Executions\<close>

datatype 'x call_begin = ByCall "'x EVMData" TracedCall | ByCreate "'x EVMData" CreateInputs

datatype 'x call_finish = CallFinish "'x EVMData" Gas InstructionResult bytes
  | CreateFinish "'x EVMData" InstructionResult "Address option" Gas

datatype 'x frame = Frame "'x call_begin" "'x items" "'x call_finish"
and 'x items = Done
  | LogItem "H256 list" bytes "'x items"
  | CallItem "'x frame" "'x items"
  | StepItem "Gas Interpreter" StepView "'x items" "Gas Interpreter" StepView InstructionResult "'x items"

fun run_begin :: "('g, 'w, 'd, 'x, 'e, 'o) trace_lib \<Rightarrow> 'x call_begin \<Rightarrow> Tracer \<Rightarrow> Tracer option" where
  "run_begin lib (ByCall data inputs) t = tracer_call data inputs t"
| "run_begin lib (ByCreate data inputs) t = map_option snd (tracer_create lib data inputs t)"

fun run_finish :: "('g, 'w, 'd, 'x, 'e, 'o) trace_lib \<Rightarrow> 'x call_finish \<Rightarrow> Tracer \<Rightarrow> Tracer option" where
  "run_finish lib (CallFinish data gas status ret) t = tracer_call_end lib data gas status ret t"
| "run_finish lib (CreateFinish data status address gas) t = tracer_create_end lib data status address gas t"

fun run_frame :: "('g, 'w, 'd, 'x, 'e, 'o) trace_lib \<Rightarrow> 'x frame \<Rightarrow> Tracer \<Rightarrow> Tracer option"
and run_items :: "('g, 'w, 'd, 'x, 'e, 'o) trace_lib \<Rightarrow> 'x items \<Rightarrow> Tracer \<Rightarrow> Tracer option" where
  "run_frame lib (Frame b items e) t = do {
     t \<leftarrow> run_begin lib b t;
     t \<leftarrow> run_items lib items t;
     run_finish lib e t
   }"
| "run_items lib Done t = Some t"
| "run_items lib (LogItem topics data rest) t = do {
     t \<leftarrow> tracer_log topics data t;
     run_items lib rest t
   }"
| "run_items lib (CallItem f rest) t = do {
     t \<leftarrow> run_frame lib f t;
     run_items lib rest t
   }"
| "run_items lib (StepItem i v inner i' v' status rest) t = do {
     (_, t) \<leftarrow> tracer_step i v t;
     t \<leftarrow> run_items lib inner t;
     (_, t) \<leftarrow> tracer_step_end i' v' status t;
     run_items lib rest t
   }"

section \<open>What an execution consists of\<close>

text \<open>The trace that a call opens, and how its end fills it.\<close>

fun opened :: "('g, 'w, 'd, 'x, 'e, 'o) trace_lib \<Rightarrow> 'x call_begin \<Rightarrow> CallTrace option" where
  "opened lib (ByCall data inputs) =
     (let cx = tc_context inputs; code = cx_scheme cx \<in> {SchemeDelegateCall, SchemeCallCode}
      in Some (call_trace_default\<lparr>ct_depth := unat (depth data),
           ct_address := (if code then cx_code_address cx else cx_address cx),
           ct_kind := kind_of_call (cx_scheme cx), ct_data := RawCall (tc_input inputs), ct_value := tc_value inputs,
           ct_caller := (if code then cx_address cx else cx_caller cx)\<rparr>))"
| "opened lib (ByCreate data inputs) =
     (let j = snd (jl_load_account (tl_journal lib) (cr_caller inputs) (ed_journal data))
      in map_option (\<lambda>acc. call_trace_default\<lparr>ct_depth := unat (js_depth j),
           ct_address := get_create_address (tl_insp lib) inputs (ac_nonce acc),
           ct_kind := kind_of_create (cr_scheme inputs), ct_data := RawCall (cr_init_code inputs),
           ct_value := cr_value inputs, ct_caller := cr_caller inputs\<rparr>)
         (fmlookup (js_state j) (cr_caller inputs)))"

fun closed :: "('g, 'w, 'd, 'x, 'e, 'o) trace_lib \<Rightarrow> 'x call_finish \<Rightarrow> (CallTrace \<Rightarrow> CallTrace) option" where
  "closed lib (CallFinish data gas status ret) =
     Some (filled_trace status (gas_used (tl_london lib) (cfg_spec_id (ed_env data)) (gs_spend gas) (gs_refunded gas))
       ret None)"
| "closed lib (CreateFinish data status address gas) =
     map_option (\<lambda>code. filled_trace status
         (gas_used (tl_london lib) (cfg_spec_id (ed_env data)) (gs_spend gas) (gs_refunded gas)) code address)
       (created_code data address)"

definition step_result :: "Gas Interpreter \<Rightarrow> StepView \<Rightarrow> Gas Interpreter \<Rightarrow> StepView \<Rightarrow> InstructionResult \<Rightarrow>
    CallTraceStep option" where
  "step_result i v i' v' status = do { s \<leftarrow> new_step i v; filled_step i' v' status s }"

text \<open>The logs, calls and steps of one frame, and the order of its logs and calls.\<close>

fun logs_of :: "'x items \<Rightarrow> RawOrDecodedLog list" where
  "logs_of Done = []"
| "logs_of (LogItem topics data rest) = RawLogData \<lparr>log_topics = topics, log_data = data\<rparr> # logs_of rest"
| "logs_of (CallItem f rest) = logs_of rest"
| "logs_of (StepItem i v inner i' v' status rest) = logs_of inner @ logs_of rest"

fun calls_of :: "'x items \<Rightarrow> 'x frame list" where
  "calls_of Done = []"
| "calls_of (LogItem topics data rest) = calls_of rest"
| "calls_of (CallItem f rest) = f # calls_of rest"
| "calls_of (StepItem i v inner i' v' status rest) = calls_of inner @ calls_of rest"

fun steps_of :: "'x items \<Rightarrow> CallTraceStep list" where
  "steps_of Done = []"
| "steps_of (LogItem topics data rest) = steps_of rest"
| "steps_of (CallItem f rest) = steps_of rest"
| "steps_of (StepItem i v inner i' v' status rest) = the (step_result i v i' v' status) # steps_of inner @ steps_of rest"

fun order_of :: "nat \<Rightarrow> nat \<Rightarrow> 'x items \<Rightarrow> LogCallOrder list" where
  "order_of nl nc Done = []"
| "order_of nl nc (LogItem topics data rest) = OrderLog nl # order_of (Suc nl) nc rest"
| "order_of nl nc (CallItem f rest) = OrderCall nc # order_of nl (Suc nc) rest"
| "order_of nl nc (StepItem i v inner i' v' status rest) =
     order_of nl nc inner @ order_of (nl + length (logs_of inner)) (nc + length (calls_of inner)) rest"

text \<open>
  The executions the tracer is called with: the depth grows by one with every call, the accounts that create or
  are created are loaded, and the steps, if they are recorded, are inside the code and do not gain gas.
\<close>

fun frame_ok :: "('g, 'w, 'd, 'x, 'e, 'o) trace_lib \<Rightarrow> bool \<Rightarrow> nat \<Rightarrow> 'x frame \<Rightarrow> bool"
and items_ok :: "('g, 'w, 'd, 'x, 'e, 'o) trace_lib \<Rightarrow> bool \<Rightarrow> nat \<Rightarrow> 'x items \<Rightarrow> bool" where
  "frame_ok lib r d (Frame b items e) \<longleftrightarrow>
     (case opened lib b of Some tr \<Rightarrow> ct_depth tr = d | None \<Rightarrow> False) \<and> closed lib e \<noteq> None \<and>
     items_ok lib r (Suc d) items"
| "items_ok lib r d Done \<longleftrightarrow> True"
| "items_ok lib r d (LogItem topics data rest) \<longleftrightarrow> items_ok lib r d rest"
| "items_ok lib r d (CallItem f rest) \<longleftrightarrow> frame_ok lib r d f \<and> items_ok lib r d rest"
| "items_ok lib r d (StepItem i v inner i' v' status rest) \<longleftrightarrow>
     (r \<longrightarrow> step_result i v i' v' status \<noteq> None) \<and> items_ok lib r d inner \<and> items_ok lib r d rest"

fun frames :: "'x frame \<Rightarrow> nat" and frames_items :: "'x items \<Rightarrow> nat" where
  "frames (Frame b items e) = Suc (frames_items items)"
| "frames_items Done = 0"
| "frames_items (LogItem topics data rest) = frames_items rest"
| "frames_items (CallItem f rest) = frames f + frames_items rest"
| "frames_items (StepItem i v inner i' v' status rest) = frames_items inner + frames_items rest"

definition frame_trace :: "('g, 'w, 'd, 'x, 'e, 'o) trace_lib \<Rightarrow> bool \<Rightarrow> 'x frame \<Rightarrow> CallTrace" where
  "frame_trace lib r f =
     (case f of Frame b items e \<Rightarrow>
        the (closed lib e) ((the (opened lib b))\<lparr>ct_steps := if r then steps_of items else []\<rparr>))"

text \<open>The node \<open>i\<close> of the arena is the root of a tree of nodes for the frame.\<close>

inductive represents :: "('g, 'w, 'd, 'x, 'e, 'o) trace_lib \<Rightarrow> bool \<Rightarrow> CallTraceArena \<Rightarrow> nat \<Rightarrow> 'x frame \<Rightarrow> bool"
  for lib r A where
  represents:
    "i < length A \<Longrightarrow> nd_idx (A ! i) = i \<Longrightarrow> nd_trace (A ! i) = frame_trace lib r (Frame b items e) \<Longrightarrow>
     nd_ordering (A ! i) = order_of 0 0 items \<Longrightarrow> nd_logs (A ! i) = logs_of items \<Longrightarrow>
     list_all2 (\<lambda>c f. i < c \<and> nd_parent (A ! c) = Some i \<and> represents lib r A c f) (nd_children (A ! i)) (calls_of items) \<Longrightarrow>
     represents lib r A i (Frame b items e)"

inductive_cases representsE: "represents lib r A i (Frame b items e)"

section \<open>The spine of open calls\<close>

text \<open>The open calls are the last children, from the root on, at depths 0, 1, 2 and so on.\<close>

fun spine :: "CallTraceArena \<Rightarrow> nat list \<Rightarrow> bool" where
  "spine A [] \<longleftrightarrow> False"
| "spine A [i] \<longleftrightarrow> i = 0 \<and> 0 < length A \<and> ct_depth (nd_trace (A ! 0)) = 0"
| "spine A (c # i # s) \<longleftrightarrow> i < c \<and> c < length A \<and> nd_children (A ! i) \<noteq> [] \<and> last (nd_children (A ! i)) = c \<and>
     ct_depth (nd_trace (A ! c)) = length (i # s) \<and> spine A (i # s)"

lemma spine_less: "spine A (c # s) \<Longrightarrow> c < length A"
  by (cases s) auto

lemma spine_depth: "spine A (c # s) \<Longrightarrow> ct_depth (nd_trace (A ! c)) = length s"
  by (cases s) auto

lemma spine_suffix: "spine A (xs @ i # s) \<Longrightarrow> spine A (i # s)"
proof (induction xs)
  case (Cons x xs)
  then have "spine A (xs @ i # s)" by (cases "xs @ i # s") auto
  then show ?case by (rule Cons.IH)
qed simp

lemma push_trace_along:
  assumes "spine A (xs @ i # s)" "ct_depth tr = Suc (length (xs @ s))"
  shows "push_trace i tr A = Some (length A, add_child (hd (xs @ [i])) tr A)"
  using assms
proof (induction xs arbitrary: i s rule: rev_induct)
  case Nil
  then show ?case using spine_less [of A i s] spine_depth [of A i s] by (subst push_trace.simps) simp
next
  case (snoc c xs)
  from snoc.prems(1) have "spine A (xs @ c # i # s)" by simp
  note IH = snoc.IH [OF this] and sp = spine_suffix [OF this]
  have "push_trace c tr A = Some (length A, add_child (hd (xs @ [c])) tr A)"
    using snoc.prems(2) by (intro IH) simp
  moreover have "hd (xs @ [c]) = hd ((xs @ [c]) @ [i])" by (cases xs) simp_all
  moreover have "ct_depth (nd_trace (A ! i)) = length s" "i < length A"
    using sp spine_depth [of A i s] spine_less [of A i s] by auto
  ultimately show ?case using snoc.prems(2) sp by (subst push_trace.simps) simp
qed

lemma push_trace_spine:
  assumes "spine A (p # s)" "ct_depth tr = Suc (length s)"
  shows "push_trace 0 tr A = Some (length A, add_child p tr A)"
proof -
  have last: "last (p # s) = 0" using assms(1)
    by (induction s arbitrary: p) auto
  obtain xs where xs: "p # s = xs @ [0]"
    by (metis last append_butlast_last_id list.distinct(1))
  then have "length s = length xs" by (metis length_Cons length_append_singleton nat.inject)
  moreover have "hd (xs @ [0]) = p" by (simp flip: xs)
  ultimately show ?thesis using push_trace_along [of A xs 0 "[]" tr] assms xs by simp
qed

lemma spine_frame:
  assumes "spine A (p # s)" "length A \<le> length A'" "\<And>j. j < p \<Longrightarrow> A' ! j = A ! j"
    "ct_depth (nd_trace (A' ! p)) = ct_depth (nd_trace (A ! p))"
  shows "spine A' (p # s)"
  using assms
proof (induction s arbitrary: p)
  case (Cons i s)
  then have "spine A' (i # s)" by (intro Cons.IH) auto
  with Cons.prems show ?case by auto
qed auto

section \<open>How the arena grows\<close>

text \<open>
  What happens in the call at node \<open>p\<close> appends to this node and adds the trees of the calls it makes; every
  other node stays as it is.
\<close>

definition grown :: "('g, 'w, 'd, 'x, 'e, 'o) trace_lib \<Rightarrow> bool \<Rightarrow> CallTraceArena \<Rightarrow> nat \<Rightarrow> CallTraceStep list \<Rightarrow>
    RawOrDecodedLog list \<Rightarrow> 'x frame list \<Rightarrow> LogCallOrder list \<Rightarrow> CallTraceArena \<Rightarrow> bool" where
  "grown lib r A p steps logs fs os A' \<longleftrightarrow>
     length A' = length A + sum_list (map frames fs) \<and> p < length A \<and> (\<forall>j < length A. j \<noteq> p \<longrightarrow> A' ! j = A ! j) \<and>
     (\<exists>cs. A' ! p = (A ! p)\<lparr>nd_children := nd_children (A ! p) @ cs,
          nd_trace := (nd_trace (A ! p))\<lparr>ct_steps := ct_steps (nd_trace (A ! p)) @ steps\<rparr>,
          nd_logs := nd_logs (A ! p) @ logs, nd_ordering := nd_ordering (A ! p) @ os\<rparr> \<and>
        list_all2 (\<lambda>c f. length A \<le> c \<and> c < length A' \<and> nd_parent (A' ! c) = Some p \<and> represents lib r A' c f) cs fs)"

lemma represents_agree:
  assumes "represents lib r A i f" "length A \<le> length A'" "\<And>j. i \<le> j \<Longrightarrow> j < length A \<Longrightarrow> A' ! j = A ! j"
  shows "represents lib r A' i f"
  using assms(1,3)
proof (induction rule: represents.induct)
  case (represents i b items e)
  have i: "A' ! i = A ! i" using represents by simp
  have child: "i < c \<and> nd_parent (A' ! c) = Some i \<and> represents lib r A' c f"
    if "i < c" "nd_parent (A ! c) = Some i" "represents lib r A c f"
      "(\<forall>j. c \<le> j \<longrightarrow> j < length A \<longrightarrow> A' ! j = A ! j) \<longrightarrow> represents lib r A' c f" for c f
  proof -
    have "c < length A" using that(3) by (cases rule: represents.cases)
    then show ?thesis using that represents.prems by simp
  qed
  have "list_all2 (\<lambda>c f. i < c \<and> nd_parent (A' ! c) = Some i \<and> represents lib r A' c f) (nd_children (A ! i)) (calls_of items)"
    by (rule list_all2_mono [OF represents.IH]) (use child in auto)
  then show ?case using represents.hyps assms(2) by (intro represents.intros) (simp_all add: i)
qed

lemma grown_empty: "p < length A \<Longrightarrow> grown lib r A p [] [] [] [] A"
  by (simp add: grown_def)

lemma grown_trans:
  assumes "grown lib r A p s1 l1 f1 o1 A1" "grown lib r A1 p s2 l2 f2 o2 A2"
  shows "grown lib r A p (s1 @ s2) (l1 @ l2) (f1 @ f2) (o1 @ o2) A2"
proof -
  from assms(1) obtain c1 where c1: "A1 ! p = (A ! p)\<lparr>nd_children := nd_children (A ! p) @ c1,
          nd_trace := (nd_trace (A ! p))\<lparr>ct_steps := ct_steps (nd_trace (A ! p)) @ s1\<rparr>,
          nd_logs := nd_logs (A ! p) @ l1, nd_ordering := nd_ordering (A ! p) @ o1\<rparr>"
      "list_all2 (\<lambda>c f. length A \<le> c \<and> c < length A1 \<and> nd_parent (A1 ! c) = Some p \<and> represents lib r A1 c f) c1 f1"
    by (auto simp: grown_def)
  from assms(2) obtain c2 where c2: "A2 ! p = (A1 ! p)\<lparr>nd_children := nd_children (A1 ! p) @ c2,
          nd_trace := (nd_trace (A1 ! p))\<lparr>ct_steps := ct_steps (nd_trace (A1 ! p)) @ s2\<rparr>,
          nd_logs := nd_logs (A1 ! p) @ l2, nd_ordering := nd_ordering (A1 ! p) @ o2\<rparr>"
      "list_all2 (\<lambda>c f. length A1 \<le> c \<and> c < length A2 \<and> nd_parent (A2 ! c) = Some p \<and> represents lib r A2 c f) c2 f2"
    by (auto simp: grown_def)
  have len: "length A \<le> length A1" "length A1 \<le> length A2" "p < length A"
    using assms by (auto simp: grown_def)
  have same: "A2 ! j = A1 ! j" if "j < length A1" "j \<noteq> p" for j
    using assms(2) that by (auto simp: grown_def)
  have "list_all2 (\<lambda>c f. length A \<le> c \<and> c < length A2 \<and> nd_parent (A2 ! c) = Some p \<and> represents lib r A2 c f) c1 f1"
    using c1(2)
  proof (rule list_all2_mono, safe)
    fix c f assume c: "length A \<le> c" "c < length A1" "nd_parent (A1 ! c) = Some p" "represents lib r A1 c f"
    show "nd_parent (A2 ! c) = Some p" using c same [of c] len by simp
    show "represents lib r A2 c f" using c len same by (intro represents_agree [OF c(4)]) auto
  qed (use len in auto)
  moreover have "list_all2 (\<lambda>c f. length A \<le> c \<and> c < length A2 \<and> nd_parent (A2 ! c) = Some p \<and> represents lib r A2 c f) c2 f2"
    using c2(2) by (rule list_all2_mono) (use len in auto)
  ultimately show ?thesis
    using assms c1(1) c2(1) by (auto simp: grown_def intro!: exI [of _ "c1 @ c2"] list_all2_appendI)
qed

lemma frames_items_sum: "frames_items items = sum_list (map frames (calls_of items))"
  by (induction items rule: calls_of.induct) simp_all

section \<open>Running the tracer\<close>

lemma opened_fresh: "opened lib b = Some tr \<Longrightarrow> ct_steps tr = []"
  by (cases b) (auto simp: call_trace_default_def Let_def)

lemma run_begin_opened:
  assumes "opened lib b = Some tr"
  shows "run_begin lib b t = map_option (\<lambda>(id, A). t\<lparr>tr_traces := A, tr_trace_stack := id # tr_trace_stack t\<rparr>)
           (push_trace 0 tr (tr_traces t))"
proof (cases b)
  case (ByCall data inputs)
  then show ?thesis using assms
    by (cases "cx_scheme (tc_context inputs)")
      (auto simp: tracer_call_def start_trace_def call_trace_default_def Let_def bind_eq_None_conv
        split: option.splits bind_splits)
next
  case (ByCreate data inputs)
  then show ?thesis using assms
    by (auto simp: tracer_create_def start_trace_def call_trace_default_def Let_def depth_def
        split: option.splits bind_splits)
qed

lemma run_finish_closed:
  assumes "closed lib e = Some g" "tr_trace_stack t = c # s" "c < length (tr_traces t)"
  shows "run_finish lib e t = Some (t\<lparr>tr_traces := (tr_traces t)[c := (tr_traces t ! c)\<lparr>
           nd_trace := g (nd_trace (tr_traces t ! c))\<rparr>], tr_trace_stack := s\<rparr>)"
  using assms
  by (cases e) (auto simp: tracer_call_end_def tracer_create_end_def fill_trace_def update_node_def)

lemma spine_call:
  assumes "spine A (p # s)" "ct_depth tr = Suc (length s)"
  shows "spine (add_child p tr A) (length A # p # s)"
proof -
  have p: "p < length A" using assms(1) by (rule spine_less)
  have "spine (add_child p tr A) (p # s)"
    by (rule spine_frame [OF assms(1)]) (use p in \<open>auto simp: add_child_def Let_def nth_append\<close>)
  then show ?thesis using p assms(2) by (simp add: add_child_def Let_def nth_append)
qed

lemma grown_spine:
  assumes "spine A (p # s)" "grown lib r A p steps logs fs os A'"
  shows "spine A' (p # s)"
  by (rule spine_frame [OF assms(1)]) (use assms(2) spine_less [OF assms(1)] in \<open>auto simp: grown_def\<close>)

lemma grown_log:
  "p < length A \<Longrightarrow> grown lib r A p [] [l] [] [OrderLog (length (nd_logs (A ! p)))]
     (A[p := (A ! p)\<lparr>nd_ordering := nd_ordering (A ! p) @ [OrderLog (length (nd_logs (A ! p)))],
                      nd_logs := nd_logs (A ! p) @ [l]\<rparr>])"
  by (simp add: grown_def)

lemma grown_step:
  assumes "p < length A"
    and "grown lib r (A[p := (A ! p)\<lparr>nd_trace := (nd_trace (A ! p))\<lparr>ct_steps := ct_steps (nd_trace (A ! p)) @ [s]\<rparr>\<rparr>])
           p steps logs fs os A2"
  shows "grown lib r A p (s' # steps) logs fs os (A2[p := (A2 ! p)\<lparr>nd_trace := (nd_trace (A2 ! p))\<lparr>
           ct_steps := (ct_steps (nd_trace (A2 ! p)))[length (ct_steps (nd_trace (A ! p))) := s']\<rparr>\<rparr>])"
    (is "grown _ _ _ _ _ _ _ _ ?A3")
proof -
  from assms obtain cs where cs: "A2 ! p = (A ! p)\<lparr>nd_children := nd_children (A ! p) @ cs,
          nd_trace := (nd_trace (A ! p))\<lparr>ct_steps := ct_steps (nd_trace (A ! p)) @ s # steps\<rparr>,
          nd_logs := nd_logs (A ! p) @ logs, nd_ordering := nd_ordering (A ! p) @ os\<rparr>"
      "list_all2 (\<lambda>c f. length A \<le> c \<and> c < length A2 \<and> nd_parent (A2 ! c) = Some p \<and> represents lib r A2 c f) cs fs"
    by (auto simp: grown_def)
  have len: "length A2 = length A + sum_list (map frames fs)" and same: "\<And>j. j < length A \<Longrightarrow> j \<noteq> p \<Longrightarrow> A2 ! j = A ! j"
    using assms by (auto simp: grown_def)
  have "list_all2 (\<lambda>c f. length A \<le> c \<and> c < length ?A3 \<and> nd_parent (?A3 ! c) = Some p \<and> represents lib r ?A3 c f) cs fs"
    by (rule list_all2_mono [OF cs(2)]) (use assms(1) in \<open>auto intro: represents_agree\<close>)
  then show ?thesis
    using assms(1) len same cs(1) by (auto simp: grown_def intro!: exI [of _ cs])
qed

lemma grown_call:
  assumes p: "p < length A" and b: "opened lib b = Some tr" and e: "closed lib e = Some g"
    and g: "grown lib r (add_child p tr A) (length A) (if r then steps_of items else []) (logs_of items)
              (calls_of items) (order_of 0 0 items) A2"
  shows "grown lib r A p [] [] [Frame b items e] [OrderCall (length (nd_children (A ! p)))]
           (A2[length A := (A2 ! length A)\<lparr>nd_trace := g (nd_trace (A2 ! length A))\<rparr>])" (is "grown _ _ _ _ _ _ _ _ ?A3")
proof -
  let ?A1 = "add_child p tr A" and ?n = "length A"
  have A1: "length ?A1 = Suc ?n" "?A1 ! ?n = node_default\<lparr>nd_parent := Some p, nd_trace := tr, nd_idx := ?n\<rparr>"
    "?A1 ! p = (A ! p)\<lparr>nd_ordering := nd_ordering (A ! p) @ [OrderCall (length (nd_children (A ! p)))],
       nd_children := nd_children (A ! p) @ [?n]\<rparr>"
    "\<And>j. j < ?n \<Longrightarrow> j \<noteq> p \<Longrightarrow> ?A1 ! j = A ! j"
    using p by (auto simp: add_child_def Let_def nth_append)
  from g obtain cs where cs: "A2 ! ?n = (?A1 ! ?n)\<lparr>nd_children := cs,
          nd_trace := tr\<lparr>ct_steps := (if r then steps_of items else [])\<rparr>,
          nd_logs := logs_of items, nd_ordering := order_of 0 0 items\<rparr>"
      "list_all2 (\<lambda>c f. Suc ?n \<le> c \<and> c < length A2 \<and> nd_parent (A2 ! c) = Some ?n \<and> represents lib r A2 c f) cs (calls_of items)"
    using A1 opened_fresh [OF b] by (auto simp: grown_def node_default_def)
  have len: "length A2 = Suc ?n + frames_items items" and same: "\<And>j. j < ?n \<Longrightarrow> A2 ! j = ?A1 ! j"
    using g A1(1) by (auto simp: grown_def frames_items_sum)
  have "list_all2 (\<lambda>c f. ?n < c \<and> nd_parent (?A3 ! c) = Some ?n \<and> represents lib r ?A3 c f) cs (calls_of items)"
    by (rule list_all2_mono [OF cs(2)]) (auto intro: represents_agree)
  then have "represents lib r ?A3 ?n (Frame b items e)"
    using len cs(1) A1(2) b e by (intro represents.intros) (simp_all add: frame_trace_def)
  then show ?thesis
    using p len cs(1) A1 same by (auto simp: grown_def frames_items_sum intro!: exI [of _ "[?n]"])
qed

text \<open>Running a frame, or what happens in one, from inside the open call \<open>p\<close>.\<close>

definition frame_grows :: "('g, 'w, 'd, 'x, 'e, 'o) trace_lib \<Rightarrow> 'x frame \<Rightarrow> bool" where
  "frame_grows lib f \<longleftrightarrow> (\<forall>t p s. spine (tr_traces t) (p # s) \<longrightarrow> tr_trace_stack t = p # s \<longrightarrow>
     frame_ok lib (tr_record_steps t) (Suc (length s)) f \<longrightarrow>
     (\<exists>A'. run_frame lib f t = Some (t\<lparr>tr_traces := A'\<rparr>) \<and>
       grown lib (tr_record_steps t) (tr_traces t) p [] [] [f] [OrderCall (length (nd_children (tr_traces t ! p)))] A'))"

definition items_grow :: "('g, 'w, 'd, 'x, 'e, 'o) trace_lib \<Rightarrow> 'x items \<Rightarrow> bool" where
  "items_grow lib items \<longleftrightarrow> (\<forall>t p s. spine (tr_traces t) (p # s) \<longrightarrow> tr_trace_stack t = p # s \<longrightarrow>
     items_ok lib (tr_record_steps t) (Suc (length s)) items \<longrightarrow>
     (\<exists>A'. run_items lib items t = Some (t\<lparr>tr_traces := A'\<rparr>) \<and>
       grown lib (tr_record_steps t) (tr_traces t) p (if tr_record_steps t then steps_of items else []) (logs_of items)
         (calls_of items) (order_of (length (nd_logs (tr_traces t ! p))) (length (nd_children (tr_traces t ! p))) items) A'))"

lemma frame_growsD:
  assumes "frame_grows lib f" "spine (tr_traces t) (p # s)" "tr_trace_stack t = p # s"
    "frame_ok lib (tr_record_steps t) (Suc (length s)) f"
  obtains A' where "run_frame lib f t = Some (t\<lparr>tr_traces := A'\<rparr>)"
    "grown lib (tr_record_steps t) (tr_traces t) p [] [] [f] [OrderCall (length (nd_children (tr_traces t ! p)))] A'"
  using assms unfolding frame_grows_def by blast

lemma items_growD:
  assumes "items_grow lib items" "spine (tr_traces t) (p # s)" "tr_trace_stack t = p # s"
    "items_ok lib (tr_record_steps t) (Suc (length s)) items"
  obtains A' where "run_items lib items t = Some (t\<lparr>tr_traces := A'\<rparr>)"
    "grown lib (tr_record_steps t) (tr_traces t) p (if tr_record_steps t then steps_of items else []) (logs_of items)
       (calls_of items) (order_of (length (nd_logs (tr_traces t ! p))) (length (nd_children (tr_traces t ! p))) items) A'"
  using assms unfolding items_grow_def by blast

lemma grows_Frame:
  assumes "items_grow lib items"
  shows "frame_grows lib (Frame b items e)"
  unfolding frame_grows_def
proof (intro allI impI)
  fix t :: Tracer and p s
  let ?A = "tr_traces t"
  assume sp: "spine ?A (p # s)" and st: "tr_trace_stack t = p # s"
    and "frame_ok lib (tr_record_steps t) (Suc (length s)) (Frame b items e)"
  then obtain tr g where tr: "opened lib b = Some tr" "ct_depth tr = Suc (length s)"
    and g: "closed lib e = Some g" and items: "items_ok lib (tr_record_steps t) (Suc (Suc (length s))) items"
    by (auto split: option.splits)
  define t1 where "t1 = t\<lparr>tr_traces := add_child p tr ?A, tr_trace_stack := length ?A # p # s\<rparr>"
  have b: "run_begin lib b t = Some t1"
    using push_trace_spine [OF sp tr(2)] st by (simp add: run_begin_opened [OF tr(1)] t1_def)
  have "nd_logs (tr_traces t1 ! length ?A) = []" "nd_children (tr_traces t1 ! length ?A) = []"
    by (simp_all add: t1_def add_child_def Let_def node_default_def nth_append)
  then obtain A2 where A2: "run_items lib items t1 = Some (t1\<lparr>tr_traces := A2\<rparr>)"
    "grown lib (tr_record_steps t) (add_child p tr ?A) (length ?A) (if tr_record_steps t then steps_of items else [])
       (logs_of items) (calls_of items) (order_of 0 0 items) A2"
    using items_growD [OF assms, of t1 "length ?A" "p # s"] spine_call [OF sp tr(2)] items by (auto simp: t1_def)
  have "length ?A < length A2" using A2(2) by (auto simp: grown_def)
  then have "run_frame lib (Frame b items e) t = Some (t\<lparr>tr_traces := A2[length ?A := (A2 ! length ?A)\<lparr>
      nd_trace := g (nd_trace (A2 ! length ?A))\<rparr>]\<rparr>)"
    using A2(1) st by (simp add: b run_finish_closed [OF g] t1_def)
  then show "\<exists>A'. run_frame lib (Frame b items e) t = Some (t\<lparr>tr_traces := A'\<rparr>) \<and> grown lib (tr_record_steps t) ?A p [] []
      [Frame b items e] [OrderCall (length (nd_children (?A ! p)))] A'"
    using grown_call [OF spine_less [OF sp] tr(1) g A2(2)] by blast
qed

text \<open>What happened so far, and then the rest.\<close>

lemma items_grow_after:
  assumes rest: "items_grow lib rest" and sp: "spine (tr_traces t) (p # s)" and st: "tr_trace_stack t = p # s"
    and ok: "items_ok lib (tr_record_steps t) (Suc (length s)) rest"
    and g1: "grown lib (tr_record_steps t) (tr_traces t) p s1 l1 f1 o1 A1"
  shows "\<exists>A'. run_items lib rest (t\<lparr>tr_traces := A1\<rparr>) = Some (t\<lparr>tr_traces := A'\<rparr>) \<and>
     grown lib (tr_record_steps t) (tr_traces t) p (s1 @ (if tr_record_steps t then steps_of rest else []))
       (l1 @ logs_of rest) (f1 @ calls_of rest)
       (o1 @ order_of (length (nd_logs (tr_traces t ! p)) + length l1) (length (nd_children (tr_traces t ! p)) + length f1) rest) A'"
proof -
  have "length (nd_logs (A1 ! p)) = length (nd_logs (tr_traces t ! p)) + length l1"
    "length (nd_children (A1 ! p)) = length (nd_children (tr_traces t ! p)) + length f1"
    using g1 by (auto simp: grown_def dest!: list_all2_lengthD)
  then obtain A' where "run_items lib rest (t\<lparr>tr_traces := A1\<rparr>) = Some (t\<lparr>tr_traces := A'\<rparr>)"
    "grown lib (tr_record_steps t) A1 p (if tr_record_steps t then steps_of rest else []) (logs_of rest) (calls_of rest)
       (order_of (length (nd_logs (tr_traces t ! p)) + length l1) (length (nd_children (tr_traces t ! p)) + length f1) rest) A'"
    using items_growD [OF rest, of "t\<lparr>tr_traces := A1\<rparr>" p s] grown_spine [OF sp g1] st ok by auto
  then show ?thesis using grown_trans [OF g1] by blast
qed

lemma grows_LogItem:
  assumes "items_grow lib rest"
  shows "items_grow lib (LogItem topics data rest)"
  unfolding items_grow_def
proof (intro allI impI)
  fix t :: Tracer and p s
  assume a: "spine (tr_traces t) (p # s)" "tr_trace_stack t = p # s"
    "items_ok lib (tr_record_steps t) (Suc (length s)) (LogItem topics data rest)"
  note p = spine_less [OF a(1)]
  note g1 = grown_log [OF p, of lib "tr_record_steps t" "RawLogData \<lparr>log_topics = topics, log_data = data\<rparr>"]
  from items_grow_after [OF assms a(1,2) _ g1] a p
  show "\<exists>A'. run_items lib (LogItem topics data rest) t = Some (t\<lparr>tr_traces := A'\<rparr>) \<and>
      grown lib (tr_record_steps t) (tr_traces t) p (if tr_record_steps t then steps_of (LogItem topics data rest) else [])
        (logs_of (LogItem topics data rest)) (calls_of (LogItem topics data rest))
        (order_of (length (nd_logs (tr_traces t ! p))) (length (nd_children (tr_traces t ! p))) (LogItem topics data rest)) A'"
    by (simp add: tracer_log_def update_node_def split del: if_split cong: if_cong)
qed

lemma grows_CallItem:
  assumes "frame_grows lib f" "items_grow lib rest"
  shows "items_grow lib (CallItem f rest)"
  unfolding items_grow_def
proof (intro allI impI)
  fix t :: Tracer and p s
  assume a: "spine (tr_traces t) (p # s)" "tr_trace_stack t = p # s"
    "items_ok lib (tr_record_steps t) (Suc (length s)) (CallItem f rest)"
  then obtain A1 where A1: "run_frame lib f t = Some (t\<lparr>tr_traces := A1\<rparr>)"
    "grown lib (tr_record_steps t) (tr_traces t) p [] [] [f] [OrderCall (length (nd_children (tr_traces t ! p)))] A1"
    using frame_growsD [OF assms(1) a(1,2)] by auto
  from items_grow_after [OF assms(2) a(1,2) _ A1(2)] a A1(1)
  show "\<exists>A'. run_items lib (CallItem f rest) t = Some (t\<lparr>tr_traces := A'\<rparr>) \<and>
      grown lib (tr_record_steps t) (tr_traces t) p (if tr_record_steps t then steps_of (CallItem f rest) else [])
        (logs_of (CallItem f rest)) (calls_of (CallItem f rest))
        (order_of (length (nd_logs (tr_traces t ! p))) (length (nd_children (tr_traces t ! p))) (CallItem f rest)) A'"
    by (simp split del: if_split cong: if_cong)
qed

text \<open>A step with what happens inside it.\<close>

lemma step_grows:
  assumes inner: "items_grow lib inner" and sp: "spine (tr_traces t) (p # s)" and st: "tr_trace_stack t = p # s"
    and ok: "items_ok lib (tr_record_steps t) (Suc (length s)) inner" and r: "tr_record_steps t"
    and res: "step_result i v i' v' status = Some step"
  shows "\<exists>t1 A1 A2. tracer_step i v t = Some (Continue, t1) \<and> run_items lib inner t1 = Some (t1\<lparr>tr_traces := A1\<rparr>) \<and>
     tracer_step_end i' v' status (t1\<lparr>tr_traces := A1\<rparr>) = Some (status, t\<lparr>tr_traces := A2\<rparr>) \<and>
     grown lib True (tr_traces t) p (step # steps_of inner) (logs_of inner) (calls_of inner)
       (order_of (length (nd_logs (tr_traces t ! p))) (length (nd_children (tr_traces t ! p))) inner) A2"
proof -
  let ?A = "tr_traces t" and ?steps = "ct_steps (nd_trace (tr_traces t ! p))"
  from res obtain s0 where s0: "new_step i v = Some s0" "filled_step i' v' status s0 = Some step"
    by (auto simp: step_result_def split: bind_splits)
  have p: "p < length ?A" using sp by (rule spine_less)
  define A0 where "A0 = ?A[p := (?A ! p)\<lparr>nd_trace := (nd_trace (?A ! p))\<lparr>ct_steps := ?steps @ [s0]\<rparr>\<rparr>]"
  define t1 where "t1 = t\<lparr>tr_step_stack := (p, length ?steps) # tr_step_stack t, tr_traces := A0\<rparr>"
  have "tracer_step i v t = Some (Continue, t1)"
    using r st p s0(1) by (simp add: tracer_step_def start_step_def t1_def A0_def Let_def)
  moreover have "spine A0 (p # s)" by (rule spine_frame [OF sp]) (use p in \<open>auto simp: A0_def\<close>)
  then obtain A1 where A1: "run_items lib inner t1 = Some (t1\<lparr>tr_traces := A1\<rparr>)"
    "grown lib True A0 p (steps_of inner) (logs_of inner) (calls_of inner)
       (order_of (length (nd_logs (?A ! p))) (length (nd_children (?A ! p))) inner) A1"
    using items_growD [OF inner, of t1 p s] st ok r p by (auto simp: t1_def A0_def)
  moreover have "p < length A1" "ct_steps (nd_trace (A1 ! p)) = ?steps @ s0 # steps_of inner"
    using A1(2) p by (auto simp: grown_def A0_def)
  then have "tracer_step_end i' v' status (t1\<lparr>tr_traces := A1\<rparr>) = Some (status, t\<lparr>tr_traces := A1[p := (A1 ! p)\<lparr>
      nd_trace := (nd_trace (A1 ! p))\<lparr>ct_steps := (ct_steps (nd_trace (A1 ! p)))[length ?steps := step]\<rparr>\<rparr>]\<rparr>)"
    using r s0(2) by (simp add: tracer_step_end_def fill_step_def t1_def Let_def)
  ultimately show ?thesis using grown_step [OF p A1(2) [unfolded A0_def]] by blast
qed

lemma grows_StepItem:
  assumes "items_grow lib inner" "items_grow lib rest"
  shows "items_grow lib (StepItem i v inner i' v' status rest)"
  unfolding items_grow_def
proof (intro allI impI)
  fix t :: Tracer and p s
  let ?item = "StepItem i v inner i' v' status rest" and ?r = "tr_record_steps t"
  assume a: "spine (tr_traces t) (p # s)" "tr_trace_stack t = p # s" "items_ok lib ?r (Suc (length s)) ?item"
  show "\<exists>A'. run_items lib ?item t = Some (t\<lparr>tr_traces := A'\<rparr>) \<and>
      grown lib ?r (tr_traces t) p (if ?r then steps_of ?item else []) (logs_of ?item) (calls_of ?item)
        (order_of (length (nd_logs (tr_traces t ! p))) (length (nd_children (tr_traces t ! p))) ?item) A'"
  proof (cases ?r)
    case True
    then obtain step where step: "step_result i v i' v' status = Some step" using a(3) by auto
    have inner: "items_ok lib ?r (Suc (length s)) inner" using a(3) by simp
    obtain t1 A1 A2 where "tracer_step i v t = Some (Continue, t1)" "run_items lib inner t1 = Some (t1\<lparr>tr_traces := A1\<rparr>)"
      "tracer_step_end i' v' status (t1\<lparr>tr_traces := A1\<rparr>) = Some (status, t\<lparr>tr_traces := A2\<rparr>)"
      "grown lib ?r (tr_traces t) p (step # steps_of inner) (logs_of inner) (calls_of inner)
         (order_of (length (nd_logs (tr_traces t ! p))) (length (nd_children (tr_traces t ! p))) inner) A2"
      using step_grows [OF assms(1) a(1,2) inner True step] True by metis
    then show ?thesis using items_grow_after [OF assms(2) a(1,2)] a(3) True step by fastforce
  next
    case False
    obtain A1 where "run_items lib inner t = Some (t\<lparr>tr_traces := A1\<rparr>)"
      "grown lib ?r (tr_traces t) p [] (logs_of inner) (calls_of inner)
         (order_of (length (nd_logs (tr_traces t ! p))) (length (nd_children (tr_traces t ! p))) inner) A1"
      using items_growD [OF assms(1) a(1,2)] a(3) False by auto
    then show ?thesis using items_grow_after [OF assms(2) a(1,2)] a(3) False
      by (fastforce simp: tracer_step_def tracer_step_end_def)
  qed
qed

lemma grows: "frame_grows lib f" "items_grow lib items"
proof (induction f and items)
  case Done
  show ?case by (auto simp: items_grow_def spine_less intro!: exI [of _ "tr_traces t" for t] grown_empty)
qed (simp_all add: grows_Frame grows_LogItem grows_CallItem grows_StepItem)

section \<open>The tree of a recorded execution\<close>

definition tracer_new :: "bool \<Rightarrow> Tracer" where
  "tracer_new r = (if r then with_steps_recording tracer_default else tracer_default)"

lemma tracer_new_simps [simp]:
  "tr_traces (tracer_new r) = [node_default]" "tr_trace_stack (tracer_new r) = []" "tr_record_steps (tracer_new r) = r"
  "tr_step_stack (tracer_new r) = []"
  by (simp_all add: tracer_new_def with_steps_recording_def tracer_default_def arena_default_def)

lemma represents_root:
  assumes b: "opened lib b = Some tr" and e: "closed lib e = Some g"
    and g: "grown lib r [node_default\<lparr>nd_trace := tr\<rparr>] 0 (if r then steps_of items else []) (logs_of items)
              (calls_of items) (order_of 0 0 items) A2"
  shows "represents lib r (A2[0 := (A2 ! 0)\<lparr>nd_trace := g (nd_trace (A2 ! 0))\<rparr>]) 0 (Frame b items e)"
    (is "represents _ _ ?A3 _ _")
proof -
  from g obtain cs where cs: "A2 ! 0 = node_default\<lparr>nd_children := cs,
          nd_trace := tr\<lparr>ct_steps := (if r then steps_of items else [])\<rparr>,
          nd_logs := logs_of items, nd_ordering := order_of 0 0 items\<rparr>"
      "list_all2 (\<lambda>c f. 1 \<le> c \<and> c < length A2 \<and> nd_parent (A2 ! c) = Some 0 \<and> represents lib r A2 c f) cs (calls_of items)"
    using opened_fresh [OF b] by (auto simp: grown_def node_default_def)
  have len: "0 < length A2" using g by (auto simp: grown_def)
  have "list_all2 (\<lambda>c f. 0 < c \<and> nd_parent (?A3 ! c) = Some 0 \<and> represents lib r ?A3 c f) cs (calls_of items)"
    by (rule list_all2_mono [OF cs(2)]) (auto intro: represents_agree)
  then show ?thesis
    using len cs(1) b e by (intro represents.intros) (simp_all add: frame_trace_def node_default_def)
qed

lemma run_root:
  assumes "frame_ok lib r 0 f"
  shows "\<exists>t. run_frame lib f (tracer_new r) = Some t \<and> tr_trace_stack t = [] \<and> tr_step_stack t = [] \<and>
     length (tr_traces t) = frames f \<and> represents lib r (tr_traces t) 0 f"
proof (cases f)
  case (Frame b items e)
  with assms obtain tr g where tr: "opened lib b = Some tr" "ct_depth tr = 0"
    and g: "closed lib e = Some g" and items: "items_ok lib r (Suc 0) items"
    by (auto split: option.splits)
  let ?A1 = "[node_default\<lparr>nd_trace := tr\<rparr>]"
  define t1 where "t1 = (tracer_new r)\<lparr>tr_traces := ?A1, tr_trace_stack := [0]\<rparr>"
  have b: "run_begin lib b (tracer_new r) = Some t1"
    using tr(2) by (subst run_begin_opened [OF tr(1)], subst push_trace.simps) (simp add: t1_def)
  have "spine (tr_traces t1) [0]" using tr(2) by (simp add: t1_def)
  then obtain A2 where A2: "run_items lib items t1 = Some (t1\<lparr>tr_traces := A2\<rparr>)"
    "grown lib r ?A1 0 (if r then steps_of items else []) (logs_of items) (calls_of items) (order_of 0 0 items) A2"
    using items_growD [OF grows(2), of t1 0 "[]" lib items] items by (auto simp: t1_def node_default_def)
  have len: "length A2 = Suc (frames_items items)" using A2(2) by (auto simp: grown_def frames_items_sum)
  show ?thesis
    using represents_root [OF tr(1) g A2(2)] len A2(1) Frame
    by (simp add: b run_finish_closed [OF g] t1_def)
qed

text \<open>
  C18: A tracer that follows an execution in which the depth grows by one with every call returns from every
  callback, has closed every call and every step at the end, and its arena has one node for each call and
  represents the tree of the calls: each node has the trace of its call with its steps, its logs, its children in
  the order of the calls, the order in which logs and calls came, and its parent.
\<close>

theorem tracer_builds_tree:
  assumes "frame_ok lib r 0 f"
  shows "\<exists>t. run_frame lib f (tracer_new r) = Some t \<and> tr_trace_stack t = [] \<and> tr_step_stack t = [] \<and>
     length (tr_traces t) = frames f \<and> represents lib r (tr_traces t) 0 f"
  using assms by (rule run_root)

section \<open>The trace in the format of geth\<close>

text \<open>All steps of an execution in their order.\<close>

fun flat_steps :: "'x frame \<Rightarrow> CallTraceStep list" and flat_items :: "'x items \<Rightarrow> CallTraceStep list" where
  "flat_steps (Frame b items e) = flat_items items"
| "flat_items Done = []"
| "flat_items (LogItem topics data rest) = flat_items rest"
| "flat_items (CallItem f rest) = flat_steps f @ flat_items rest"
| "flat_items (StepItem i v inner i' v' status rest) =
     the (step_result i v i' v' status) # flat_items inner @ flat_items rest"

text \<open>
  Every call is made by a step, and a step makes one exactly when its instruction is a call or a creation.
\<close>

definition calls_op :: "Gas Interpreter \<Rightarrow> bool" where
  "calls_op i = (case op_at i of Some op \<Rightarrow> is_call_op (OpCode op) | None \<Rightarrow> False)"

fun frame_shaped :: "'x frame \<Rightarrow> bool" and inner_shaped :: "'x items \<Rightarrow> bool" and items_shaped :: "'x items \<Rightarrow> bool" where
  "frame_shaped (Frame b items e) \<longleftrightarrow> items_shaped items"
| "inner_shaped Done \<longleftrightarrow> True"
| "inner_shaped (LogItem topics data rest) \<longleftrightarrow> inner_shaped rest"
| "inner_shaped (CallItem f rest) \<longleftrightarrow> frame_shaped f \<and> inner_shaped rest"
| "inner_shaped (StepItem i v inner i' v' status rest) \<longleftrightarrow> False"
| "items_shaped Done \<longleftrightarrow> True"
| "items_shaped (LogItem topics data rest) \<longleftrightarrow> items_shaped rest"
| "items_shaped (CallItem f rest) \<longleftrightarrow> False"
| "items_shaped (StepItem i v inner i' v' status rest) \<longleftrightarrow>
     inner_shaped inner \<and> length (calls_of inner) = (if calls_op i then 1 else 0) \<and> items_shaped rest"

definition push_log :: "geth_lib \<Rightarrow> GethOpts \<Rightarrow> CallTraceStep \<Rightarrow> geth_storage \<times> StructLog list \<Rightarrow>
    geth_storage \<times> StructLog list" where
  "push_log gl opts step acc = (case geth_log gl opts step (fst acc) of (storage, log) \<Rightarrow> (storage, snd acc @ [log]))"

lemma step_result_op:
  assumes "step_result i v i' v' status = Some step"
  shows "is_call_op (sp_op step) \<longleftrightarrow> calls_op i"
  using assms
  by (auto simp: step_result_def new_step_def filled_step_def calls_op_def split: bind_splits option.splits if_splits)

lemma inner_calls:
  "inner_shaped inner \<Longrightarrow> length (calls_of inner) = 0 \<Longrightarrow> flat_items inner = [] \<and> steps_of inner = []"
  "inner_shaped inner \<Longrightarrow> calls_of inner = [f] \<Longrightarrow> flat_items inner = flat_steps f \<and> steps_of inner = [] \<and> frame_shaped f"
  by (induction inner rule: calls_of.induct) auto

lemma items_ok_calls: "items_ok lib r d items \<Longrightarrow> f \<in> set (calls_of items) \<Longrightarrow> frame_ok lib r d f"
  by (induction items rule: calls_of.induct) auto

lemma closed_steps: "closed lib e = Some g \<Longrightarrow> ct_steps (g tr) = ct_steps tr"
  by (cases e) (auto simp: filled_trace_def Let_def split: option.splits)

definition geth_follows :: "('g, 'w, 'd, 'x, 'e, 'o) trace_lib \<Rightarrow> geth_lib \<Rightarrow> GethOpts \<Rightarrow> CallTraceArena \<Rightarrow> 'x frame \<Rightarrow> bool" where
  "geth_follows lib gl opts A f \<longleftrightarrow> (\<forall>i d acc. frame_shaped f \<longrightarrow> frame_ok lib True d f \<longrightarrow> represents lib True A i f \<longrightarrow>
     add_to_geth_trace gl opts A (nd_children (A ! i)) 0 (ct_steps (nd_trace (A ! i))) acc =
       Some (fold (push_log gl opts) (flat_steps f) acc))"

lemma geth_followsD:
  "geth_follows lib gl opts A f \<Longrightarrow> frame_shaped f \<Longrightarrow> frame_ok lib True d f \<Longrightarrow> represents lib True A i f \<Longrightarrow>
     add_to_geth_trace gl opts A (nd_children (A ! i)) 0 (ct_steps (nd_trace (A ! i))) acc =
       Some (fold (push_log gl opts) (flat_steps f) acc)"
  unfolding geth_follows_def by blast

lemma geth_items:
  assumes "\<And>f. f \<in> set (calls_of items) \<Longrightarrow> geth_follows lib gl opts A f" "items_shaped items" "items_ok lib True d items"
    "list_all2 (represents lib True A) cs (calls_of items)"
  shows "add_to_geth_trace gl opts A (pre @ cs) (length pre) (steps_of items) acc =
     Some (fold (push_log gl opts) (flat_items items) acc)"
  using assms
proof (induction items arbitrary: pre cs acc rule: calls_of.induct)
  case 1
  then show ?case by (subst add_to_geth_trace.simps) simp
next
  case (4 i v inner i' v' status rest)
  from "4.prems"(3) obtain step where step: "step_result i v i' v' status = Some step" by auto
  note op = step_result_op [OF step]
  show ?case
  proof (cases "calls_op i")
    case True
    with "4.prems"(2) obtain f where f: "calls_of inner = [f]" by (auto simp: length_Suc_conv)
    note inner = inner_calls(2) [OF _ f]
    from "4.prems"(4) f obtain c cs' where cs: "cs = c # cs'" "represents lib True A c f"
      "list_all2 (represents lib True A) cs' (calls_of rest)"
      by (auto simp: list_all2_Cons2)
    have c: "c < length A" using cs(2) by (cases rule: represents.cases)
    have ff: "geth_follows lib gl opts A f" "frame_ok lib True d f"
      using "4.prems"(1,3) f items_ok_calls [of lib True d inner f] by auto
    have "add_to_geth_trace gl opts A (nd_children (A ! c)) 0 (ct_steps (nd_trace (A ! c))) (push_log gl opts step acc) =
        Some (fold (push_log gl opts) (flat_steps f) (push_log gl opts step acc))"
      using inner "4.prems"(2) by (intro geth_followsD [OF ff(1) _ ff(2) cs(2)]) simp
    moreover have "add_to_geth_trace gl opts A ((pre @ [c]) @ cs') (length (pre @ [c])) (steps_of rest) acc' =
        Some (fold (push_log gl opts) (flat_items rest) acc')" for acc'
      using "4.prems" cs(3) by (intro "4.IH"(2)) auto
    ultimately show ?thesis using inner "4.prems"(2) step op True cs(1) c
      by (subst add_to_geth_trace.simps) (simp add: push_log_def split: prod.splits)
  next
    case False
    with "4.prems"(2) have inner: "flat_items inner = []" "steps_of inner = []" "calls_of inner = []"
      using inner_calls(1) [of inner] by auto
    have "add_to_geth_trace gl opts A (pre @ cs) (length pre) (steps_of rest) acc' =
        Some (fold (push_log gl opts) (flat_items rest) acc')" for acc'
      using "4.prems" inner by (intro "4.IH"(2)) auto
    then show ?thesis using inner step op False
      by (subst add_to_geth_trace.simps) (simp add: push_log_def split: prod.splits)
  qed
qed auto

lemma geth_frames:
  "geth_follows lib gl opts A f"
  "\<forall>f' \<in> set (calls_of items). geth_follows lib gl opts A f'"
proof (induction f and items)
  case (Frame b items e)
  show ?case unfolding geth_follows_def
  proof (intro allI impI)
    fix i d acc
    assume a: "frame_shaped (Frame b items e)" "frame_ok lib True d (Frame b items e)" "represents lib True A i (Frame b items e)"
    then obtain tr g where "opened lib b = Some tr" "closed lib e = Some g" by (auto split: option.splits)
    moreover have "list_all2 (represents lib True A) (nd_children (A ! i)) (calls_of items)"
      "nd_trace (A ! i) = frame_trace lib True (Frame b items e)"
      using a(3) by (auto elim!: representsE elim: list_all2_mono)
    ultimately show "add_to_geth_trace gl opts A (nd_children (A ! i)) 0 (ct_steps (nd_trace (A ! i))) acc =
        Some (fold (push_log gl opts) (flat_steps (Frame b items e)) acc)"
      using geth_items [of items lib gl opts A "Suc d" "nd_children (A ! i)" "[]" acc] Frame a
      by (simp add: frame_trace_def closed_steps)
  qed
qed auto


text \<open>A call instruction without a call.\<close>

lemma geth_panics:
  "child_id \<le> length children \<Longrightarrow> length children < child_id + length (filter (is_call_op \<circ> sp_op) steps) \<Longrightarrow>
     add_to_geth_trace gl opts A children child_id steps acc = None"
proof (induction steps arbitrary: child_id acc)
  case (Cons step steps)
  show ?case
  proof (cases "is_call_op (sp_op step)")
    case True
    then have "add_to_geth_trace gl opts A children (Suc child_id) steps acc' = None" if "child_id < length children" for acc'
      using Cons.prems that by (intro Cons.IH) simp_all
    then show ?thesis using True
      by (subst add_to_geth_trace.simps) (simp add: Let_def bind_eq_None_conv split: prod.split)
  next
    case False
    then have "add_to_geth_trace gl opts A children child_id steps acc' = None" for acc'
      using Cons.prems by (intro Cons.IH) simp_all
    then show ?thesis using False by (subst add_to_geth_trace.simps) (simp add: Let_def split: prod.split)
  qed
qed simp

text \<open>
  C33: The trace in the format of geth panics when the outermost call executed more call and creation instructions
  than it made calls, as when one of them fails before it makes the call.
\<close>

theorem geth_trace_panics:
  assumes "frame_ok lib True 0 (Frame b items e)"
    "length (calls_of items) < length (filter (is_call_op \<circ> sp_op) (steps_of items))"
  shows "\<exists>t. run_frame lib (Frame b items e) (tracer_new True) = Some t \<and> geth_trace gl (tr_traces t) gas opts = None"
proof -
  from run_root [OF assms(1)] obtain t where t: "run_frame lib (Frame b items e) (tracer_new True) = Some t"
    "represents lib True (tr_traces t) 0 (Frame b items e)" by blast
  from assms(1) obtain tr g where "opened lib b = Some tr" "closed lib e = Some g" by (auto split: option.splits)
  with t(2) have "ct_steps (nd_trace (tr_traces t ! 0)) = steps_of items" "tr_traces t \<noteq> []"
    "length (nd_children (tr_traces t ! 0)) = length (calls_of items)"
    by (auto elim!: representsE simp: frame_trace_def closed_steps dest: list_all2_lengthD)
  then show ?thesis using t(1) assms(2)
    by (cases "tr_traces t") (auto simp: geth_trace_def geth_panics)
qed

section \<open>Examples\<close>

text \<open>An EVM whose accounts are all loaded, and an execution of one call instruction that calls another contract.\<close>

definition ex_journal :: "(unit, unit) journal_lib" where
  "ex_journal = \<lparr>jl_load_account = (\<lambda>a j. (Ok (), j)), jl_touch = (\<lambda>a j. j), jl_set_code = (\<lambda>a c j. j),
     jl_sstore = (\<lambda>a k v j. (Ok (), j)), jl_sload = (\<lambda>a k j. (Ok 0, j)), jl_merge = 15, jl_keccak_empty = 0\<rparr>"

definition ex_insp :: "(unit, unit, unit, unit, unit, unit) insp_lib" where
  "ex_insp = \<lparr>il_gas_new = (\<lambda>_. ()), il_gas_limit = (\<lambda>_. 0), il_error_string = (\<lambda>_. []), il_encode_message = (\<lambda>_. []),
     il_encode_diagnostic = (\<lambda>_. []), il_decode_call = (\<lambda>_. None), il_other = (\<lambda>_ _ _. None),
     il_decode_bytes = (\<lambda>_. None), il_code_by_hash = (\<lambda>_ _. Ok []), il_contract_address = (\<lambda>a n. a + ucast n),
     il_create2_address = (\<lambda>a s c. a), il_diagnose_revert = (\<lambda>_ _. None)\<rparr>"

definition ex_trace_lib :: "(unit, unit, unit, unit, unit, unit) trace_lib" where
  "ex_trace_lib = \<lparr>tl_journal = ex_journal, tl_insp = ex_insp, tl_london = 12\<rparr>"

definition ex_geth :: geth_lib where
  "ex_geth = \<lparr>gl_op_name = (\<lambda>_. ''op''), gl_hex = (\<lambda>_. [])\<rparr>"

definition ex_opts :: GethOpts where
  "ex_opts = \<lparr>go_disable_storage = None, go_disable_stack = None, go_enable_memory = None\<rparr>"

definition ex_data :: "u64 \<Rightarrow> unit EVMData" where
  "ex_data d = \<lparr>ed_env = \<lparr>env_block = \<lparr>be_number = 1, be_coinbase = 0, be_timestamp = 1, be_difficulty = 0, be_prevrandao = None,
       be_basefee = 0, be_gas_limit = 30000000\<rparr>, tx_caller = 1, tx_gas_price = 0, tx_gas_limit = 100000,
       tx_transact_to = Some 2, cfg_chain_id = 1, cfg_spec_id = 15\<rparr>,
     ed_journal = \<lparr>js_depth = d, js_state = fmempty, js_rest = ()\<rparr>, ed_fork_url = None, ed_forked = False, ed_access = {}\<rparr>"

definition ex_begin :: "u64 \<Rightarrow> Address \<Rightarrow> Address \<Rightarrow> unit call_begin" where
  "ex_begin d caller address = ByCall (ex_data d) \<lparr>tc_input = [1, 2, 3, 4], tc_value = 0, tc_context =
     \<lparr>cx_address = address, cx_caller = caller, cx_code_address = address, cx_apparent_value = 0, cx_scheme = SchemeCall\<rparr>\<rparr>"

definition ex_finish :: "u64 \<Rightarrow> InstructionResult \<Rightarrow> unit call_finish" where
  "ex_finish d status = CallFinish (ex_data d) \<lparr>gs_spend = 100, gs_refunded = 0\<rparr> status []"

definition ex_code :: "nat \<Rightarrow> Gas Interpreter" where
  "ex_code pc = \<lparr>in_pc = pc, in_bytecode = [0xf1, 0x00], in_stack = [], in_memory = [],
     in_gas = \<lparr>gs_spend = 0, gs_refunded = 0\<rparr>, in_address = 2, in_return_range = (0, 0)\<rparr>"

definition ex_view :: "u64 \<Rightarrow> StepView" where
  "ex_view gas = \<lparr>sv_depth = 0, sv_journal = [[]], sv_present = (\<lambda>_ _. None), sv_gas_remaining = gas\<rparr>"

definition ex_step :: "unit items \<Rightarrow> InstructionResult \<Rightarrow> unit items" where
  "ex_step inner status = StepItem (ex_code 0) (ex_view 90) inner (ex_code 1) (ex_view 50) status Done"

definition ex_exec :: "unit items \<Rightarrow> InstructionResult \<Rightarrow> unit frame" where
  "ex_exec inner status = Frame (ex_begin 0 1 2) (ex_step inner status) (ex_finish 0 status)"

definition ex_inner :: "unit items" where
  "ex_inner = CallItem (Frame (ex_begin 1 2 3) (LogItem [7] [8] Done) (ex_finish 1 Stop)) Done"

lemmas ex_trace_defs = ex_trace_lib_def ex_data_def ex_begin_def ex_finish_def ex_code_def ex_view_def ex_exec_def
  ex_step_def ex_inner_def step_result_def new_step_def filled_step_def op_at_def state_diff_def sub_chk_def depth_def
  call_trace_default_def

lemma ex_exec_ok: "frame_ok ex_trace_lib True 0 (ex_exec Done OutOfGas)" "frame_ok ex_trace_lib True 0 (ex_exec ex_inner Continue)"
  by (simp_all add: ex_trace_defs)

lemma ex_exec_shaped: "frame_shaped (ex_exec ex_inner Continue)"
  by (simp add: ex_trace_defs calls_op_def)

theorem tracer_builds_tree_witness:
  "frame_ok ex_trace_lib True 0 (ex_exec ex_inner Continue) \<and>
   (\<exists>t. run_frame ex_trace_lib (ex_exec ex_inner Continue) (tracer_new True) = Some t \<and> tr_trace_stack t = [] \<and>
     tr_step_stack t = [] \<and> length (tr_traces t) = 2 \<and>
     represents ex_trace_lib True (tr_traces t) 0 (ex_exec ex_inner Continue))"
proof -
  have "frames (ex_exec ex_inner Continue) = 2" by (simp add: ex_exec_def ex_step_def ex_inner_def)
  then show ?thesis using tracer_builds_tree [OF ex_exec_ok(2)] ex_exec_ok(2) by simp
qed


theorem geth_trace_panics_witness:
  "frame_ok ex_trace_lib True 0 (ex_exec Done OutOfGas) \<and>
   (\<exists>t. run_frame ex_trace_lib (ex_exec Done OutOfGas) (tracer_new True) = Some t \<and>
     geth_trace ex_geth (tr_traces t) 100 ex_opts = None)"
proof -
  have "length (calls_of (ex_step Done OutOfGas)) < length (filter (is_call_op \<circ> sp_op) (steps_of (ex_step Done OutOfGas)))"
    by (simp add: ex_trace_defs)
  from geth_trace_panics [OF ex_exec_ok(1) [unfolded ex_exec_def] this] show ?thesis
    using ex_exec_ok(1) unfolding ex_exec_def by blast
qed

end
