(* ===== verification/MinedTraces.thy ===== *)
theory MinedTraces
  imports TraceSpec Chain
begin

text \<open>
  The traces of a mined transaction: \<open>trace_transaction\<close> and \<open>debug_traceTransaction\<close>
  (\<open>MinedTransaction::parity_traces\<close> and \<open>geth_trace\<close> of \<open>anvil/src/eth/backend/mem/storage.rs\<close>,
  \<open>TransactionInfo::trace_address\<close> of \<open>anvil/core/src/eth/transaction/mod.rs\<close>, the conversions of
  \<open>evm/src/trace/node.rs\<close>).  The arena of any tracer links every node to its parent, so every node has an address
  that leads to it.
\<close>

section \<open>Traces in the format of parity\<close>

datatype CallType = CtNone | CtCall | CtCallCode | CtDelegateCall | CtStaticCall

datatype ActionType = AtCall | AtCreate | AtSuicide

datatype Action =
    ActionCall Address Address U256 U256 bytes CallType
  | ActionCreate Address U256 U256 bytes
  | ActionSuicide Address Address U256

datatype Res = ResCall U256 bytes | ResCreate U256 bytes Address

fun action_type :: "CallKind \<Rightarrow> ActionType" where
  "action_type KindCall = AtCall"
| "action_type KindStaticCall = AtCall"
| "action_type KindDelegateCall = AtCall"
| "action_type KindCallCode = AtCall"
| "action_type KindCreate = AtCreate"
| "action_type KindCreate2 = AtCreate"

fun call_type :: "CallKind \<Rightarrow> CallType" where
  "call_type KindCall = CtCall"
| "call_type KindStaticCall = CtStaticCall"
| "call_type KindCallCode = CtCallCode"
| "call_type KindDelegateCall = CtDelegateCall"
| "call_type KindCreate = CtNone"
| "call_type KindCreate2 = CtNone"

definition parity_result :: "CallTraceNode \<Rightarrow> Res" where
  "parity_result n =
     (let tr = nd_trace n; gas = ucast (ct_gas_cost tr); out = return_to_bytes (ct_output tr)
      in if ct_kind tr \<in> {KindCreate, KindCreate2} then ResCreate gas out (ct_address tr) else ResCall gas out)"

definition parity_action :: "CallTraceNode \<Rightarrow> Action" where
  "parity_action n =
     (let tr = nd_trace n; gas = ucast (ct_gas_cost tr); input = call_to_raw (ct_data tr)
      in if ct_status tr = SelfDestruct then ActionSuicide (ct_address tr) 0 (ct_value tr)
         else if ct_kind tr \<in> {KindCreate, KindCreate2} then ActionCreate (ct_caller tr) (ct_value tr) gas input
         else ActionCall (ct_caller tr) (ct_address tr) (ct_value tr) gas input (call_type (ct_kind tr)))"

text \<open>The loop of \<open>trace_address\<close>; \<open>None\<close> is an index out of range or a child its parent does not know.\<close>

partial_function (option) trace_path :: "CallTraceArena \<Rightarrow> CallTraceNode \<Rightarrow> nat list \<Rightarrow> nat list option" where
  "trace_path A node graph =
     (case nd_parent node of
        None \<Rightarrow> Some (rev graph)
      | Some parent \<Rightarrow>
          if parent < length A then do {
            call_idx \<leftarrow> position (\<lambda>child. child = nd_idx node) (nd_children (A ! parent));
            trace_path A (A ! parent) (graph @ [call_idx])
          } else None)"

definition trace_address :: "CallTraceArena TransactionInfo \<Rightarrow> nat \<Rightarrow> nat list option" where
  "trace_address info idx =
     (if idx = 0 then Some []
      else if idx < length (ti_traces info) then trace_path (ti_traces info) (ti_traces info ! idx) []
      else None)"

record ParityTrace =
  py_action :: Action
  py_result :: Res
  py_trace_address :: "nat list"
  py_subtraces :: nat
  py_transaction_position :: nat
  py_transaction_hash :: H256
  py_block_number :: u64
  py_block_hash :: H256
  py_action_type :: ActionType

fun parity_traces_from :: "CallTraceArena MinedTransaction \<Rightarrow> nat \<Rightarrow> CallTraceNode list \<Rightarrow> ParityTrace list option" where
  "parity_traces_from mt idx [] = Some []"
| "parity_traces_from mt idx (node # nodes) = do {
     address \<leftarrow> trace_address (mt_info mt) idx;
     let trace = \<lparr>py_action = parity_action node, py_result = parity_result node, py_trace_address = address,
        py_subtraces = length (nd_children node),
        py_transaction_position = unat (ti_transaction_index (mt_info mt)),
        py_transaction_hash = ti_transaction_hash (mt_info mt), py_block_number = mt_block_number mt,
        py_block_hash = mt_block_hash mt,
        py_action_type = (if ct_status (nd_trace node) = SelfDestruct then AtSuicide
                          else action_type (ct_kind (nd_trace node)))\<rparr>;
     traces \<leftarrow> parity_traces_from mt (Suc idx) nodes;
     Some (trace # traces)
   }"

definition parity_traces :: "CallTraceArena MinedTransaction \<Rightarrow> ParityTrace list option" where
  "parity_traces mt = parity_traces_from mt 0 (ti_traces (mt_info mt))"

definition mined_geth_trace :: "geth_lib \<Rightarrow> CallTraceArena MinedTransaction \<Rightarrow> GethOpts \<Rightarrow> DefaultFrame option" where
  "mined_geth_trace gl mt opts = geth_trace gl (ti_traces (mt_info mt)) (receipt_gas_used (mt_receipt mt)) opts"

section \<open>Every tracer links its nodes\<close>

text \<open>The callbacks of a tracer as a transition system; nothing is assumed of their order.\<close>

datatype 'x tracer_label =
    LCall "'x EVMData" TracedCall
  | LCallEnd "'x EVMData" Gas InstructionResult bytes
  | LCreate "'x EVMData" CreateInputs
  | LCreateEnd "'x EVMData" InstructionResult "Address option" Gas
  | LLog "H256 list" bytes
  | LStep "Gas Interpreter" StepView
  | LStepEnd "Gas Interpreter" StepView InstructionResult

fun tracer_handle :: "('g, 'w, 'd, 'x, 'e, 'o) trace_lib \<Rightarrow> 'x tracer_label \<Rightarrow> Tracer \<Rightarrow> Tracer option" where
  "tracer_handle lib (LCall data inputs) t = tracer_call data inputs t"
| "tracer_handle lib (LCallEnd data gas status ret) t = tracer_call_end lib data gas status ret t"
| "tracer_handle lib (LCreate data inputs) t = map_option snd (tracer_create lib data inputs t)"
| "tracer_handle lib (LCreateEnd data status address gas) t = tracer_create_end lib data status address gas t"
| "tracer_handle lib (LLog topics data) t = tracer_log topics data t"
| "tracer_handle lib (LStep i v) t = map_option snd (tracer_step i v t)"
| "tracer_handle lib (LStepEnd i v status) t = map_option snd (tracer_step_end i v status t)"

definition linked :: "CallTraceArena \<Rightarrow> bool" where
  "linked A \<longleftrightarrow> A \<noteq> [] \<and> nd_parent (A ! 0) = None \<and> (\<forall>i < length A. nd_idx (A ! i) = i \<and>
     (0 < i \<longrightarrow> (\<exists>p < i. nd_parent (A ! i) = Some p \<and> i \<in> set (nd_children (A ! p)))))"

text \<open>Changes that keep parent, number and children.\<close>

lemma linked_update:
  assumes "linked A" "i < length A \<Longrightarrow> nd_parent n = nd_parent (A ! i) \<and> nd_idx n = nd_idx (A ! i) \<and> nd_children n = nd_children (A ! i)"
  shows "linked (A[i := n])"
proof (cases "i < length A")
  case True
  have "nd_parent (A[i := n] ! j) = nd_parent (A ! j)" "nd_idx (A[i := n] ! j) = nd_idx (A ! j)"
    "nd_children (A[i := n] ! j) = nd_children (A ! j)" for j
    using assms(2) [OF True] True by (cases "j = i"; simp)+
  then show ?thesis using assms(1) by (simp add: linked_def)
next
  case False
  then show ?thesis using assms(1) by (simp add: list_update_beyond)
qed

lemma linked_add_child:
  assumes "linked A" "p < length A"
  shows "linked (add_child p tr A)"
proof -
  have "nd_parent (add_child p tr A ! j) = nd_parent (A ! j) \<and> nd_idx (add_child p tr A ! j) = nd_idx (A ! j) \<and>
      set (nd_children (A ! j)) \<subseteq> set (nd_children (add_child p tr A ! j))" if "j < length A" for j
    using that by (cases "j = p") (auto simp: add_child_def Let_def nth_append)
  moreover have "nd_parent (add_child p tr A ! length A) = Some p" "nd_idx (add_child p tr A ! length A) = length A"
    "length A \<in> set (nd_children (add_child p tr A ! p))" "length (add_child p tr A) = Suc (length A)"
    using assms(2) by (simp_all add: add_child_def Let_def nth_append)
  ultimately show ?thesis using assms unfolding linked_def
    by (auto simp: less_Suc_eq) (meson less_trans subsetD)+
qed

lemma push_trace_result:
  assumes "push_trace entry tr A = Some (k, A')"
  shows "A' = A[0 := (A ! 0)\<lparr>nd_trace := tr\<rparr>] \<or> (\<exists>p < length A. A' = add_child p tr A)"
proof -
  let ?P = "\<lambda>entry tr A y. snd y = A[0 := (A ! 0)\<lparr>nd_trace := tr\<rparr>] \<or> (\<exists>p < length A. snd y = add_child p tr A)"
  have "?P entry tr A (k, A')"
  proof (rule push_trace.raw_induct [where P = ?P, OF _ assms])
    fix push :: "nat \<Rightarrow> CallTrace \<Rightarrow> CallTraceArena \<Rightarrow> (nat \<times> CallTraceArena) option" and entry tr A y
    assume IH: "\<And>entry tr A y. push entry tr A = Some y \<Longrightarrow> ?P entry tr A y"
      and body: "(if ct_depth tr = 0 then if A = [] then None else Some (0, A[0 := (A ! 0)\<lparr>nd_trace := tr\<rparr>])
         else if \<not> entry < length A then None
         else if ct_depth (nd_trace (A ! entry)) = ct_depth tr - 1 then Some (length A, add_child entry tr A)
         else if nd_children (A ! entry) = [] then None else push (last (nd_children (A ! entry))) tr A) = Some y"
    show "?P entry tr A y"
      using body IH [of "last (nd_children (A ! entry))" tr A y] by (auto split: if_split_asm)
  qed
  then show ?thesis by simp
qed

lemma linked_start: "linked (tr_traces t) \<Longrightarrow> start_trace d a data v k c t = Some t' \<Longrightarrow> linked (tr_traces t')"
  by (auto simp: start_trace_def split: bind_splits dest!: push_trace_result
      intro!: linked_update linked_add_child)

lemma linked_fill: "linked (tr_traces t) \<Longrightarrow> fill_trace st c out a t = Some t' \<Longrightarrow> linked (tr_traces t')"
  by (auto simp: fill_trace_def update_node_def split: bind_splits list.splits if_splits intro!: linked_update)

lemma linked_log: "linked (tr_traces t) \<Longrightarrow> tracer_log topics data t = Some t' \<Longrightarrow> linked (tr_traces t')"
  by (auto simp: tracer_log_def update_node_def split: bind_splits list.splits if_splits intro!: linked_update)

lemma linked_steps:
  "linked (tr_traces t) \<Longrightarrow> start_step i v t = Some t' \<Longrightarrow> linked (tr_traces t')"
  "linked (tr_traces t) \<Longrightarrow> fill_step i v status t = Some t' \<Longrightarrow> linked (tr_traces t')"
  by (auto simp: start_step_def fill_step_def Let_def split: bind_splits list.splits if_splits prod.splits
      intro!: linked_update)

lemma linked_handle: "linked (tr_traces t) \<Longrightarrow> tracer_handle lib l t = Some t' \<Longrightarrow> linked (tr_traces t')"
  by (cases l) (auto simp: tracer_call_def tracer_call_end_def tracer_create_def tracer_create_end_def tracer_step_def
      tracer_step_end_def Let_def split: bind_splits prod.splits if_splits
      intro: linked_start linked_fill linked_log linked_steps)

lemma linked_new: "linked (tr_traces (tracer_new r))"
  by (simp add: linked_def node_default_def)

interpretation tracer_machine: machine_inv "\<lambda>t. \<exists>r. t = tracer_new r" "\<lambda>t l t'. tracer_handle lib l t = Some t'"
  "\<lambda>t. linked (tr_traces t)" for lib
  by unfold_locales (auto simp only: linked_new intro: linked_handle)

section \<open>Addresses of traces\<close>

text \<open>The node an address leads to.\<close>

fun walk :: "CallTraceArena \<Rightarrow> nat \<Rightarrow> nat list \<Rightarrow> nat option" where
  "walk A i [] = Some i"
| "walk A i (k # ks) = (if k < length (nd_children (A ! i)) then walk A (nd_children (A ! i) ! k) ks else None)"

lemma trace_path_walk:
  assumes "linked A" "i < length A" "walk A i (rev graph) = Some idx"
  shows "\<exists>path. trace_path A (A ! i) graph = Some path \<and> walk A 0 path = Some idx"
  using assms(2,3)
proof (induction i arbitrary: graph rule: less_induct)
  case (less i)
  show ?case
  proof (cases "i = 0")
    case True
    then show ?thesis using assms(1) less.prems by (subst trace_path.simps) (simp add: linked_def)
  next
    case False
    with assms(1) less.prems obtain p where p: "p < i" "nd_parent (A ! i) = Some p" "i \<in> set (nd_children (A ! p))"
      "nd_idx (A ! i) = i" by (auto simp: linked_def)
    then obtain k where k: "position (\<lambda>child. child = i) (nd_children (A ! p)) = Some k"
      by (metis (mono_tags, lifting) not_None_eq position_None)
    then have "walk A p (rev (graph @ [k])) = Some idx"
      using less.prems(2) position_Some [OF k] by simp
    then obtain path where "trace_path A (A ! p) (graph @ [k]) = Some path" "walk A 0 path = Some idx"
      using less.IH [OF p(1)] p(1) less.prems(1) by fastforce
    then show ?thesis using p k less.prems(1) by (subst trace_path.simps) simp
  qed
qed

lemma trace_address_walk:
  assumes "linked (ti_traces info)" "i < length (ti_traces info)"
  shows "\<exists>path. trace_address info i = Some path \<and> walk (ti_traces info) 0 path = Some i"
  using trace_path_walk [OF assms, of "[]"] assms by (auto simp: trace_address_def)

lemma parity_traces_from_walk:
  assumes "linked (ti_traces (mt_info mt))" "idx + length nodes \<le> length (ti_traces (mt_info mt))"
  shows "\<exists>ts. parity_traces_from mt idx nodes = Some ts \<and> length ts = length nodes \<and>
     (\<forall>i < length ts. walk (ti_traces (mt_info mt)) 0 (py_trace_address (ts ! i)) = Some (idx + i) \<and>
        py_subtraces (ts ! i) = length (nd_children (nodes ! i)) \<and> py_action (ts ! i) = parity_action (nodes ! i))"
  using assms(2)
proof (induction nodes arbitrary: idx)
  case (Cons n nodes)
  then obtain ts where ts: "parity_traces_from mt (Suc idx) nodes = Some ts" "length ts = length nodes"
     "\<forall>i < length ts. walk (ti_traces (mt_info mt)) 0 (py_trace_address (ts ! i)) = Some (Suc idx + i) \<and>
        py_subtraces (ts ! i) = length (nd_children (nodes ! i)) \<and> py_action (ts ! i) = parity_action (nodes ! i)"
    using Cons.IH [of "Suc idx"] by auto
  obtain path where "trace_address (mt_info mt) idx = Some path" "walk (ti_traces (mt_info mt)) 0 path = Some idx"
    using trace_address_walk [OF assms(1), of idx] Cons.prems by auto
  then show ?case using ts by (auto simp: Let_def nth_Cons split: nat.split)
qed simp

text \<open>
  C21: Whatever callbacks a tracer has seen, the traces of a transaction that stores its arena are returned without
  a panic, one for each call, and the address of each leads from the outermost call to it.
\<close>

theorem parity_traces_addressed:
  assumes "reach (\<lambda>t. \<exists>r. t = tracer_new r) (\<lambda>t l t'. tracer_handle lib l t = Some t') t"
    "ti_traces (mt_info mt) = tr_traces t"
  shows "\<exists>ts. parity_traces mt = Some ts \<and> length ts = length (tr_traces t) \<and>
     (\<forall>i < length ts. walk (tr_traces t) 0 (py_trace_address (ts ! i)) = Some i \<and>
        py_subtraces (ts ! i) = length (nd_children (tr_traces t ! i)) \<and> py_action (ts ! i) = parity_action (tr_traces t ! i))"
proof -
  have "linked (ti_traces (mt_info mt))" using tracer_machine.reach_inv [OF assms(1)] assms(2) by simp
  from parity_traces_from_walk [OF this, of 0 "tr_traces t"] show ?thesis
    using assms(2) by (simp add: parity_traces_def)
qed

section \<open>Example\<close>

text \<open>The tracer after a call that made another call, and the transaction that stores its traces.\<close>

definition ex_t1 :: Tracer where
  "ex_t1 = (tracer_new False)\<lparr>tr_traces := [node_default\<lparr>nd_trace := the (opened ex_trace_lib (ex_begin 0 1 2))\<rparr>],
     tr_trace_stack := [0]\<rparr>"

definition ex_t2 :: Tracer where
  "ex_t2 = ex_t1\<lparr>tr_traces := add_child 0 (the (opened ex_trace_lib (ex_begin 1 2 3))) (tr_traces ex_t1),
     tr_trace_stack := [1, 0]\<rparr>"

definition ex_mined :: "CallTraceArena MinedTransaction" where
  "ex_mined = \<lparr>mt_info = \<lparr>ti_transaction_hash = 1, ti_transaction_index = 0, ti_from = 1, ti_to = Some 2,
       ti_contract_address = None, ti_logs = [], ti_logs_bloom = 0, ti_traces = tr_traces ex_t2, ti_exit = Stop, ti_out = None\<rparr>,
     mt_receipt = EIP1559Receipt \<lparr>rc_status_code = 1, rc_gas_used = 21000, rc_logs_bloom = 0, rc_logs = []\<rparr>,
     mt_block_hash = 5, mt_block_number = 1\<rparr>"

abbreviation ex_label :: "unit call_begin \<Rightarrow> unit tracer_label" where
  "ex_label b \<equiv> (case b of ByCall data inputs \<Rightarrow> LCall data inputs | ByCreate data inputs \<Rightarrow> LCreate data inputs)"

lemma handle_label: "tracer_handle lib (ex_label b) t = run_begin lib b t"
  by (cases b) simp_all

lemma ex_opened: "opened ex_trace_lib (ex_begin d a c) = Some (the (opened ex_trace_lib (ex_begin d a c)))"
  "ct_depth (the (opened ex_trace_lib (ex_begin d a c))) = unat d"
  by (simp_all add: ex_begin_def ex_data_def depth_def call_trace_default_def)

lemma ex_t1: "tracer_handle ex_trace_lib (ex_label (ex_begin 0 1 2)) (tracer_new False) = Some ex_t1"
  by (simp only: handle_label run_begin_opened [OF ex_opened(1)])
    (subst push_trace.simps, simp add: ex_opened(2) ex_t1_def)

lemma ex_t2: "tracer_handle ex_trace_lib (ex_label (ex_begin 1 2 3)) ex_t1 = Some ex_t2"
proof -
  have "spine (tr_traces ex_t1) [0]" by (simp add: ex_t1_def ex_opened(2))
  from push_trace_spine [OF this, of "the (opened ex_trace_lib (ex_begin 1 2 3))"] show ?thesis
    by (simp only: handle_label run_begin_opened [OF ex_opened(1)]) (simp add: ex_opened(2) ex_t2_def ex_t1_def)
qed

lemma ex_reach: "reach (\<lambda>t. \<exists>r. t = tracer_new r) (\<lambda>t l t'. tracer_handle ex_trace_lib l t = Some t') ex_t2"
proof -
  have "reach (\<lambda>t. \<exists>r. t = tracer_new r) (\<lambda>t l t'. tracer_handle ex_trace_lib l t = Some t') (tracer_new False)"
    by (rule reach_init) blast
  from reach_step [where l = "ex_label (ex_begin 0 1 2)", OF this ex_t1]
  have "reach (\<lambda>t. \<exists>r. t = tracer_new r) (\<lambda>t l t'. tracer_handle ex_trace_lib l t = Some t') ex_t1" .
  from reach_step [where l = "ex_label (ex_begin 1 2 3)", OF this ex_t2] show ?thesis .
qed

theorem parity_traces_addressed_witness:
  "reach (\<lambda>t. \<exists>r. t = tracer_new r) (\<lambda>t l t'. tracer_handle ex_trace_lib l t = Some t') ex_t2 \<and>
   (\<exists>ts. parity_traces ex_mined = Some ts \<and> length ts = 2 \<and> walk (tr_traces ex_t2) 0 (py_trace_address (ts ! 1)) = Some 1)"
proof -
  have "ti_traces (mt_info ex_mined) = tr_traces ex_t2" by (simp add: ex_mined_def)
  moreover have "length (tr_traces ex_t2) = 2" by (simp add: ex_t2_def ex_t1_def add_child_def)
  ultimately show ?thesis using parity_traces_addressed [OF ex_reach, of ex_mined] ex_reach by force
qed

end
