(* ===== verification/Coverage.thy ===== *)
theory Coverage
  imports Prelude
begin

text \<open>
  Coverage: the inspector that counts how often each instruction is executed
  (\<open>evm/src/executor/inspector/coverage.rs\<close>), the maps of its counters and the report that is made of them
  (\<open>evm/src/coverage/mod.rs\<close>).  Counters are 64 bits wide and their overflow is a panic; versions of the compiler
  are a type variable.
\<close>

section \<open>Hit maps\<close>

record HitMap =
  hm_bytecode :: bytes
  hm_hits :: "(nat, u64) fmap"

type_synonym HitMaps = "(H256, HitMap) fmap"

definition hit_map_new :: "bytes \<Rightarrow> HitMap" where
  "hit_map_new bytecode = \<lparr>hm_bytecode = bytecode, hm_hits = fmempty\<rparr>"

text \<open>\<open>*hits.entry(pc).or_default() += n\<close>\<close>

definition count_at :: "(nat, u64) fmap \<Rightarrow> nat \<Rightarrow> u64" where
  "count_at hits pc = (case fmlookup hits pc of Some n \<Rightarrow> n | None \<Rightarrow> 0)"

definition add_hits :: "nat \<Rightarrow> u64 \<Rightarrow> (nat, u64) fmap \<Rightarrow> (nat, u64) fmap option" where
  "add_hits pc n hits = map_option (\<lambda>m. fmupd pc m hits) (add_chk (count_at hits pc) n)"

definition hit :: "nat \<Rightarrow> HitMap \<Rightarrow> HitMap option" where
  "hit pc m = map_option (\<lambda>hits. m\<lparr>hm_hits := hits\<rparr>) (add_hits pc 1 (hm_hits m))"

text \<open>
  \<open>HitMaps::merge\<close>: every map of \<open>other\<close> takes the place of the one for the same code, whose counters are then
  added to it, in the order of the program counters.  The order in which \<open>other\<close> is iterated is an argument.
\<close>

fun add_all :: "(nat, u64) fmap \<Rightarrow> nat list \<Rightarrow> (nat, u64) fmap \<Rightarrow> (nat, u64) fmap option" where
  "add_all extra [] hits = Some hits"
| "add_all extra (pc # pcs) hits = do {
     hits \<leftarrow> add_hits pc (count_at extra pc) hits;
     add_all extra pcs hits
   }"

definition merge_one :: "H256 \<Rightarrow> HitMap \<Rightarrow> HitMaps \<Rightarrow> HitMaps option" where
  "merge_one code_hash m self =
     (case fmlookup self code_hash of
        None \<Rightarrow> Some (fmupd code_hash m self)
      | Some old \<Rightarrow> do {
          hits \<leftarrow> add_all (hm_hits old) (sorted_list_of_fset (fmdom (hm_hits old))) (hm_hits m);
          Some (fmupd code_hash (m\<lparr>hm_hits := hits\<rparr>) self)
        })"

fun merge_list :: "HitMaps \<Rightarrow> H256 list \<Rightarrow> HitMaps \<Rightarrow> HitMaps option" where
  "merge_list other [] self = Some self"
| "merge_list other (h # hs) self =
     (case fmlookup other h of
        None \<Rightarrow> merge_list other hs self
      | Some m \<Rightarrow> do { self \<leftarrow> merge_one h m self; merge_list other hs self })"

definition merge_maps :: "(H256 set \<Rightarrow> H256 list) \<Rightarrow> HitMaps \<Rightarrow> HitMaps \<Rightarrow> HitMaps option" where
  "merge_maps it self other = merge_list other (it (fset (fmdom other))) self"

section \<open>The collector\<close>

text \<open>The hash of the code, the code and the program counter of the interpreter are arguments.\<close>

definition collector_initialize :: "H256 \<Rightarrow> bytes \<Rightarrow> HitMaps \<Rightarrow> HitMaps" where
  "collector_initialize code_hash bytecode maps =
     (if code_hash |\<in>| fmdom maps then maps else fmupd code_hash (hit_map_new bytecode) maps)"

definition collector_step :: "H256 \<Rightarrow> nat \<Rightarrow> HitMaps \<Rightarrow> HitMaps option" where
  "collector_step code_hash pc maps =
     (case fmlookup maps code_hash of
        None \<Rightarrow> Some maps
      | Some m \<Rightarrow> map_option (\<lambda>m. fmupd code_hash m maps) (hit pc m))"

section \<open>The report\<close>

datatype CoverageItemKind = LineItem | StatementItem | BranchItem nat nat | FunctionItem string

record SourceLocation =
  lc_source_id :: nat
  lc_contract_name :: string
  lc_start :: nat
  lc_length :: "nat option"
  lc_line :: nat

record CoverageItem =
  cv_kind :: CoverageItemKind
  cv_loc :: SourceLocation
  cv_hits :: u64

record ItemAnchor =
  an_instruction :: nat
  an_item_id :: nat

record 'v ContractId =
  cd_version :: 'v
  cd_source_id :: nat
  cd_contract_name :: string

record 'v CoverageReport =
  cp_source_paths :: "('v \<times> nat, string) fmap"
  cp_source_paths_to_ids :: "('v \<times> string, nat) fmap"
  cp_items :: "('v, CoverageItem list) fmap"
  cp_anchors :: "('v ContractId, ItemAnchor list) fmap"

definition add_source :: "'v \<Rightarrow> nat \<Rightarrow> string \<Rightarrow> 'v CoverageReport \<Rightarrow> 'v CoverageReport" where
  "add_source version source_id path rp =
     rp\<lparr>cp_source_paths := fmupd (version, source_id) path (cp_source_paths rp),
        cp_source_paths_to_ids := fmupd (version, path) source_id (cp_source_paths_to_ids rp)\<rparr>"

definition get_source_id :: "'v \<Rightarrow> string \<Rightarrow> 'v CoverageReport \<Rightarrow> nat option" where
  "get_source_id version path rp = fmlookup (cp_source_paths_to_ids rp) (version, path)"

definition add_items :: "'v \<Rightarrow> CoverageItem list \<Rightarrow> 'v CoverageReport \<Rightarrow> 'v CoverageReport" where
  "add_items version items rp =
     rp\<lparr>cp_items := fmupd version
       ((case fmlookup (cp_items rp) version of Some xs \<Rightarrow> xs | None \<Rightarrow> []) @ items) (cp_items rp)\<rparr>"

definition add_anchors :: "('v ContractId, ItemAnchor list) fmap \<Rightarrow> 'v CoverageReport \<Rightarrow> 'v CoverageReport" where
  "add_anchors anchors rp = rp\<lparr>cp_anchors := cp_anchors rp ++\<^sub>f anchors\<rparr>"

text \<open>The loop of \<open>add_hit_map\<close>; a missing item is a panic.\<close>

fun add_anchor_hits :: "(nat, u64) fmap \<Rightarrow> ItemAnchor list \<Rightarrow> CoverageItem list option \<Rightarrow> CoverageItem list option option" where
  "add_anchor_hits hits [] items = Some items"
| "add_anchor_hits hits (anchor # anchors) items =
     (case fmlookup hits (an_instruction anchor) of
        None \<Rightarrow> add_anchor_hits hits anchors items
      | Some n \<Rightarrow>
          (case items of
             None \<Rightarrow> None
           | Some xs \<Rightarrow>
               if an_item_id anchor < length xs then do {
                 m \<leftarrow> add_chk (cv_hits (xs ! an_item_id anchor)) n;
                 add_anchor_hits hits anchors
                   (Some (xs[an_item_id anchor := (xs ! an_item_id anchor)\<lparr>cv_hits := m\<rparr>]))
               } else None))"

definition add_hit_map :: "'v ContractId \<Rightarrow> HitMap \<Rightarrow> 'v CoverageReport \<Rightarrow> 'v CoverageReport option" where
  "add_hit_map contract_id m rp =
     (case fmlookup (cp_anchors rp) contract_id of
        None \<Rightarrow> Some rp
      | Some anchors \<Rightarrow> do {
          items \<leftarrow> add_anchor_hits (hm_hits m) anchors (fmlookup (cp_items rp) (cd_version contract_id));
          Some (case items of
              None \<Rightarrow> rp
            | Some xs \<Rightarrow> rp\<lparr>cp_items := fmupd (cd_version contract_id) xs (cp_items rp)\<rparr>)
        })"

section \<open>Summaries\<close>

record CoverageSummary =
  cs_line_count :: nat
  cs_line_hits :: nat
  cs_statement_count :: nat
  cs_statement_hits :: nat
  cs_branch_count :: nat
  cs_branch_hits :: nat
  cs_function_count :: nat
  cs_function_hits :: nat

definition summary_default :: CoverageSummary where
  "summary_default = \<lparr>cs_line_count = 0, cs_line_hits = 0, cs_statement_count = 0, cs_statement_hits = 0,
     cs_branch_count = 0, cs_branch_hits = 0, cs_function_count = 0, cs_function_hits = 0\<rparr>"

definition add_summary :: "CoverageSummary \<Rightarrow> CoverageSummary \<Rightarrow> CoverageSummary" where
  "add_summary s o' = \<lparr>cs_line_count = cs_line_count s + cs_line_count o', cs_line_hits = cs_line_hits s + cs_line_hits o',
     cs_statement_count = cs_statement_count s + cs_statement_count o',
     cs_statement_hits = cs_statement_hits s + cs_statement_hits o',
     cs_branch_count = cs_branch_count s + cs_branch_count o', cs_branch_hits = cs_branch_hits s + cs_branch_hits o',
     cs_function_count = cs_function_count s + cs_function_count o',
     cs_function_hits = cs_function_hits s + cs_function_hits o'\<rparr>"

definition add_item :: "CoverageItem \<Rightarrow> CoverageSummary \<Rightarrow> CoverageSummary" where
  "add_item item s =
     (let n = (if 0 < cv_hits item then 1 else 0) in
      case cv_kind item of
        LineItem \<Rightarrow> s\<lparr>cs_line_count := cs_line_count s + 1, cs_line_hits := cs_line_hits s + n\<rparr>
      | StatementItem \<Rightarrow> s\<lparr>cs_statement_count := cs_statement_count s + 1, cs_statement_hits := cs_statement_hits s + n\<rparr>
      | BranchItem _ _ \<Rightarrow> s\<lparr>cs_branch_count := cs_branch_count s + 1, cs_branch_hits := cs_branch_hits s + n\<rparr>
      | FunctionItem _ \<Rightarrow> s\<lparr>cs_function_count := cs_function_count s + 1, cs_function_hits := cs_function_hits s + n\<rparr>)"

text \<open>
  The file of an item; the message for an unknown source is a parameter.  Both maps by file are built item by
  item, version by version.
\<close>

definition item_path :: "('v \<Rightarrow> nat \<Rightarrow> string) \<Rightarrow> 'v CoverageReport \<Rightarrow> 'v \<Rightarrow> CoverageItem \<Rightarrow> string" where
  "item_path unknown rp version item =
     (case fmlookup (cp_source_paths rp) (version, lc_source_id (cv_loc item)) of
        Some path \<Rightarrow> path
      | None \<Rightarrow> unknown version (lc_source_id (cv_loc item)))"

definition version_items :: "('v set \<Rightarrow> 'v list) \<Rightarrow> 'v CoverageReport \<Rightarrow> ('v \<times> CoverageItem) list" where
  "version_items it rp =
     concat (map (\<lambda>v. map (Pair v) (case fmlookup (cp_items rp) v of Some xs \<Rightarrow> xs | None \<Rightarrow> []))
       (it (fset (fmdom (cp_items rp)))))"

definition summary_by_file :: "('v \<Rightarrow> nat \<Rightarrow> string) \<Rightarrow> ('v set \<Rightarrow> 'v list) \<Rightarrow> 'v CoverageReport \<Rightarrow>
    (string, CoverageSummary) fmap" where
  "summary_by_file unknown it rp =
     fold (\<lambda>(v, item) m. let path = item_path unknown rp v item in
         fmupd path (add_item item (case fmlookup m path of Some s \<Rightarrow> s | None \<Rightarrow> summary_default)) m)
       (version_items it rp) fmempty"

definition items_by_source :: "('v \<Rightarrow> nat \<Rightarrow> string) \<Rightarrow> ('v set \<Rightarrow> 'v list) \<Rightarrow> 'v CoverageReport \<Rightarrow>
    (string, CoverageItem list) fmap" where
  "items_by_source unknown it rp =
     fold (\<lambda>(v, item) m. let path = item_path unknown rp v item in
         fmupd path ((case fmlookup m path of Some xs \<Rightarrow> xs | None \<Rightarrow> []) @ [item]) m)
       (version_items it rp) fmempty"

section \<open>Counting and merging\<close>

text \<open>The counter of an instruction, zero for code that is not in the maps.\<close>

definition hits_at :: "HitMaps \<Rightarrow> H256 \<Rightarrow> nat \<Rightarrow> nat" where
  "hits_at maps h pc = (case fmlookup maps h of Some m \<Rightarrow> unat (count_at (hm_hits m) pc) | None \<Rightarrow> 0)"

lemma count_at_upd: "count_at (fmupd pc n hits) q = (if q = pc then n else count_at hits q)"
  by (simp add: count_at_def)

lemma add_hits_spec:
  "(case add_hits pc n hits of
      Some hits' \<Rightarrow> fmdom hits' = finsert pc (fmdom hits) \<and>
        (\<forall>q. unat (count_at hits' q) = unat (count_at hits q) + (if q = pc then unat n else 0))
    | None \<Rightarrow> 2 ^ 64 \<le> unat (count_at hits pc) + unat n)"
  by (auto simp: add_hits_def add_chk_def count_at_upd unat_word_ariths split: option.splits)

lemma add_all_spec:
  assumes "distinct pcs"
  shows "case add_all extra pcs hits of
      Some hits' \<Rightarrow> (\<forall>q. unat (count_at hits' q) = unat (count_at hits q) + (if q \<in> set pcs then unat (count_at extra q) else 0))
    | None \<Rightarrow> (\<exists>q \<in> set pcs. 2 ^ 64 \<le> unat (count_at hits q) + unat (count_at extra q))"
  using assms
proof (induction pcs arbitrary: hits)
  case (Cons pc pcs)
  note one = add_hits_spec [where pc = pc and n = "count_at extra pc" and hits = hits]
  show ?case
  proof (cases "add_hits pc (count_at extra pc) hits")
    case None
    then show ?thesis using one by auto
  next
    case (Some hits1)
    then have eq: "unat (count_at hits1 q) = unat (count_at hits q)" if "q \<noteq> pc" for q using one that by auto
    have at: "unat (count_at hits1 pc) = unat (count_at hits pc) + unat (count_at extra pc)" using one Some by auto
    show ?thesis using Cons.IH [of hits1] Cons.prems Some eq at
      by (fastforce split: option.splits)
  qed
qed simp

lemma merge_one_spec:
  "(case merge_one h m self of
      Some self' \<Rightarrow> fmdom self' = finsert h (fmdom self) \<and> (\<forall>h' pc. hits_at self' h' pc = hits_at self h' pc +
        (if h' = h then unat (count_at (hm_hits m) pc) else 0))
    | None \<Rightarrow> (\<exists>pc. 2 ^ 64 \<le> hits_at self h pc + unat (count_at (hm_hits m) pc)))"
proof (cases "fmlookup self h")
  case None
  then show ?thesis by (simp add: merge_one_def hits_at_def)
next
  case (Some old)
  have zero: "q |\<notin>| fmdom (hm_hits old) \<Longrightarrow> count_at (hm_hits old) q = 0" for q
    by (simp add: count_at_def fmdom_notD)
  let ?pcs = "sorted_list_of_fset (fmdom (hm_hits old))"
  have dist: "distinct ?pcs" and set: "set ?pcs = fset (fmdom (hm_hits old))"
    by (simp_all add: sorted_list_of_fset.rep_eq)
  note all = add_all_spec [OF dist, where extra = "hm_hits old" and hits = "hm_hits m"]
  show ?thesis
  proof (cases "add_all (hm_hits old) ?pcs (hm_hits m)")
    case None
    then show ?thesis using Some all by (auto simp: merge_one_def hits_at_def add.commute)
  next
    case (Some hits)
    then have "unat (count_at hits q) = unat (count_at (hm_hits m) q) + unat (count_at (hm_hits old) q)" for q
      using all set zero [of q] by simp
    then show ?thesis using Some \<open>fmlookup self h = Some old\<close> by (simp add: merge_one_def hits_at_def)
  qed
qed

lemma merge_list_spec:
  assumes "distinct hs" "set hs \<subseteq> fset (fmdom other)"
  shows "case merge_list other hs self of
      Some self' \<Rightarrow> fset (fmdom self') = set hs \<union> fset (fmdom self) \<and>
        (\<forall>h pc. hits_at self' h pc = hits_at self h pc + (if h \<in> set hs then hits_at other h pc else 0))
    | None \<Rightarrow> (\<exists>h \<in> set hs. \<exists>pc. 2 ^ 64 \<le> hits_at self h pc + hits_at other h pc)"
  using assms
proof (induction hs arbitrary: self)
  case (Cons h hs)
  then obtain m where m: "fmlookup other h = Some m" by (auto simp: fmlookup_dom_iff)
  note one = merge_one_spec [where h = h and m = m and self = self]
  have other: "hits_at other h pc = unat (count_at (hm_hits m) pc)" for pc using m by (simp add: hits_at_def)
  show ?case
  proof (cases "merge_one h m self")
    case None
    then show ?thesis using one m other by auto
  next
    case (Some self1)
    then have at: "hits_at self1 h' pc = hits_at self h' pc + (if h' = h then hits_at other h pc else 0)" for h' pc
      using one other by simp
    have dom: "fset (fmdom self1) = insert h (fset (fmdom self))" using one Some by simp
    have IH: "case merge_list other hs self1 of
        Some self' \<Rightarrow> fset (fmdom self') = set hs \<union> fset (fmdom self1) \<and>
          (\<forall>h pc. hits_at self' h pc = hits_at self1 h pc + (if h \<in> set hs then hits_at other h pc else 0))
      | None \<Rightarrow> (\<exists>h \<in> set hs. \<exists>pc. 2 ^ 64 \<le> hits_at self1 h pc + hits_at other h pc)"
      using Cons.prems by (intro Cons.IH) auto
    show ?thesis
    proof (cases "merge_list other hs self1")
      case None
      then show ?thesis using IH m Some at Cons.prems(1) by (auto split: if_splits)
    next
      case (Some self2)
      then show ?thesis using IH m \<open>merge_one h m self = Some self1\<close> at dom Cons.prems(1) by auto
    qed
  qed
qed simp

lemma merge_maps_adds:
  assumes "iter_order it" "merge_maps it self other = Some maps"
  shows "hits_at maps h pc = hits_at self h pc + hits_at other h pc"
proof -
  have "h |\<notin>| fmdom other \<Longrightarrow> hits_at other h pc = 0" by (simp add: hits_at_def fmdom_notD)
  then show ?thesis
    using assms merge_list_spec [where hs = "it (fset (fmdom other))" and other = other and self = self]
    by (auto simp: merge_maps_def split: if_splits)
qed

lemma merge_maps_None:
  assumes "iter_order it" "merge_maps it self other = None"
  shows "\<exists>h pc. 2 ^ 64 \<le> hits_at self h pc + hits_at other h pc"
  using assms merge_list_spec [where hs = "it (fset (fmdom other))" and other = other and self = self]
  by (auto simp: merge_maps_def)

section \<open>Runs of the collector\<close>

datatype coverage_event = Initialize H256 bytes | ExecuteAt H256 nat

fun collect :: "coverage_event list \<Rightarrow> HitMaps \<Rightarrow> HitMaps option" where
  "collect [] maps = Some maps"
| "collect (Initialize h code # evs) maps = collect evs (collector_initialize h code maps)"
| "collect (ExecuteAt h pc # evs) maps = do { maps \<leftarrow> collector_step h pc maps; collect evs maps }"

text \<open>Code is initialised before it is executed.\<close>

fun initialised :: "H256 set \<Rightarrow> coverage_event list \<Rightarrow> bool" where
  "initialised S [] \<longleftrightarrow> True"
| "initialised S (Initialize h code # evs) \<longleftrightarrow> initialised (insert h S) evs"
| "initialised S (ExecuteAt h pc # evs) \<longleftrightarrow> h \<in> S \<and> initialised S evs"

lemma collect_counts:
  assumes "initialised (fset (fmdom maps)) evs" "collect evs maps = Some maps'"
  shows "hits_at maps' h pc = hits_at maps h pc + count_list evs (ExecuteAt h pc)"
  using assms
proof (induction evs maps rule: collect.induct [case_names Nil Init Exec])
  case (Init h' code evs maps)
  have "hits_at (collector_initialize h' code maps) h pc = hits_at maps h pc"
    by (auto simp: collector_initialize_def hits_at_def hit_map_new_def count_at_def fmdom_notD)
  moreover have "fset (fmdom (collector_initialize h' code maps)) = insert h' (fset (fmdom maps))"
    by (auto simp: collector_initialize_def)
  ultimately show ?case using Init by simp
next
  case (Exec h' q evs maps)
  then obtain m hits maps1 where m: "fmlookup maps h' = Some m" "add_hits q 1 (hm_hits m) = Some hits"
    "maps1 = fmupd h' (m\<lparr>hm_hits := hits\<rparr>) maps" "collect evs maps1 = Some maps'"
    by (auto simp: collector_step_def hit_def fmlookup_dom_iff split: option.splits bind_splits)
  have "hits_at maps1 h pc = hits_at maps h pc + (if h = h' \<and> pc = q then 1 else 0)"
    using m(1-3) add_hits_spec [where pc = q and n = 1 and hits = "hm_hits m"] by (auto simp: hits_at_def)
  moreover have "hits_at maps' h pc = hits_at maps1 h pc + count_list evs (ExecuteAt h pc)"
    using Exec m by (intro Exec.IH) (auto simp: collector_step_def hit_def fmlookup_dom_iff insert_absorb)
  ultimately show ?case by auto
qed simp

lemma hits_at_empty [simp]: "hits_at fmempty h pc = 0"
  by (simp add: hits_at_def)

text \<open>
  C22: Merging the maps that the collector recorded in two runs counts, for every instruction of every code, how
  often the two runs executed it; the merge panics only when such a number does not fit in 64 bits.
\<close>

theorem merged_hits_count_steps:
  assumes "iter_order it" "initialised {} run1" "initialised {} run2"
    "collect run1 fmempty = Some maps1" "collect run2 fmempty = Some maps2"
  shows "case merge_maps it maps1 maps2 of
      Some maps \<Rightarrow> (\<forall>h pc. hits_at maps h pc = count_list (run1 @ run2) (ExecuteAt h pc))
    | None \<Rightarrow> (\<exists>h pc. 2 ^ 64 \<le> count_list (run1 @ run2) (ExecuteAt h pc))"
proof -
  have "hits_at maps1 h pc = count_list run1 (ExecuteAt h pc)" "hits_at maps2 h pc = count_list run2 (ExecuteAt h pc)" for h pc
    using assms collect_counts [of fmempty run1 maps1] collect_counts [of fmempty run2 maps2] by simp_all
  then show ?thesis
    using merge_maps_adds [OF assms(1), of maps1 maps2] merge_maps_None [OF assms(1), of maps1 maps2]
    by (cases "merge_maps it maps1 maps2") simp_all
qed

section \<open>What a report contains\<close>

text \<open>
  Adding a hit map adds to every item the counters of its anchors; it panics only when a counter overflows, as
  long as the anchors refer to items of the report.
\<close>

definition anchor_hits :: "(nat, u64) fmap \<Rightarrow> ItemAnchor list \<Rightarrow> nat \<Rightarrow> nat" where
  "anchor_hits hits anchors k = sum_list (map (\<lambda>a. unat (count_at hits (an_instruction a))) (filter (\<lambda>a. an_item_id a = k) anchors))"

lemma add_anchor_hits_adds:
  assumes "add_anchor_hits hits anchors (Some items) = Some items'"
  shows "\<exists>xs. items' = Some xs \<and> length xs = length items \<and>
     (\<forall>k < length items. cv_kind (xs ! k) = cv_kind (items ! k) \<and> cv_loc (xs ! k) = cv_loc (items ! k) \<and>
        unat (cv_hits (xs ! k)) = unat (cv_hits (items ! k)) + anchor_hits hits anchors k)"
  using assms
proof (induction anchors arbitrary: items)
  case (Cons a anchors)
  show ?case
  proof (cases "fmlookup hits (an_instruction a)")
    case None
    then show ?thesis using Cons by (simp add: anchor_hits_def count_at_def)
  next
    case (Some n)
    with Cons.prems obtain m where m: "an_item_id a < length items" "add_chk (cv_hits (items ! an_item_id a)) n = Some m"
      "add_anchor_hits hits anchors (Some (items[an_item_id a := (items ! an_item_id a)\<lparr>cv_hits := m\<rparr>])) = Some items'"
      by (auto split: if_splits bind_splits)
    from Cons.IH [OF m(3)] unat_add_chk [OF m(2)] m(1) Some show ?thesis
      by (auto simp: anchor_hits_def count_at_def nth_list_update)
  qed
qed (auto simp: anchor_hits_def)

lemma add_anchor_hits_panics:
  assumes "\<And>a. a \<in> set anchors \<Longrightarrow> an_item_id a < length items" "add_anchor_hits hits anchors (Some items) = None"
  shows "\<exists>k < length items. 2 ^ 64 \<le> unat (cv_hits (items ! k)) + anchor_hits hits anchors k"
  using assms
proof (induction anchors arbitrary: items)
  case (Cons a anchors)
  show ?case
  proof (cases "fmlookup hits (an_instruction a)")
    case None
    then show ?thesis using Cons by (simp add: anchor_hits_def count_at_def)
  next
    case (Some n)
    have a: "an_item_id a < length items" using Cons.prems by simp
    show ?thesis
    proof (cases "add_chk (cv_hits (items ! an_item_id a)) n")
      case None
      then show ?thesis using a Some
        by (intro exI [of _ "an_item_id a"]) (auto simp: anchor_hits_def count_at_def add_chk_def split: if_splits)
    next
      case (Some m)
      let ?items = "items[an_item_id a := (items ! an_item_id a)\<lparr>cv_hits := m\<rparr>]"
      obtain k where "k < length items" "2 ^ 64 \<le> unat (cv_hits (?items ! k)) + anchor_hits hits anchors k"
        using Cons.IH [of ?items] Cons.prems a Some \<open>fmlookup hits (an_instruction a) = Some n\<close> by auto
      then show ?thesis using unat_add_chk [OF Some] a \<open>fmlookup hits (an_instruction a) = Some n\<close>
        by (intro exI [of _ k]) (auto simp: anchor_hits_def count_at_def nth_list_update split: if_splits)
    qed
  qed
qed simp

text \<open>The summary of a file is the summary of its items.\<close>

lemma summary_of_items:
  "fmlookup (summary_by_file unknown it rp) path =
     map_option (\<lambda>xs. fold add_item xs summary_default) (fmlookup (items_by_source unknown it rp) path)"
proof -
  have "\<forall>path. fmlookup (fold (\<lambda>(v, item) m. let path = item_path unknown rp v item in
         fmupd path (add_item item (case fmlookup m path of Some s \<Rightarrow> s | None \<Rightarrow> summary_default)) m) vs m1) path =
       map_option (\<lambda>xs. fold add_item xs summary_default)
         (fmlookup (fold (\<lambda>(v, item) m. let path = item_path unknown rp v item in
            fmupd path ((case fmlookup m path of Some xs \<Rightarrow> xs | None \<Rightarrow> []) @ [item]) m) vs m2) path)"
    if "\<forall>path. fmlookup m1 path = map_option (\<lambda>xs. fold add_item xs summary_default) (fmlookup m2 path)" for vs m1 m2
    using that by (induction vs arbitrary: m1 m2) (auto simp: Let_def split: option.splits)
  from this [of fmempty fmempty] show ?thesis by (simp add: summary_by_file_def items_by_source_def)
qed

text \<open>An example: two runs of the same code.\<close>

definition ex_run :: "coverage_event list" where
  "ex_run = [Initialize 7 [1, 2], ExecuteAt 7 0, ExecuteAt 7 1, ExecuteAt 7 0]"

definition ex_maps :: HitMaps where
  "ex_maps = fmupd 7 \<lparr>hm_bytecode = [1, 2], hm_hits = fmupd 0 2 (fmupd 1 1 (fmupd 0 1 fmempty))\<rparr>
     (fmupd 7 \<lparr>hm_bytecode = [1, 2], hm_hits = fmupd 1 1 (fmupd 0 1 fmempty)\<rparr>
       (fmupd 7 \<lparr>hm_bytecode = [1, 2], hm_hits = fmupd 0 1 fmempty\<rparr>
         (fmupd 7 \<lparr>hm_bytecode = [1, 2], hm_hits = fmempty\<rparr> fmempty)))"

lemma ex_run_collects: "collect ex_run fmempty = Some ex_maps"
  by (simp add: ex_run_def ex_maps_def collector_initialize_def collector_step_def hit_map_new_def hit_def add_hits_def
      add_chk_def count_at_def)

theorem merged_hits_count_steps_witness:
  "collect ex_run fmempty = Some ex_maps \<and>
   (\<exists>maps. merge_maps sorted_list_of_set ex_maps ex_maps = Some maps \<and> hits_at maps 7 0 = 4)"
proof -
  have init: "initialised {} ex_run" by (simp add: ex_run_def)
  have "count_list (ex_run @ ex_run) (ExecuteAt h pc) < 2 ^ 64" for h pc
    by (rule order_le_less_trans [OF count_le_length]) (simp add: ex_run_def)
  then show ?thesis
    using merged_hits_count_steps [OF iter_order_sorted init init ex_run_collects ex_run_collects] ex_run_collects
    by (auto simp: not_le [symmetric] ex_run_def split: option.splits)
qed

end
