(* ===== verification/FilterPolls.thy ===== *)
theory FilterPolls
  imports ChainSafety
begin

text \<open>
  The filters a client polls (\<open>anvil/src/filter.rs\<close>) and the logs of a block that match a filter
  (\<open>filter_logs\<close> of \<open>anvil/src/pubsub.rs\<close>).  A receiver is the queue of what was sent to it and not yet
  received; the time, the random identifier of a new filter and the matching of \<open>FilteredParams\<close> (crate
  \<open>ethers\<close>) are arguments.
\<close>

section \<open>Logs of a block\<close>

record EthersLog =
  el_address :: Address
  el_topics :: "H256 list"
  el_data :: bytes
  el_block_hash :: "H256 option"
  el_block_number :: "u64 option"
  el_transaction_hash :: "H256 option"
  el_transaction_index :: "nat option"
  el_log_index :: "U256 option"
  el_transaction_log_index :: "nat option"
  el_log_type :: "string option"
  el_removed :: "bool option"

record 'f FilteredParams =
  fl_filter :: "'f option"
  fl_block_range :: "u64 \<Rightarrow> bool"
  fl_block_hash :: "H256 \<Rightarrow> bool"
  fl_address :: "EthersLog \<Rightarrow> bool"
  fl_topics :: "EthersLog \<Rightarrow> bool"

definition add_log :: "H256 \<Rightarrow> Log \<Rightarrow> Block \<Rightarrow> 'f FilteredParams \<Rightarrow> bool option" where
  "add_log block_hash l block params =
     (let log = \<lparr>el_address = lg_address l, el_topics = lg_topics l, el_data = lg_data l, el_block_hash = None,
            el_block_number = None, el_transaction_hash = None, el_transaction_index = None, el_log_index = None,
            el_transaction_log_index = None, el_log_type = None, el_removed = Some False\<rparr>
      in if fl_filter params \<noteq> None then do {
           block_number \<leftarrow> as_u64 (hd_number (bl_header block));
           Some (fl_block_range params block_number \<and> fl_block_hash params block_hash \<and>
                 fl_address params log \<and> fl_topics params log)
         } else Some True)"

text \<open>
  The inner and the outer loop of \<open>filter_logs\<close>.  \<open>log_index\<close> has 32 bits and counts all logs of the block.
\<close>

fun log_loop :: "'f FilteredParams \<Rightarrow> Block \<Rightarrow> H256 \<Rightarrow> nat \<Rightarrow> H256 option \<Rightarrow> nat \<Rightarrow> 32 word \<Rightarrow> Log list \<Rightarrow>
    EthersLog list \<Rightarrow> (32 word \<times> EthersLog list) option" where
  "log_loop params block bh ri th tli li [] logs = Some (li, logs)"
| "log_loop params block bh ri th tli li (l # ls) logs = do {
     keep \<leftarrow> add_log bh l block params;
     logs \<leftarrow> (if keep then do {
         block_number \<leftarrow> as_u64 (hd_number (bl_header block));
         Some (logs @ [\<lparr>el_address = lg_address l, el_topics = lg_topics l, el_data = lg_data l,
           el_block_hash = Some bh, el_block_number = Some block_number, el_transaction_hash = th,
           el_transaction_index = Some ri, el_log_index = Some (ucast li),
           el_transaction_log_index = Some tli, el_log_type = None, el_removed = Some False\<rparr>])
       } else Some logs);
     li \<leftarrow> add_chk li 1;
     log_loop params block bh ri th (Suc tli) li ls logs
   }"

fun receipt_loop :: "crypto \<Rightarrow> rlp_lib \<Rightarrow> 'f FilteredParams \<Rightarrow> Block \<Rightarrow> H256 \<Rightarrow> nat \<Rightarrow> 32 word \<Rightarrow> TypedReceipt list \<Rightarrow>
    EthersLog list \<Rightarrow> EthersLog list option" where
  "receipt_loop cr rlp params block bh ri li [] logs = Some logs"
| "receipt_loop cr rlp params block bh ri li (receipt # receipts) logs = do {
     let receipt_logs = rc_logs (receipt_inner receipt);
     transaction_hash \<leftarrow>
       (if receipt_logs = [] then Some None
        else if ri < length (bl_transactions block) then Some (Some (mi_hash cr rlp (bl_transactions block ! ri)))
        else None);
     (li, logs) \<leftarrow> log_loop params block bh ri transaction_hash 0 li receipt_logs logs;
     receipt_loop cr rlp params block bh (Suc ri) li receipts logs
   }"

definition filter_logs :: "crypto \<Rightarrow> rlp_lib \<Rightarrow> Block \<Rightarrow> TypedReceipt list \<Rightarrow> 'f FilteredParams \<Rightarrow> EthersLog list option" where
  "filter_logs cr rlp block receipts params =
     receipt_loop cr rlp params block (header_hash cr rlp (bl_header block)) 0 0 receipts []"

text \<open>\<open>Backend::mined_receipts\<close>\<close>

fun receipts_of :: "(H256, 't MinedTransaction) fmap \<Rightarrow> H256 list \<Rightarrow> TypedReceipt list option" where
  "receipts_of txs [] = Some []"
| "receipts_of txs (h # hs) = do {
     mt \<leftarrow> fmlookup txs h;
     receipts \<leftarrow> receipts_of txs hs;
     Some (mt_receipt mt # receipts)
   }"

definition mined_receipts :: "crypto \<Rightarrow> rlp_lib \<Rightarrow> 't BlockchainStorage \<Rightarrow> H256 \<Rightarrow> TypedReceipt list option" where
  "mined_receipts cr rlp storage h = do {
     block \<leftarrow> get_block_by_hash h storage;
     receipts_of (st_transactions storage) (map (mi_hash cr rlp) (bl_transactions block))
   }"

text \<open>
  The logs that are returned are those that match, in the order of the block, each with the position it has among
  all logs of the block; nothing panics as long as there are fewer than \<open>2 ^ 32\<close> of them.
\<close>

definition log_key :: "EthersLog \<Rightarrow> Address \<times> H256 list \<times> bytes" where
  "log_key l = (el_address l, el_topics l, el_data l)"

definition matching :: "'f FilteredParams \<Rightarrow> Block \<Rightarrow> H256 \<Rightarrow> nat \<Rightarrow> Log list \<Rightarrow> ((Address \<times> H256 list \<times> bytes) \<times> nat) list" where
  "matching params block bh k ls =
     map (\<lambda>(i, l). ((lg_address l, lg_topics l, lg_data l), i))
       (filter (\<lambda>(i, l). add_log bh l block params = Some True) (enumerate k ls))"

abbreviation position_of :: "EthersLog \<Rightarrow> nat" where
  "position_of l \<equiv> unat (the (el_log_index l))"

lemma add_log_Some: "as_u64 (hd_number (bl_header block)) = Some n \<Longrightarrow> \<exists>b. add_log bh l block params = Some b"
  by (auto simp: add_log_def Let_def)

lemma unat_ucast_u256: "unat (ucast (li :: 32 word) :: U256) = unat li"
proof -
  have "unat li < 2 ^ 256" by (rule order_less_le_trans [OF unsigned_less]) simp
  then show ?thesis by (simp add: unsigned_ucast_eq take_bit_nat_eq_self)
qed

lemma matching_simps:
  "matching params block bh k [] = []"
  "matching params block bh k (l # ls) =
     (if add_log bh l block params = Some True then [((lg_address l, lg_topics l, lg_data l), k)] else []) @
     matching params block bh (Suc k) ls"
  "matching params block bh k (ls @ ls') = matching params block bh k ls @ matching params block bh (k + length ls) ls'"
  by (simp_all add: matching_def enumerate_append_eq)

lemma log_loop_matching:
  assumes "as_u64 (hd_number (bl_header block)) = Some n" "unat li + length ls < 2 ^ 32"
  shows "\<exists>li' new. log_loop params block bh ri th tli li ls logs = Some (li', logs @ new) \<and> unat li' = unat li + length ls \<and>
     map (\<lambda>l. (log_key l, position_of l)) new = matching params block bh (unat li) ls"
  using assms(2)
proof (induction ls arbitrary: tli li logs)
  case (Cons l ls)
  obtain b where b: "add_log bh l block params = Some b" using add_log_Some [OF assms(1)] by blast
  obtain li1 where li1: "add_chk li 1 = Some li1" using Cons.prems by (simp add: add_chk_def)
  have u: "unat li1 = Suc (unat li)" using unat_add_chk [OF li1] by simp
  have IH: "\<exists>li' new. log_loop params block bh ri th (Suc tli) li1 ls logs = Some (li', logs @ new) \<and>
      unat li' = Suc (unat li) + length ls \<and>
      map (\<lambda>l. (log_key l, position_of l)) new = matching params block bh (Suc (unat li)) ls" for logs
    using Cons.IH [of li1 "Suc tli" logs] Cons.prems u by simp
  show ?case
  proof (cases b)
    case True
    define e where "e = \<lparr>el_address = lg_address l, el_topics = lg_topics l, el_data = lg_data l,
           el_block_hash = Some bh, el_block_number = Some n, el_transaction_hash = th,
           el_transaction_index = Some ri, el_log_index = Some (ucast li),
           el_transaction_log_index = Some tli, el_log_type = None, el_removed = Some False\<rparr>"
    obtain li' new where "log_loop params block bh ri th (Suc tli) li1 ls (logs @ [e]) = Some (li', logs @ e # new)"
      "unat li' = Suc (unat li) + length ls" "map (\<lambda>l. (log_key l, position_of l)) new = matching params block bh (Suc (unat li)) ls"
      using IH [of "logs @ [e]"] by auto
    then show ?thesis using b True li1 assms(1)
      by (intro exI [of _ li'] exI [of _ "e # new"])
        (simp flip: e_def, simp add: matching_simps log_key_def e_def unat_ucast_u256)
  next
    case False
    then show ?thesis using IH [of logs] b li1 by (auto simp: matching_simps)
  qed
qed (simp add: matching_simps)

lemma receipt_loop_matching:
  assumes "as_u64 (hd_number (bl_header block)) = Some n" "ri + length receipts \<le> length (bl_transactions block)"
    "unat li + length (concat (map (\<lambda>r. rc_logs (receipt_inner r)) receipts)) < 2 ^ 32"
  shows "\<exists>new. receipt_loop cr rlp params block bh ri li receipts logs = Some (logs @ new) \<and>
     map (\<lambda>l. (log_key l, position_of l)) new = matching params block bh (unat li) (concat (map (\<lambda>r. rc_logs (receipt_inner r)) receipts))"
  using assms(2,3)
proof (induction receipts arbitrary: ri li logs)
  case (Cons r receipts)
  let ?ls = "rc_logs (receipt_inner r)"
  obtain th where th: "(if ?ls = [] then Some None
      else if ri < length (bl_transactions block) then Some (Some (mi_hash cr rlp (bl_transactions block ! ri))) else None) = Some th"
    using Cons.prems(1) by (cases "?ls = []") simp_all
  have "unat li + length ?ls < 2 ^ 32" using Cons.prems(2) by simp
  then obtain li1 new where new: "log_loop params block bh ri th 0 li ?ls logs = Some (li1, logs @ new)"
    "unat li1 = unat li + length ?ls"
    "map (\<lambda>l. (log_key l, position_of l)) new = matching params block bh (unat li) ?ls"
    using log_loop_matching [OF assms(1)] by blast
  have "Suc ri + length receipts \<le> length (bl_transactions block)"
    "unat li1 + length (concat (map (\<lambda>r. rc_logs (receipt_inner r)) receipts)) < 2 ^ 32"
    using Cons.prems new(2) by simp_all
  from Cons.IH [OF this, of "logs @ new"] obtain new' where
    "receipt_loop cr rlp params block bh (Suc ri) li1 receipts (logs @ new) = Some (logs @ new @ new')"
    "map (\<lambda>l. (log_key l, position_of l)) new' = matching params block bh (unat li1) (concat (map (\<lambda>r. rc_logs (receipt_inner r)) receipts))"
    by auto
  then show ?case using new th by (auto simp: matching_simps Let_def)
qed (simp add: matching_simps)

lemma filter_logs_matching:
  assumes "as_u64 (hd_number (bl_header block)) = Some n" "length receipts \<le> length (bl_transactions block)"
    "length (concat (map (\<lambda>r. rc_logs (receipt_inner r)) receipts)) < 2 ^ 32"
  shows "\<exists>logs. filter_logs cr rlp block receipts params = Some logs \<and> map (\<lambda>l. (log_key l, position_of l)) logs =
     matching params block (header_hash cr rlp (bl_header block)) 0 (concat (map (\<lambda>r. rc_logs (receipt_inner r)) receipts))"
  using receipt_loop_matching [of block n 0 receipts 0 cr rlp params "header_hash cr rlp (bl_header block)" "[]"] assms
  by (simp add: filter_logs_def)

section \<open>Filters\<close>

record NewBlockNotification =
  nb_hash :: H256
  nb_header :: Header

record 'f LogsFilter =
  lf_blocks :: "NewBlockNotification list"
  lf_filter :: "'f FilteredParams"
  lf_historic :: "EthersLog list option"

datatype 'f EthFilter = FLogs "'f LogsFilter" | FBlocks "NewBlockNotification list" | FPendingTransactions "H256 list"

text \<open>\<open>LogsFilter::poll\<close>: the logs of one block, and the loop over the queue.\<close>

definition block_logs :: "crypto \<Rightarrow> rlp_lib \<Rightarrow> 't BlockchainStorage \<Rightarrow> 'f FilteredParams \<Rightarrow> NewBlockNotification \<Rightarrow>
    EthersLog list option" where
  "block_logs cr rlp storage params n =
     (case (mined_receipts cr rlp storage (nb_hash n), get_block_by_hash (nb_hash n) storage) of
        (Some receipts, Some block) \<Rightarrow> filter_logs cr rlp block receipts params
      | _ \<Rightarrow> Some [])"

fun drain_logs :: "crypto \<Rightarrow> rlp_lib \<Rightarrow> 't BlockchainStorage \<Rightarrow> 'f FilteredParams \<Rightarrow> NewBlockNotification list \<Rightarrow>
    EthersLog list \<Rightarrow> EthersLog list option" where
  "drain_logs cr rlp storage params [] logs = Some logs"
| "drain_logs cr rlp storage params (n # ns) logs = do {
     new \<leftarrow> block_logs cr rlp storage params n;
     drain_logs cr rlp storage params ns (logs @ new)
   }"

definition logs_poll :: "crypto \<Rightarrow> rlp_lib \<Rightarrow> 't BlockchainStorage \<Rightarrow> 'f LogsFilter \<Rightarrow>
    (EthersLog list \<times> 'f LogsFilter) option" where
  "logs_poll cr rlp storage f = do {
     logs \<leftarrow> drain_logs cr rlp storage (lf_filter f) (lf_blocks f) (case lf_historic f of Some l \<Rightarrow> l | None \<Rightarrow> []);
     Some (logs, f\<lparr>lf_historic := None, lf_blocks := []\<rparr>)
   }"

datatype changes = LogChanges "EthersLog list" | HashChanges "H256 list" | NoChanges

fun filter_next :: "crypto \<Rightarrow> rlp_lib \<Rightarrow> 't BlockchainStorage \<Rightarrow> 'f EthFilter \<Rightarrow> (changes \<times> 'f EthFilter) option" where
  "filter_next cr rlp storage (FLogs f) =
     map_option (\<lambda>(logs, f). (LogChanges logs, FLogs f)) (logs_poll cr rlp storage f)"
| "filter_next cr rlp storage (FBlocks blocks) = Some (HashChanges (map nb_hash blocks), FBlocks [])"
| "filter_next cr rlp storage (FPendingTransactions txs) = Some (HashChanges txs, FPendingTransactions [])"

record 'f Filters =
  fs_active :: "(string, 'f EthFilter \<times> nat) fmap"
  fs_keepalive :: nat

definition ACTIVE_FILTER_TIMEOUT_SECS :: nat where
  "ACTIVE_FILTER_TIMEOUT_SECS = 60 * 5"

definition filters_default :: "'f Filters" where
  "filters_default = \<lparr>fs_active = fmempty, fs_keepalive = ACTIVE_FILTER_TIMEOUT_SECS\<rparr>"

definition next_deadline :: "nat \<Rightarrow> 'f Filters \<Rightarrow> nat" where
  "next_deadline now fs = now + fs_keepalive fs"

definition add_filter :: "nat \<Rightarrow> string \<Rightarrow> 'f EthFilter \<Rightarrow> 'f Filters \<Rightarrow> 'f Filters" where
  "add_filter now new_id f fs = fs\<lparr>fs_active := fmupd new_id (f, next_deadline now fs) (fs_active fs)\<rparr>"

definition get_filter_changes :: "crypto \<Rightarrow> rlp_lib \<Rightarrow> 't BlockchainStorage \<Rightarrow> nat \<Rightarrow> string \<Rightarrow> 'f Filters \<Rightarrow>
    (changes \<times> 'f Filters) option" where
  "get_filter_changes cr rlp storage now fid fs =
     (case fmlookup (fs_active fs) fid of
        None \<Rightarrow> Some (NoChanges, fs)
      | Some (f, _) \<Rightarrow> do {
          (resp, f) \<leftarrow> filter_next cr rlp storage f;
          Some (resp, fs\<lparr>fs_active := fmupd fid (f, next_deadline now fs) (fs_active fs)\<rparr>)
        })"

definition get_log_filter :: "string \<Rightarrow> 'f Filters \<Rightarrow> 'f option" where
  "get_log_filter fid fs =
     (case fmlookup (fs_active fs) fid of Some (FLogs log, _) \<Rightarrow> fl_filter (lf_filter log) | _ \<Rightarrow> None)"

definition uninstall_filter :: "string \<Rightarrow> 'f Filters \<Rightarrow> 'f EthFilter option \<times> 'f Filters" where
  "uninstall_filter fid fs =
     (map_option fst (fmlookup (fs_active fs) fid), fs\<lparr>fs_active := fmdrop fid (fs_active fs)\<rparr>)"

definition evict :: "nat \<Rightarrow> 'f Filters \<Rightarrow> 'f Filters" where
  "evict now fs = fs\<lparr>fs_active := fmfilter
     (\<lambda>fid. case fmlookup (fs_active fs) fid of Some (_, deadline) \<Rightarrow> \<not> deadline < now | None \<Rightarrow> True) (fs_active fs)\<rparr>"

section \<open>What a filter reports\<close>

text \<open>What the node does with its filters: new blocks are sent to every receiver of blocks.\<close>

fun receive_block :: "NewBlockNotification \<Rightarrow> 'f EthFilter \<Rightarrow> 'f EthFilter" where
  "receive_block n (FLogs f) = FLogs (f\<lparr>lf_blocks := lf_blocks f @ [n]\<rparr>)"
| "receive_block n (FBlocks blocks) = FBlocks (blocks @ [n])"
| "receive_block n (FPendingTransactions txs) = FPendingTransactions txs"

fun receive_tx :: "H256 \<Rightarrow> 'f EthFilter \<Rightarrow> 'f EthFilter" where
  "receive_tx h (FPendingTransactions txs) = FPendingTransactions (txs @ [h])"
| "receive_tx h f = f"

datatype ('f, 't) filter_event = NewBlock NewBlockNotification | NewTx H256 | Install nat string "'f EthFilter"
  | Uninstall string | Evict nat | Changes nat string "'t BlockchainStorage"

definition all_filters :: "('f EthFilter \<Rightarrow> 'f EthFilter) \<Rightarrow> 'f Filters \<Rightarrow> 'f Filters" where
  "all_filters g fs = fs\<lparr>fs_active := fmmap (\<lambda>(f, deadline). (g f, deadline)) (fs_active fs)\<rparr>"

fun run_filters :: "crypto \<Rightarrow> rlp_lib \<Rightarrow> ('f, 't) filter_event list \<Rightarrow> 'f Filters \<Rightarrow>
    ((string \<times> changes) list \<times> 'f Filters) option" where
  "run_filters cr rlp [] fs = Some ([], fs)"
| "run_filters cr rlp (NewBlock n # evs) fs = run_filters cr rlp evs (all_filters (receive_block n) fs)"
| "run_filters cr rlp (NewTx h # evs) fs = run_filters cr rlp evs (all_filters (receive_tx h) fs)"
| "run_filters cr rlp (Install now fid f # evs) fs = run_filters cr rlp evs (add_filter now fid f fs)"
| "run_filters cr rlp (Uninstall fid # evs) fs = run_filters cr rlp evs (snd (uninstall_filter fid fs))"
| "run_filters cr rlp (Evict now # evs) fs = run_filters cr rlp evs (evict now fs)"
| "run_filters cr rlp (Changes now fid storage # evs) fs = do {
     (resp, fs) \<leftarrow> get_filter_changes cr rlp storage now fid fs;
     (out, fs) \<leftarrow> run_filters cr rlp evs fs;
     Some ((fid, resp) # out, fs)
   }"

text \<open>
  The filter \<open>fid\<close>, last polled at \<open>p\<close>, is neither uninstalled nor replaced, and at every eviction its last poll
  is at most the time ago for which filters are kept.
\<close>

fun kept :: "nat \<Rightarrow> string \<Rightarrow> nat \<Rightarrow> ('f, 't) filter_event list \<Rightarrow> bool" where
  "kept k fid p [] \<longleftrightarrow> True"
| "kept k fid p (NewBlock n # evs) \<longleftrightarrow> kept k fid p evs"
| "kept k fid p (NewTx h # evs) \<longleftrightarrow> kept k fid p evs"
| "kept k fid p (Install now g f # evs) \<longleftrightarrow> g \<noteq> fid \<and> kept k fid p evs"
| "kept k fid p (Uninstall g # evs) \<longleftrightarrow> g \<noteq> fid \<and> kept k fid p evs"
| "kept k fid p (Evict now # evs) \<longleftrightarrow> now \<le> p + k \<and> kept k fid p evs"
| "kept k fid p (Changes now g storage # evs) \<longleftrightarrow> kept k fid (if g = fid then now else p) evs"

fun new_blocks :: "('f, 't) filter_event list \<Rightarrow> H256 list" where
  "new_blocks [] = []"
| "new_blocks (NewBlock n # evs) = nb_hash n # new_blocks evs"
| "new_blocks (_ # evs) = new_blocks evs"

fun reported :: "string \<Rightarrow> (string \<times> changes) list \<Rightarrow> H256 list" where
  "reported fid [] = []"
| "reported fid ((g, HashChanges hs) # out) = (if g = fid then hs else []) @ reported fid out"
| "reported fid (_ # out) = reported fid out"

lemma reported_Cons: "reported fid ((g, resp) # out) = (if g = fid then case resp of HashChanges hs \<Rightarrow> hs | _ \<Rightarrow> [] else []) @ reported fid out"
  by (cases resp) simp_all

lemma run_block_filter:
  assumes "run_filters cr rlp evs fs = Some (out, fs')" "fmlookup (fs_active fs) fid = Some (FBlocks q, p + fs_keepalive fs)"
    "kept (fs_keepalive fs) fid p evs"
  shows "\<exists>q' d. fmlookup (fs_active fs') fid = Some (FBlocks q', d) \<and>
     reported fid out @ map nb_hash q' = map nb_hash q @ new_blocks evs"
  using assms
proof (induction cr rlp evs fs arbitrary: q p out rule: run_filters.induct)
  case (7 cr rlp now g storage evs fs)
  from "7.prems"(1) obtain resp fs1 out1 where r: "get_filter_changes cr rlp storage now g fs = Some (resp, fs1)"
    "run_filters cr rlp evs fs1 = Some (out1, fs')" "out = (g, resp) # out1"
    by (auto split: bind_splits)
  note IH = "7.IH" [OF r(1) refl r(2)]
  show ?case
  proof (cases "g = fid")
    case True
    then have "resp = HashChanges (map nb_hash q)" "fs1 = fs\<lparr>fs_active := fmupd fid (FBlocks [], now + fs_keepalive fs) (fs_active fs)\<rparr>"
      using r(1) "7.prems"(2) by (auto simp: get_filter_changes_def next_deadline_def)
    then show ?thesis using IH [of "[]" now] "7.prems"(3) True r(3) by auto
  next
    case False
    then have "fmlookup (fs_active fs1) fid = fmlookup (fs_active fs) fid" "fs_keepalive fs1 = fs_keepalive fs"
      using r(1) by (auto simp: get_filter_changes_def split: option.splits bind_splits)
    then show ?thesis using IH [of q p] "7.prems"(2,3) False r(3) by (auto simp: reported_Cons)
  qed
qed (auto simp: all_filters_def add_filter_def uninstall_filter_def evict_def)

text \<open>
  C20: A block filter that is polled often enough to survive every eviction stays active, and its answers, one after
  the other, followed by what is still queued for it, are the hashes of the blocks that arrived since it was
  installed, each once and in order, whatever happens to other filters.
\<close>

theorem block_filter_complete:
  assumes "run_filters cr rlp evs (add_filter now fid (FBlocks []) fs) = Some (out, fs')"
    "kept (fs_keepalive fs) fid now evs"
  shows "\<exists>q d. fmlookup (fs_active fs') fid = Some (FBlocks q, d) \<and> reported fid out @ map nb_hash q = new_blocks evs"
  using run_block_filter [OF assms(1), of fid "[]" now] assms(2) by (auto simp: add_filter_def next_deadline_def)

definition ex_note :: "H256 \<Rightarrow> NewBlockNotification" where
  "ex_note h = \<lparr>nb_hash = h, nb_header = ex_header\<rparr>"

definition ex_events :: "(unit, unit) filter_event list" where
  "ex_events = [NewBlock (ex_note 1), NewBlock (ex_note 2), Changes 200 ''a'' storage_empty, Evict 400, NewBlock (ex_note 3)]"

definition ex_filters :: "unit Filters" where
  "ex_filters = \<lparr>fs_active = fmempty, fs_keepalive = 300\<rparr>"

theorem block_filter_complete_witness:
  "kept 300 ''a'' 0 ex_events \<and>
   (\<exists>out fs' q d. run_filters ex_crypto ex_rlp ex_events (add_filter 0 ''a'' (FBlocks []) ex_filters) = Some (out, fs') \<and>
     reported ''a'' out = [1, 2] \<and> fmlookup (fs_active fs') ''a'' = Some (FBlocks q, d) \<and> reported ''a'' out @ map nb_hash q = [1, 2, 3])"
proof -
  have kept: "kept (fs_keepalive ex_filters) ''a'' 0 ex_events" by (simp add: ex_events_def ex_filters_def)
  obtain out fs' where run: "run_filters ex_crypto ex_rlp ex_events (add_filter 0 ''a'' (FBlocks []) ex_filters) = Some (out, fs')"
    "reported ''a'' out = [1, 2]"
    by (simp add: ex_events_def ex_filters_def add_filter_def next_deadline_def all_filters_def get_filter_changes_def
        evict_def ex_note_def)
  from block_filter_complete [OF run(1) kept] run kept show ?thesis by (fastforce simp: ex_events_def ex_filters_def ex_note_def)
qed

end
