(* ===== verification/Spec2Isabelle.thy ===== *)
theory Spec2Isabelle
  imports PoolSafety TransactionRlp Fees NodeTime Cheats Snapshots InspectorSafety GasEstimate Api MinedTraces Coverage
    FilterPolls
begin

text \<open>
  A verification development of foundry-zksync: the node \<open>anvil\<close> and the parts of the test runner's EVM
  (\<open>evm/\<close>) that decide what a test sees.  The source is a workspace of Rust crates under \<open>src/\<close>.

  \<^bold>\<open>The program.\<close>  A client of the node sends a request to the RPC layer (\<open>anvil/src/eth/api.rs\<close>), which completes,
  signs and validates the transaction and gives it to the pool (\<open>anvil/src/eth/pool\<close>).  The pool keeps transactions
  in two queues, those that wait for another transaction and those that are ready, and tells the miner
  (\<open>anvil/src/eth/miner.rs\<close>) about ready ones.  The service (\<open>anvil/src/service.rs\<close>) polls the miner and lets the
  backend (\<open>anvil/src/eth/backend/mem\<close>) mine a block: the executor (\<open>backend/executor.rs\<close>) runs the transactions
  through \<open>revm\<close>, the block is stored with its transactions, traces and state, the base fee
  (\<open>anvil/src/eth/fees.rs\<close>) and the time (\<open>backend/time.rs\<close>) move on, filters (\<open>anvil/src/filter.rs\<close>) are
  notified, and the pool forgets what was mined.  In the test runner, inspectors watch every instruction and call:
  the cheatcode inspector (\<open>evm/src/executor/inspector/cheatcodes\<close>) lets a test change its environment and state
  expectations, the tracer (\<open>inspector/tracer.rs\<close>) and the coverage collector (\<open>inspector/coverage.rs\<close>) record.

  \<^bold>\<open>Conventions.\<close>  Rust integers are words of their width, \<open>usize\<close> is \<open>nat\<close>; \<open>add_chk\<close>, \<open>sub_chk\<close> and the
  other checked operations of \<open>Prelude\<close> are the operators of the development profile, in which overflow panics.  A
  function that can panic or not return has an \<open>option\<close> result whose \<open>None\<close> is that; \<open>Result\<close> is the datatype
  \<open>result\<close>.  A struct is a record, an enum a datatype, \<open>HashMap\<close> and \<open>BTreeMap\<close> are finite maps, and where the
  iteration order of a hash container shows, the order is an argument of which only \<open>iter_order\<close> is known.  Code
  behind \<open>Arc<RwLock<..>>\<close> is a function on the state it guards.  Other crates (\<open>revm\<close>, \<open>ethers\<close>, \<open>rlp\<close>,
  \<open>fastrlp\<close>, the hash and signature functions, channels, clocks, the disk) are records of functions that the
  definitions take as arguments, with predicates such as \<open>rlp_ok\<close>, \<open>fast_ok\<close>, \<open>journal_ok\<close>, \<open>channel_ok\<close> and
  \<open>signer_ok\<close> that state what is relied on; each has a concrete instance in the examples.
\<close>

section \<open>The theories\<close>

text \<open>
  \<^bold>\<open>Shared.\<close>  \<open>Prelude\<close> has the types, checked arithmetic, containers, the contract \<open>ordered_set\<close> of
  \<open>BTreeSet\<close>, the contract \<open>machine_inv\<close> of invariants of transition systems with \<open>reach\<close>, and \<open>codec\<close>.
  \<open>EvmTypes\<close> has the types of \<open>revm\<close> that node and inspectors share.

  \<^bold>\<open>Transactions.\<close>  \<open>Transaction\<close> models requests, typed transactions, signatures and senders
  (\<open>anvil/core/src/eth/transaction/mod.rs\<close>); \<open>TransactionRlp\<close> and \<open>BlockRlp\<close> the two encoders and decoders of
  transactions, headers, blocks and receipts (\<open>block.rs\<close>, \<open>receipt.rs\<close>).  The lemmas are round trips, and that
  encodings differ for different headers.

  \<^bold>\<open>Pool.\<close>  \<open>PoolPending\<close> and \<open>PoolReady\<close> model the two queues of \<open>pool/transactions.rs\<close> one operation at a time,
  \<open>Pool\<close> the pool of \<open>pool/mod.rs\<close>.  \<open>wf_pool\<close> is the invariant that joins the maps of both queues; every operation
  keeps it and none of the \<open>expect\<close>s fires.  \<open>PoolSafety\<close> states this of all reachable pools, and what adding,
  replacing, mining and iterating do; \<open>PoolContents\<close> that properties of submitted transactions hold of pooled ones.

  \<^bold>\<open>Node.\<close>  \<open>Fees\<close>, \<open>NodeTime\<close>, \<open>Cheats\<close> model the managers of fees, time and impersonation; \<open>NodeEnv\<close> what
  the backend and the handlers share: errors, validation, environments.  \<open>Executor\<close> models the execution of a block,
  \<open>BlockStates\<close> the history of states, \<open>Chain\<close> the storage of blocks, mining, snapshots and reverting
  (\<open>mem/mod.rs\<close>, \<open>mem/storage.rs\<close>); \<open>ChainSafety\<close> shows with the invariants \<open>chain_ok\<close> and \<open>backend_ok\<close> that a mined
  block extends the chain and that a revert undoes it.  \<open>Service\<close> models miner, block producer and service loop and shows that an
  offered transaction is mined.  \<open>GasEstimate\<close> models \<open>eth_estimateGas\<close>.  \<open>Api\<close> models the way of a transaction from
  \<open>eth_sendTransaction\<close> or \<open>eth_sendRawTransaction\<close> to the pool, and composes signer, state, validation and pool: every
  transaction in the pool of a node that only handles requests is well formed.  \<open>FilterPolls\<close> models polled filters
  and the logs that match one, and shows that a block filter reports every block once.

  \<^bold>\<open>EVM.\<close>  \<open>Snapshots\<close> models \<open>executor/snapshot.rs\<close>.  \<open>CheatState\<close> has the state of the cheatcode inspector;
  \<open>CheatEnv\<close>, \<open>CheatExpect\<close> and \<open>CheatMapping\<close> model the handlers of \<open>env.rs\<close>, \<open>expect.rs\<close> and \<open>mapping.rs\<close>;
  \<open>Inspector\<close> the callbacks of \<open>cheatcodes/mod.rs\<close> that call them.  \<open>InspectorSpec\<close> states which mock answers a
  call, how expected calls are counted and how a prank lives; \<open>InspectorSafety\<close> what holds after any sequence of
  callbacks.  \<open>Trace\<close> models the arena of call traces and the tracer (\<open>evm/src/trace\<close>, \<open>inspector/tracer.rs\<close>);
  \<open>TraceSpec\<close> shows that the arena represents the tree of calls of an execution and that the trace for geth lists its
  steps in order, or panics; \<open>MinedTraces\<close> models the traces of a mined transaction and shows that the
  address of each leads to it.  \<open>Coverage\<close> models hit maps, their collector and the coverage report.

  \<^bold>\<open>Interfaces.\<close>  \<open>ordered_set\<close> is interpreted by the sorted lists that model \<open>BTreeSet\<close> (\<open>bset\<close>), \<open>machine_inv\<close> by
  the pool (\<open>pool_machine\<close>), the inspector (\<open>cheat_machine\<close>), the node that handles requests (\<open>api_machine\<close>) and the
  tracer (\<open>tracer_machine\<close>), \<open>codec\<close> by the markers of the pool (\<open>marker\<close>).
\<close>

section \<open>Loops\<close>

text \<open>
  No definition has fuel.  Most loops are structural recursion over what they iterate.  The walks of the pool over
  its graph of transactions (\<open>prune_loop\<close>, \<open>remove_loop\<close>, \<open>add_ready_loop\<close>, \<open>iter_next\<close>), the binary search for gas
  (\<open>gas_search\<close>), the removal of later snapshots and the insertion of mapping slots are functions with a measure: what
  is still in the queue or map, or the width of the interval.  The eviction of old states, the collection of an
  iterator, the loop of the service, the search for the parent of a trace, the trace for geth and the address of a trace need not end for every
  state, so they are partial functions into \<open>option\<close>; that they return is part of the theorems about them, under
  the invariant that makes them end.  Where they do not, which is the eviction with a memory limit of zero and the
  service while a block is being mined, the theorems say so.
\<close>

section \<open>Deviations the theorems show\<close>

text \<open>
  Some theorems describe what the code does where that is not what it means to do: a transaction that is removed
  from the ready queue and added again is yielded before its requirement; a transaction whose promotion evicts it is
  dropped; the access list of a request is lost; a nested call ends a prank without restoring the origin; a block
  can exceed its gas limit; a gas estimate can panic; a memory limit of zero hangs the node; a stale snapshot breaks
  the chain; the service spins while a block is being mined; a transaction without a nonce does not wait for the one
  before it; the trace for geth panics on a call instruction that failed.
\<close>

section \<open>Not modelled\<close>

text \<open>
  \<^item> Fork mode of node and runner (\<open>backend/fork.rs\<close>, \<open>fork_db.rs\<close>, \<open>evm/src/executor/fork\<close>,
    \<open>evm/src/executor/backend\<close>): its content is the answers of a remote node.
  \<^item> The EVM, the database, the trie, signatures and hashes: other crates, taken as parameters.
  \<^item> Servers, RPC messages, subscriptions, logging, command lines, configuration (\<open>anvil/server\<close>, \<open>anvil/rpc\<close>,
    \<open>cli\<close>, \<open>config\<close>, \<open>common\<close>, \<open>ui\<close>): input and output, and serde.
  \<^item> Conversions of blocks, transactions and receipts to RPC types, proofs and state dumps of the backend.
  \<^item> Floating point: the ratios of the fee history are an argument.
  \<^item> Wakers, locks and the interleaving of threads: what a future or a channel answers is an argument.
  \<^item> The handlers of \<open>ext.rs\<close>, \<open>fs.rs\<close>, \<open>fork.rs\<close>, \<open>snapshot.rs\<close> and \<open>fuzz.rs\<close> of the cheatcodes: processes, files,
    forks; the inspector takes them as a parameter.
  \<^item> The other inspectors, decoding and printing of traces, source analysis of coverage, fuzzing, the debugger, the test runner
    \<open>forge\<close>, \<open>cast\<close>, \<open>chisel\<close>, \<open>fmt\<close>, \<open>doc\<close>, \<open>binder\<close>, \<open>macros\<close>: they are about the compiler's output, the
    syntax tree of another crate's parser, random generation, or output.
  \<^item> The bindings in \<open>abi\<close> are generated.
\<close>

end
